(* ===== verification/Bundler_Prelude.thy ===== *)
theory Bundler_Prelude
  imports Main "HOL-Library.Word"
begin

text \<open>
  Shared vocabulary of the development: the machine integers and byte strings of the Rust
  sources, big-endian encoding, saturating arithmetic, integer formatting, and the effect
  type in which the asynchronous functions of the bundler are written.

  \<^item> Fixed-width unsigned integers are words.  \<open>U256\<close> of alloy is a 256-bit word; \<open>Address\<close>
    and \<open>B256\<close> are byte arrays of 20 and 32 bytes, read here as the big-endian words of 160
    and 256 bits.  \<open>usize\<close> is a natural number, with \<open>usize_max\<close> its largest value on
    a 64-bit target.
  \<^item> A byte string (\<open>Bytes\<close>, \<open>Vec<u8>\<close>, \<open>&[u8]\<close>) is a list of 8-bit words.
  \<^item> \<open>Result<T, E>\<close> of a pure function is a sum \<open>'e + 'a\<close> (\<open>Inl\<close> the error).
  \<^item> An asynchronous function is a \<open>prog\<close>: it reads and writes a world \<open>'w\<close> and ends in a
    value, an error or a panic; \<open>None\<close> stands for a call that never completes.
\<close>

unbundle bit_operations_syntax

named_theorems word_facts \<open>readings of the machine integers as natural numbers\<close>
named_theorems prog_simps \<open>evaluation of the effect combinators\<close>

type_synonym u8 = "8 word"
type_synonym u32 = "32 word"
type_synonym u64 = "64 word"
type_synonym u128 = "128 word"
type_synonym u256 = "256 word"
type_synonym address = "160 word"
type_synonym b256 = "256 word"
type_synonym usize = nat
type_synonym bytes = "u8 list"

definition usize_max :: usize where
  "usize_max = 2 ^ 64 - 1"

section \<open>Big-endian bytes\<close>

text \<open>
  \<open>be_bytes n w\<close> is the last \<open>n\<close> bytes of the big-endian representation of \<open>w\<close>
  (\<open>to_be_bytes\<close>, \<open>as_slice\<close>), \<open>be_word\<close> reads a big-endian byte string
  (\<open>from_be_slice\<close>, \<open>from_slice\<close>).
\<close>

definition be_bytes :: "nat \<Rightarrow> 'a::len word \<Rightarrow> bytes" where
  "be_bytes n w = map (\<lambda>i. ucast (drop_bit (8 * i) w)) (rev [0..<n])"

definition be_word :: "bytes \<Rightarrow> 'a::len word" where
  "be_word bs = foldl (\<lambda>acc b. push_bit 8 acc OR ucast b) 0 bs"

lemma length_be_bytes [simp]: "length (be_bytes n w) = n"
  by (simp add: be_bytes_def)

lemma be_bytes_0 [simp]: "be_bytes 0 w = []"
  by (simp add: be_bytes_def)

lemma be_bytes_Suc: "be_bytes (Suc n) w = ucast (drop_bit (8 * n) w) # be_bytes n w"
  by (simp add: be_bytes_def)

lemma nth_be_bytes: "i < n \<Longrightarrow> be_bytes n w ! i = ucast (drop_bit (8 * (n - Suc i)) w)"
  by (simp add: be_bytes_def rev_nth)

lemma drop_be_bytes: "k \<le> n \<Longrightarrow> drop k (be_bytes n w) = be_bytes (n - k) w"
  by (rule nth_equalityI) (auto simp: nth_be_bytes)

lemma be_word_snoc: "be_word (bs @ [b]) = push_bit 8 (be_word bs) OR ucast b"
  by (simp add: be_word_def)

lemma bit_be_word_iff:
  "bit (be_word bs :: 'a::len word) k \<longleftrightarrow>
     k < LENGTH('a) \<and> k div 8 < length bs \<and> bit (bs ! (length bs - Suc (k div 8))) (k mod 8)"
proof (induction bs arbitrary: k rule: rev_induct)
  case Nil
  show ?case by (simp add: be_word_def)
next
  case (snoc b bs)
  show ?case
  proof (cases "k < 8")
    case True
    then show ?thesis by (auto simp: be_word_snoc bit_simps nth_append)
  next
    case False
    then obtain j where j: "k = j + 8" by (metis add.commute le_Suc_ex not_less)
    have eq: "k div 8 = Suc (j div 8)" "k mod 8 = j mod 8" by (simp_all add: j)
    have "\<not> bit (ucast b :: 'a word) k"
      using False by (auto simp: bit_simps dest: bit_imp_le_length)
    then have "bit (be_word (bs @ [b]) :: 'a word) k \<longleftrightarrow> k < LENGTH('a) \<and> bit (be_word bs :: 'a word) j"
      using False by (auto simp: be_word_snoc bit_simps j)
    also have "\<dots> \<longleftrightarrow> k < LENGTH('a) \<and> j div 8 < length bs \<and> bit (bs ! (length bs - Suc (j div 8))) (j mod 8)"
      using snoc.IH [of j] by (auto simp: j)
    finally show ?thesis
      by (auto simp: eq nth_append)
  qed
qed

lemma be_word_be_bytes:
  "(be_word (be_bytes n (w :: 'a::len word)) :: 'b::len word) = take_bit (8 * n) (ucast w)"
proof (rule bit_word_eqI)
  fix k assume "k < LENGTH('b)"
  moreover have "k div 8 < n \<longleftrightarrow> k < 8 * n" by auto
  moreover have "8 * (k div 8) + k mod 8 = k" by simp
  ultimately show "bit (be_word (be_bytes n w) :: 'b word) k \<longleftrightarrow> bit (take_bit (8 * n) (ucast w) :: 'b word) k"
    by (auto simp: bit_be_word_iff nth_be_bytes bit_simps dest: bit_imp_le_length)
qed

lemma be_bytes_be_word:
  assumes "length bs = n" and "8 * n \<le> LENGTH('a::len)"
  shows "be_bytes n (be_word bs :: 'a word) = bs"
proof (rule nth_equalityI)
  fix i assume i: "i < length (be_bytes n (be_word bs :: 'a word))"
  show "be_bytes n (be_word bs :: 'a word) ! i = bs ! i"
  proof (rule bit_word_eqI)
    fix k assume k: "k < LENGTH(8)"
    have "(8 * (n - Suc i) + k) div 8 = n - Suc i" "(8 * (n - Suc i) + k) mod 8 = k"
      using k by auto
    then show "bit (be_bytes n (be_word bs :: 'a word) ! i) k = bit (bs ! i) k"
      using i k assms by (auto simp: nth_be_bytes bit_simps bit_be_word_iff)
  qed
qed (use assms in simp)

section \<open>Saturating arithmetic, bit length and narrowing\<close>

definition sat_add :: "'a::len word \<Rightarrow> 'a word \<Rightarrow> 'a word" where
  "sat_add a b = (if unat a + unat b < 2 ^ LENGTH('a) then a + b else - 1)"

definition sat_mul :: "'a::len word \<Rightarrow> 'a word \<Rightarrow> 'a word" where
  "sat_mul a b = (if unat a * unat b < 2 ^ LENGTH('a) then a * b else - 1)"

lemma unat_minus_1 [word_facts]: "unat (- 1 :: 'a::len word) = 2 ^ LENGTH('a) - 1"
  by (simp add: unsigned_minus_1_eq_mask mask_eq_exp_minus_1)

lemma unat_sat_add [word_facts]: "unat (sat_add a b) = min (unat a + unat b) (2 ^ LENGTH('a) - 1)"
  for a b :: "'a::len word"
  by (auto simp: sat_add_def unat_word_ariths unat_minus_1)

lemma unat_sat_mul [word_facts]: "unat (sat_mul a b) = min (unat a * unat b) (2 ^ LENGTH('a) - 1)"
  for a b :: "'a::len word"
  by (auto simp: sat_mul_def unat_word_ariths unat_minus_1)

fun nat_bit_len :: "nat \<Rightarrow> nat" where
  "nat_bit_len n = (if n = 0 then 0 else Suc (nat_bit_len (n div 2)))"
declare nat_bit_len.simps [simp del]

lemma nat_bit_len_le_iff: "nat_bit_len n \<le> k \<longleftrightarrow> n < 2 ^ k"
proof (induction n arbitrary: k rule: nat_bit_len.induct)
  case (1 n)
  show ?case
  proof (cases "n = 0 \<or> k = 0")
    case True
    then show ?thesis by (auto simp: nat_bit_len.simps [of n])
  next
    case False
    then obtain j where j: "k = Suc j" by (cases k) auto
    have "nat_bit_len n \<le> k \<longleftrightarrow> n div 2 < 2 ^ j"
      using False 1 [of j] by (simp add: nat_bit_len.simps [of n] j)
    also have "\<dots> \<longleftrightarrow> n < 2 ^ k" by (auto simp: j)
    finally show ?thesis .
  qed
qed

definition bit_len :: "'a::len word \<Rightarrow> nat" where
  "bit_len w = nat_bit_len (unat w)"

lemma bit_len_gt_iff [word_facts]: "k < bit_len w \<longleftrightarrow> 2 ^ k \<le> unat w"
  using nat_bit_len_le_iff [of "unat w" k] by (simp add: bit_len_def not_le [symmetric])

text \<open>\<open>uN::try_from(v)\<close>: the value at the narrower width, or nothing when it does not fit.\<close>

definition try_narrow :: "'a::len word \<Rightarrow> 'b::len word option" where
  "try_narrow v = (if unat v < 2 ^ LENGTH('b) then Some (ucast v) else None)"

lemma unat_ucast_small [word_facts]:
  "unat v < 2 ^ LENGTH('b::len) \<Longrightarrow> unat (ucast v :: 'b word) = unat v"
  by (simp add: unsigned_ucast_eq take_bit_nat_eq_self)

lemma unat_ucast_widen [word_facts]:
  assumes "LENGTH('a::len) \<le> LENGTH('b::len)"
  shows "unat (ucast (v :: 'a word) :: 'b word) = unat v"
proof (rule unat_ucast_small)
  have "unat v < 2 ^ LENGTH('a)" by (rule unsigned_less)
  also have "\<dots> \<le> 2 ^ LENGTH('b)" using assms by (intro power_increasing) simp_all
  finally show "unat v < 2 ^ LENGTH('b)" .
qed

lemma try_narrow_Some_iff:
  "try_narrow v = Some (r :: 'b::len word) \<longleftrightarrow> unat r = unat v"
proof
  assume "unat r = unat v"
  moreover from this have "unat v < 2 ^ LENGTH('b)"
    by (metis unsigned_less)
  ultimately show "try_narrow v = Some r"
    by (auto simp: try_narrow_def unat_ucast_small intro: word_unat_eq_iff [THEN iffD2])
qed (auto simp: try_narrow_def unat_ucast_small split: if_splits)

section \<open>Formatting of integers\<close>

text \<open>
  \<open>Display\<close> and \<open>{:x}\<close> of an unsigned integer: digits in base 10 and 16, most significant
  first, no padding.
\<close>

definition digit_char :: "nat \<Rightarrow> char" where
  "digit_char d = (if d < 10 then char_of (48 + d) else char_of (87 + d))"

definition digit_value :: "char \<Rightarrow> nat" where
  "digit_value c = (let k = of_char c in if k < 58 then k - 48 else k - 87)"

fun radix_string :: "nat \<Rightarrow> nat \<Rightarrow> string" where
  "radix_string b n =
     (if n < b \<or> b < 2 then [digit_char n]
      else radix_string b (n div b) @ [digit_char (n mod b)])"

declare radix_string.simps [simp del]

definition radix_value :: "nat \<Rightarrow> string \<Rightarrow> nat" where
  "radix_value b s = foldl (\<lambda>acc c. acc * b + digit_value c) 0 s"

abbreviation dec_string :: "nat \<Rightarrow> string" where
  "dec_string \<equiv> radix_string 10"

abbreviation hex_string :: "nat \<Rightarrow> string" where
  "hex_string \<equiv> radix_string 16"

lemma digit_value_char: "d < 16 \<Longrightarrow> digit_value (digit_char d) = d"
  by (auto simp: digit_value_def digit_char_def of_char_of Let_def)

lemma radix_value_string:
  "2 \<le> b \<Longrightarrow> b \<le> 16 \<Longrightarrow> radix_value b (radix_string b n) = n"
proof (induction b n rule: radix_string.induct)
  case (1 b n)
  show ?case
  proof (cases "n < b")
    case True
    with 1 show ?thesis
      by (simp add: radix_string.simps [of b n] radix_value_def digit_value_char)
  next
    case False
    with 1 have "radix_value b (radix_string b (n div b)) = n div b" by simp
    moreover have "digit_value (digit_char (n mod b)) = n mod b"
    proof (rule digit_value_char)
      have "n mod b < b" using 1 by simp
      also have "b \<le> 16" using 1 by simp
      finally show "n mod b < 16" .
    qed
    ultimately show ?thesis
      using False 1 by (simp add: radix_string.simps [of b n] radix_value_def)
  qed
qed

lemma radix_string_inject:
  assumes "2 \<le> b" and "b \<le> 16"
  shows "radix_string b m = radix_string b n \<longleftrightarrow> m = n"
  using radix_value_string [OF assms] by metis

lemma radix_string_nonempty [simp]: "radix_string b n \<noteq> []"
  by (subst radix_string.simps) simp

lemma radix_string_no_leading_zero:
  "2 \<le> b \<Longrightarrow> b \<le> 16 \<Longrightarrow> 0 < n \<Longrightarrow> hd (radix_string b n) \<noteq> CHR ''0''"
proof (induction b n rule: radix_string.induct)
  case (1 b n)
  show ?case
  proof (cases "n < b")
    case True
    then have "digit_value (digit_char n) \<noteq> digit_value CHR ''0''"
      using 1 by (simp add: digit_value_char) (simp add: digit_value_def)
    with True show ?thesis by (subst radix_string.simps) auto
  next
    case False
    with 1 show ?thesis by (subst radix_string.simps) (simp add: div_greater_zero_iff)
  qed
qed

section \<open>Fixed-width fields\<close>

text \<open>
  A field of a packed byte layout: an encoder to a fixed number of bytes and a decoder that
  inverts it on the values that fit the field.
\<close>

locale fixed_codec =
  fixes enc :: "'a \<Rightarrow> bytes" and dec :: "bytes \<Rightarrow> 'a" and width :: nat and fits :: "'a \<Rightarrow> bool"
  assumes enc_length: "length (enc x) = width"
    and dec_enc: "fits x \<Longrightarrow> dec (enc x) = x"
    and enc_dec: "length bs = width \<Longrightarrow> enc (dec bs) = bs"
    and dec_fits: "length bs = width \<Longrightarrow> fits (dec bs)"
begin

lemma enc_inject: "fits x \<Longrightarrow> fits y \<Longrightarrow> enc x = enc y \<longleftrightarrow> x = y"
  by (metis dec_enc)

lemma read_front: "fits x \<Longrightarrow> dec (take width (enc x @ rest)) = x"
  by (simp add: enc_length dec_enc)

lemma skip_front: "drop width (enc x @ rest) = rest"
  by (simp add: enc_length)

lemma read_at: "length pre = n \<Longrightarrow> fits x \<Longrightarrow> dec (take width (drop n (pre @ enc x @ rest))) = x"
  by (simp add: enc_length dec_enc)

lemma front_field: "width \<le> length bs \<Longrightarrow> enc (dec (take width bs)) = take width bs"
  by (simp add: enc_dec)

end

interpretation addr: fixed_codec "be_bytes 20 :: address \<Rightarrow> bytes" be_word 20 "\<lambda>_. True"
  by unfold_locales (simp_all add: be_word_be_bytes be_bytes_be_word take_bit_word_eq_self)

interpretation half: fixed_codec "be_bytes 16 :: u256 \<Rightarrow> bytes" be_word 16 "\<lambda>v. unat v < 2 ^ 128"
proof (unfold_locales, goal_cases)
  case (2 x)
  then show ?case
    by (simp add: be_word_be_bytes word_unat_eq_iff unsigned_take_bit_eq take_bit_nat_eq_self)
next
  case (4 bs)
  then have "be_word bs = take_bit 128 (be_word bs :: u256)"
    using be_word_be_bytes [of 16 "be_word bs :: u256", where 'b = 256]
    by (simp add: be_bytes_be_word)
  then have "unat (be_word bs :: u256) = take_bit 128 (unat (be_word bs :: u256))"
    by (metis unsigned_take_bit_eq)
  then show ?case by (metis take_bit_nat_less_exp)
qed (simp_all add: be_bytes_be_word)

interpretation full: fixed_codec "be_bytes 32 :: u256 \<Rightarrow> bytes" be_word 32 "\<lambda>_. True"
  by unfold_locales (simp_all add: be_word_be_bytes be_bytes_be_word take_bit_word_eq_self)

section \<open>Effects\<close>

datatype ('e, 'a) flow = Done 'a | Fail 'e | Panic string

type_synonym ('w, 'e, 'a) prog = "'w \<Rightarrow> (('e, 'a) flow \<times> 'w) option"

definition pret :: "'a \<Rightarrow> ('w, 'e, 'a) prog" where
  "pret x = (\<lambda>w. Some (Done x, w))"

definition pfail :: "'e \<Rightarrow> ('w, 'e, 'a) prog" where
  "pfail e = (\<lambda>w. Some (Fail e, w))"

definition ppanic :: "string \<Rightarrow> ('w, 'e, 'a) prog" where
  "ppanic m = (\<lambda>w. Some (Panic m, w))"

definition pbind :: "('w, 'e, 'a) prog \<Rightarrow> ('a \<Rightarrow> ('w, 'e, 'b) prog) \<Rightarrow> ('w, 'e, 'b) prog" where
  "pbind m k = (\<lambda>w. case m w of
       None \<Rightarrow> None
     | Some (r, w') \<Rightarrow> (case r of Done x \<Rightarrow> k x w' | Fail e \<Rightarrow> Some (Fail e, w') | Panic s \<Rightarrow> Some (Panic s, w')))"

text \<open>The \<open>?\<close> operator: on a pure result, and on a call whose error is converted by \<open>From\<close>.\<close>

definition plift :: "'e + 'a \<Rightarrow> ('w, 'e, 'a) prog" where
  "plift r = (case r of Inl e \<Rightarrow> pfail e | Inr x \<Rightarrow> pret x)"

definition pcall :: "('f \<Rightarrow> 'e) \<Rightarrow> ('w \<Rightarrow> (('f + 'a) \<times> 'w) option) \<Rightarrow> ('w, 'e, 'a) prog" where
  "pcall conv m = (\<lambda>w. case m w of
       None \<Rightarrow> None
     | Some (r, w') \<Rightarrow> Some (case r of Inl e \<Rightarrow> Fail (conv e) | Inr x \<Rightarrow> Done x, w'))"

text \<open>A call of a function with its own error type, whose error is converted by \<open>From\<close>.\<close>

definition pmap_err :: "('f \<Rightarrow> 'e) \<Rightarrow> ('w, 'f, 'a) prog \<Rightarrow> ('w, 'e, 'a) prog" where
  "pmap_err conv m = (\<lambda>w. map_option (map_prod (map_flow conv id) id) (m w))"

text \<open>Pure results compose the same way.\<close>

definition rbind :: "'e + 'a \<Rightarrow> ('a \<Rightarrow> 'e + 'b) \<Rightarrow> 'e + 'b" where
  "rbind r k = (case r of Inl e \<Rightarrow> Inl e | Inr x \<Rightarrow> k x)"

lemma rbind_simps [simp]: "rbind (Inl e) k = Inl e" "rbind (Inr x) k = k x"
  by (simp_all add: rbind_def)

lemma rbind_Inr_iff: "rbind r k = Inr y \<longleftrightarrow> (\<exists>x. r = Inr x \<and> k x = Inr y)"
  by (cases r) auto

lemma rbind_Inl_iff: "rbind r k = Inl e \<longleftrightarrow> r = Inl e \<or> (\<exists>x. r = Inr x \<and> k x = Inl e)"
  by (cases r) auto

lemma pbind_assoc [prog_simps]: "pbind (pbind m k) h = pbind m (\<lambda>x. pbind (k x) h)"
  by (auto simp: pbind_def fun_eq_iff split: option.splits flow.splits)

lemma pbind_simps [simp]:
  "pbind (pret x) k = k x" "pbind (pfail e) k = pfail e" "pbind (ppanic m) k = ppanic m"
  by (simp_all add: pbind_def pret_def pfail_def ppanic_def)

lemma plift_simps [simp]: "plift (Inl e) = pfail e" "plift (Inr x) = pret x"
  by (simp_all add: plift_def)

lemma pbind_Done_iff [prog_simps]:
  "pbind m k w = Some (Done y, w2) \<longleftrightarrow> (\<exists>x w1. m w = Some (Done x, w1) \<and> k x w1 = Some (Done y, w2))"
  by (auto simp: pbind_def split: option.splits flow.splits)

lemma pbind_Panic_iff [prog_simps]:
  "pbind m k w = Some (Panic s, w2) \<longleftrightarrow>
     m w = Some (Panic s, w2) \<or> (\<exists>x w1. m w = Some (Done x, w1) \<and> k x w1 = Some (Panic s, w2))"
  by (auto simp: pbind_def split: option.splits flow.splits)

lemma pret_iff [simp]:
  "pret x w = Some (Done y, w2) \<longleftrightarrow> y = x \<and> w2 = w" "pret x w \<noteq> Some (Panic s, w2)"
  "pret x w \<noteq> Some (Fail e, w2)"
  by (auto simp: pret_def)

lemma pfail_iff [simp]:
  "pfail e w = Some (Fail e', w2) \<longleftrightarrow> e' = e \<and> w2 = w" "pfail e w \<noteq> Some (Panic s, w2)"
  "pfail e w \<noteq> Some (Done y, w2)"
  by (auto simp: pfail_def)

lemma pcall_iff [prog_simps]:
  "pcall conv m w = Some (Done y, w2) \<longleftrightarrow> m w = Some (Inr y, w2)"
  "pcall conv m w \<noteq> Some (Panic s, w2)"
  by (auto simp: pcall_def split: option.splits sum.splits)

lemma plift_iff [prog_simps]:
  "plift r w = Some (Done y, w2) \<longleftrightarrow> r = Inr y \<and> w2 = w" "plift r w \<noteq> Some (Panic s, w2)"
  by (cases r; auto)+

lemma pbind_Fail_iff [prog_simps]:
  "pbind m k w = Some (Fail e, w2) \<longleftrightarrow>
     m w = Some (Fail e, w2) \<or> (\<exists>x w1. m w = Some (Done x, w1) \<and> k x w1 = Some (Fail e, w2))"
  by (auto simp: pbind_def split: option.splits flow.splits)

lemma pcall_Fail_iff [prog_simps]:
  "pcall conv m w = Some (Fail e, w2) \<longleftrightarrow> (\<exists>e'. m w = Some (Inl e', w2) \<and> e = conv e')"
  by (auto simp: pcall_def split: option.splits sum.splits)

lemma plift_Fail_iff [prog_simps]: "plift r w = Some (Fail e, w2) \<longleftrightarrow> r = Inl e \<and> w2 = w"
  by (cases r) auto

lemma map_flow_iff:
  "map_flow f id r = Done y \<longleftrightarrow> r = Done y" "map_flow f id r = Panic s \<longleftrightarrow> r = Panic s"
  "map_flow f id r = Fail e \<longleftrightarrow> (\<exists>e'. r = Fail e' \<and> e = f e')"
  by (cases r; auto)+

lemma pmap_err_iff [prog_simps]:
  "pmap_err conv m w = Some (Done y, w2) \<longleftrightarrow> m w = Some (Done y, w2)"
  "pmap_err conv m w = Some (Panic s, w2) \<longleftrightarrow> m w = Some (Panic s, w2)"
  "pmap_err conv m w = Some (Fail e, w2) \<longleftrightarrow> (\<exists>e'. m w = Some (Fail e', w2) \<and> e = conv e')"
  by (auto simp: pmap_err_def map_flow_iff)

lemma map_sum_iff:
  "map_sum f id r = Inr y \<longleftrightarrow> r = Inr y" "map_sum f id r = Inl e \<longleftrightarrow> (\<exists>e'. r = Inl e' \<and> e = f e')"
  by (cases r; auto)+

lemma map_sum_Inr_iff: "map_sum f g r = Inr y \<longleftrightarrow> (\<exists>x. r = Inr x \<and> y = g x)"
  by (cases r) auto

lemma if_prog_Done_iff:
  "(if c then pfail e else m) w = Some (Done y, w2) \<longleftrightarrow> \<not> c \<and> m w = Some (Done y, w2)"
  by simp

text \<open>Forward evaluation of a call at a known result.\<close>

lemma pbind_at: "m w = Some (Done x, w1) \<Longrightarrow> pbind m k w = k x w1"
  by (simp add: pbind_def)

lemma pbind_fails: "m w = Some (Fail e, w1) \<Longrightarrow> pbind m k w = Some (Fail e, w1)"
  by (simp add: pbind_def)

lemmas prog_eval = pbind_def pcall_def pret_def pfail_def ppanic_def pmap_err_def

end
