(* ===== verification/Wire_Types.thy ===== *)
theory Wire_Types
  imports Bundler_Prelude
begin

text \<open>
  The data of the program: the JSON-RPC types of \<open>crates/bundler/src/types.rs\<close>, the Solidity
  structs of \<open>contracts.rs\<close> and the configuration of \<open>config.rs\<close>.  Every record has the
  source's fields in the source's order; a prefix keeps the selectors apart (\<open>op_\<close> for
  \<open>UserOpV07\<close>, \<open>pk_\<close> for \<open>PackedUserOperation\<close>, \<open>resp_\<close> for \<open>SignedTxResp\<close>, \<open>cfg_\<close> for
  \<open>BundlerConfig\<close>).
\<close>

section \<open>types.rs\<close>

record UserOpV07 =
  op_sender :: address
  op_nonce :: u256
  op_init_code :: bytes
  op_factory :: "address option"
  op_factory_data :: bytes
  op_call_data :: bytes
  op_call_gas_limit :: u256
  op_verification_gas_limit :: u256
  op_pre_verification_gas :: u256
  op_max_fee_per_gas :: u256
  op_max_priority_fee_per_gas :: u256
  op_paymaster :: "address option"
  op_paymaster_verification_gas_limit :: u256
  op_paymaster_post_op_gas_limit :: u256
  op_paymaster_data :: bytes
  op_paymaster_and_data :: bytes
  op_signature :: bytes

record BuildOpts =
  opts_chain_id :: u64
  opts_submit :: bool

definition default_submit :: bool where
  "default_submit = True"

record SignedTxResp =
  resp_raw :: bytes
  resp_hash :: b256
  resp_to :: address
  resp_chain_id :: u64
  resp_gas :: u256
  resp_max_fee_per_gas :: u256
  resp_max_priority_fee_per_gas :: u256
  resp_user_op_hashes :: "b256 list"

section \<open>contracts.rs\<close>

record PackedUserOperation =
  pk_sender :: address
  pk_nonce :: u256
  pk_initCode :: bytes
  pk_callData :: bytes
  pk_accountGasLimits :: b256
  pk_preVerificationGas :: u256
  pk_gasFees :: b256
  pk_paymasterAndData :: bytes
  pk_signature :: bytes

record ReturnInfo =
  ri_preOpGas :: u256
  ri_prefund :: u256
  ri_accountValidationData :: u256
  ri_paymasterValidationData :: u256
  ri_paymasterContext :: bytes

record StakeInfo =
  si_stake :: u256
  si_unstakeDelay :: u256

record AggregatorStakeInfo =
  asi_aggregator :: address
  asi_stakeInfo :: StakeInfo

record ValidationResult =
  vr_returnInfo :: ReturnInfo
  vr_senderInfo :: StakeInfo
  vr_factoryInfo :: StakeInfo
  vr_paymasterInfo :: StakeInfo
  vr_aggregatorInfo :: AggregatorStakeInfo

text \<open>The call \<open>IEntryPoint.handleOps(ops, beneficiary)\<close>, before ABI encoding.\<close>

record handleOpsCall =
  ho_ops :: "PackedUserOperation list"
  ho_beneficiary :: address

section \<open>config.rs\<close>

definition ENTRYPOINT_V07 :: address where
  "ENTRYPOINT_V07 = be_word
     [0x00, 0x00, 0x00, 0x00, 0x71, 0x72, 0x7d, 0xe2, 0x2e, 0x5e, 0x9d, 0x8b, 0xaf, 0x0e, 0xda, 0xc6,
      0xf3, 0x7d, 0xa0, 0x32]"

record BundlerConfig =
  cfg_listen_addr :: string
  cfg_chain_id :: u64
  cfg_exec_rpc_url :: string
  cfg_entrypoint_address :: address
  cfg_sequencer_key :: b256
  cfg_max_batch_size :: usize
  cfg_min_priority_fee_wei :: u256
  cfg_gas_margin_pct :: u32

text \<open>The configuration of an operator who sets only the three required values.\<close>

definition default_config :: "u64 \<Rightarrow> string \<Rightarrow> b256 \<Rightarrow> BundlerConfig" where
  "default_config chain_id exec_rpc_url sequencer_key =
     \<lparr> cfg_listen_addr = ''0.0.0.0:8082'',
       cfg_chain_id = chain_id,
       cfg_exec_rpc_url = exec_rpc_url,
       cfg_entrypoint_address = ENTRYPOINT_V07,
       cfg_sequencer_key = sequencer_key,
       cfg_max_batch_size = 10,
       cfg_min_priority_fee_wei = 1000000,
       cfg_gas_margin_pct = 10 \<rparr>"

end
