(* ===== verification/Packing.thy ===== *)
theory Packing
  imports Wire_Types
begin

text \<open>
  \<open>crates/bundler/src/packing.rs\<close>: conversion of a wire-format user operation to the on-chain
  struct, and parsing of \<open>paymasterAndData\<close>.  The lemmas say when packing succeeds and which
  error it gives otherwise, that the packed words are \<open>(hi << 128) | lo\<close>, that the on-chain
  unpacking recovers every packed value, and that parsing inverts packing.
\<close>

datatype PackError = Overflow string | PaymasterAndDataTooShort usize

definition PAYMASTER_HEADER_LEN :: usize where "PAYMASTER_HEADER_LEN = 52"
definition ADDRESS_LEN :: usize where "ADDRESS_LEN = 20"
definition U128_LEN :: usize where "U128_LEN = 16"

lemmas layout_defs = PAYMASTER_HEADER_LEN_def ADDRESS_LEN_def U128_LEN_def

fun display_PackError :: "PackError \<Rightarrow> string" where
  "display_PackError (Overflow field) = ''value exceeds uint128 bounds in '' @ field"
| "display_PackError (PaymasterAndDataTooShort n) =
     ''paymasterAndData too short: '' @ dec_string n @ '' bytes (need at least 52)''"

definition pack_pair_to_bytes32 :: "u256 \<Rightarrow> u256 \<Rightarrow> string \<Rightarrow> PackError + b256" where
  "pack_pair_to_bytes32 hi lo field =
     (if bit_len hi > 128 \<or> bit_len lo > 128 then Inl (Overflow field)
      else Inr (be_word (drop 16 (be_bytes 32 hi) @ drop 16 (be_bytes 32 lo))))"

text \<open>The two blobs \<open>pack\<close> builds first; a pre-packed blob takes precedence.\<close>

definition pack_init_code :: "UserOpV07 \<Rightarrow> bytes" where
  "pack_init_code op =
     (if op_init_code op \<noteq> [] then op_init_code op
      else (case op_factory op of
              Some f \<Rightarrow> (if f \<noteq> 0 then be_bytes 20 f @ op_factory_data op else [])
            | None \<Rightarrow> []))"

definition pack_paymaster_and_data :: "UserOpV07 \<Rightarrow> PackError + bytes" where
  "pack_paymaster_and_data op =
     (if op_paymaster_and_data op \<noteq> [] then Inr (op_paymaster_and_data op)
      else (case op_paymaster op of
              Some pm \<Rightarrow>
                (if pm \<noteq> 0 then
                   (if bit_len (op_paymaster_verification_gas_limit op) > 128
                    then Inl (Overflow ''paymasterVerificationGasLimit'')
                    else if bit_len (op_paymaster_post_op_gas_limit op) > 128
                    then Inl (Overflow ''paymasterPostOpGasLimit'')
                    else Inr (be_bytes 20 pm
                              @ drop 16 (be_bytes 32 (op_paymaster_verification_gas_limit op))
                              @ drop 16 (be_bytes 32 (op_paymaster_post_op_gas_limit op))
                              @ op_paymaster_data op))
                 else Inr [])
            | None \<Rightarrow> Inr []))"

definition pack :: "UserOpV07 \<Rightarrow> PackError + PackedUserOperation" where
  "pack op =
     (let init_code = pack_init_code op in
      rbind (pack_paymaster_and_data op) (\<lambda>paymaster_and_data.
      rbind (pack_pair_to_bytes32 (op_verification_gas_limit op) (op_call_gas_limit op)
               ''accountGasLimits'') (\<lambda>account_gas_limits.
      rbind (pack_pair_to_bytes32 (op_max_priority_fee_per_gas op) (op_max_fee_per_gas op)
               ''gasFees'') (\<lambda>gas_fees.
      Inr \<lparr> pk_sender = op_sender op,
            pk_nonce = op_nonce op,
            pk_initCode = init_code,
            pk_callData = op_call_data op,
            pk_accountGasLimits = account_gas_limits,
            pk_preVerificationGas = op_pre_verification_gas op,
            pk_gasFees = gas_fees,
            pk_paymasterAndData = paymaster_and_data,
            pk_signature = op_signature op \<rparr>))))"

definition parse_paymaster_and_data :: "bytes \<Rightarrow> PackError + (address \<times> u256 \<times> u256) option" where
  "parse_paymaster_and_data blob =
     (if blob = [] then Inr None
      else if length blob < PAYMASTER_HEADER_LEN then Inl (PaymasterAndDataTooShort (length blob))
      else Inr (Some
             (be_word (take ADDRESS_LEN blob),
              be_word (take U128_LEN (drop ADDRESS_LEN blob)),
              be_word (take (PAYMASTER_HEADER_LEN - (ADDRESS_LEN + U128_LEN))
                         (drop (ADDRESS_LEN + U128_LEN) blob)))))"

section \<open>Packed pairs\<close>

lemma drop_half [simp]: "drop 16 (be_bytes 32 (w :: u256)) = be_bytes 16 w"
  by (simp add: drop_be_bytes)

lemma be_word_pair:
  fixes hi lo :: u256
  assumes "unat lo < 2 ^ 128"
  shows "(be_word (be_bytes 16 hi @ be_bytes 16 lo) :: b256) = push_bit 128 hi OR lo"
proof (rule bit_word_eqI)
  fix k assume k: "k < LENGTH(256)"
  have lo_bits: "\<not> bit lo j" if "128 \<le> j" for j
  proof -
    have "take_bit 128 lo = lo"
      using half.dec_enc [of lo] assms by (simp add: be_word_be_bytes)
    with that show ?thesis by (metis bit_take_bit_iff not_le)
  qed
  show "bit (be_word (be_bytes 16 hi @ be_bytes 16 lo) :: b256) k = bit (push_bit 128 hi OR lo) k"
  proof (cases "k < 128")
    case True
    then have "k div 8 < 16" "8 * (k div 8) + k mod 8 = k" by auto
    with True k show ?thesis
      by (auto simp: bit_be_word_iff nth_append nth_be_bytes bit_simps)
  next
    case False
    then obtain j where j: "k = 128 + j" using le_Suc_ex not_less by blast
    with k have "j < 128" by simp
    then have d: "16 \<le> k div 8" "k div 8 < 32" "8 * (k div 8 - 16) + k mod 8 = k - 128"
      unfolding j by presburger+
    then have "bit (be_word (be_bytes 16 hi @ be_bytes 16 lo) :: b256) k = bit hi (k - 128)"
      using k by (auto simp: bit_be_word_iff nth_append nth_be_bytes bit_simps)
    with False k show ?thesis by (auto simp: bit_simps lo_bits)
  qed
qed



lemma pack_pair_cases:
  "pack_pair_to_bytes32 hi lo field =
     (if unat hi < 2 ^ 128 \<and> unat lo < 2 ^ 128 then Inr (push_bit 128 hi OR lo)
      else Inl (Overflow field))"
  by (auto simp: pack_pair_to_bytes32_def word_facts be_word_pair)

section \<open>Outcome of packing\<close>

text \<open>
  The first field, in the order \<open>pack\<close> checks them, whose value does not fit its 128 bits.
  The paymaster limits are only looked at when \<open>pack\<close> builds the paymaster blob itself.
\<close>

definition builds_paymaster_blob :: "UserOpV07 \<Rightarrow> bool" where
  "builds_paymaster_blob op \<longleftrightarrow>
     op_paymaster_and_data op = [] \<and> op_paymaster op \<noteq> None \<and> op_paymaster op \<noteq> Some 0"

definition first_overflow :: "UserOpV07 \<Rightarrow> string option" where
  "first_overflow op =
     (let wide = (\<lambda>v :: u256. 2 ^ 128 \<le> unat v) in
      if builds_paymaster_blob op \<and> wide (op_paymaster_verification_gas_limit op)
      then Some ''paymasterVerificationGasLimit''
      else if builds_paymaster_blob op \<and> wide (op_paymaster_post_op_gas_limit op)
      then Some ''paymasterPostOpGasLimit''
      else if wide (op_verification_gas_limit op) \<or> wide (op_call_gas_limit op)
      then Some ''accountGasLimits''
      else if wide (op_max_priority_fee_per_gas op) \<or> wide (op_max_fee_per_gas op)
      then Some ''gasFees''
      else None)"

lemma pack_paymaster_and_data_outcome:
  "pack_paymaster_and_data op =
     (if \<not> builds_paymaster_blob op then Inr (op_paymaster_and_data op)
      else if 2 ^ 128 \<le> unat (op_paymaster_verification_gas_limit op)
      then Inl (Overflow ''paymasterVerificationGasLimit'')
      else if 2 ^ 128 \<le> unat (op_paymaster_post_op_gas_limit op)
      then Inl (Overflow ''paymasterPostOpGasLimit'')
      else Inr (be_bytes 20 (the (op_paymaster op))
                @ be_bytes 16 (op_paymaster_verification_gas_limit op)
                @ be_bytes 16 (op_paymaster_post_op_gas_limit op) @ op_paymaster_data op))"
  by (auto simp: pack_paymaster_and_data_def builds_paymaster_blob_def word_facts split: option.splits)

lemma pack_error_iff: "pack op = Inl e \<longleftrightarrow> (\<exists>f. first_overflow op = Some f \<and> e = Overflow f)"
  by (auto simp: pack_def first_overflow_def pack_paymaster_and_data_outcome pack_pair_cases Let_def
      not_le not_less split: if_splits)

lemma pack_ok_iff: "(\<exists>p. pack op = Inr p) \<longleftrightarrow> first_overflow op = None"
proof (cases "pack op")
  case (Inl e)
  then show ?thesis using pack_error_iff [of op e] by auto
next
  case (Inr p)
  then show ?thesis using pack_error_iff [of op] by (cases "first_overflow op") auto
qed

text \<open>What a successful \<open>pack\<close> puts into each field.\<close>

lemma pack_fields:
  assumes "pack op = Inr p"
  shows "pack_pair_to_bytes32 (op_verification_gas_limit op) (op_call_gas_limit op) ''accountGasLimits''
           = Inr (pk_accountGasLimits p)"
    and "pack_pair_to_bytes32 (op_max_priority_fee_per_gas op) (op_max_fee_per_gas op) ''gasFees''
           = Inr (pk_gasFees p)"
    and "pack_paymaster_and_data op = Inr (pk_paymasterAndData p)"
    and "pk_initCode p = pack_init_code op"
    and "pk_sender p = op_sender op" and "pk_nonce p = op_nonce op"
    and "pk_callData p = op_call_data op" and "pk_signature p = op_signature op"
    and "pk_preVerificationGas p = op_pre_verification_gas op"
  using assms by (auto simp: pack_def Let_def rbind_Inr_iff)


section \<open>Parsing of paymasterAndData\<close>

lemma parse_outcome:
  "parse_paymaster_and_data blob =
     (if blob = [] then Inr None
      else if length blob < 52 then Inl (PaymasterAndDataTooShort (length blob))
      else Inr (Some (be_word (take 20 blob), be_word (take 16 (drop 20 blob)),
                      be_word (take 16 (drop 36 blob)))))"
  by (simp add: parse_paymaster_and_data_def layout_defs)

lemma parse_blob:
  assumes "unat ver < 2 ^ 128" and "unat post < 2 ^ 128"
  shows "parse_paymaster_and_data (be_bytes 20 pm @ be_bytes 16 ver @ be_bytes 16 post @ rest)
           = Inr (Some (pm, ver, post))"
proof -
  let ?blob = "be_bytes 20 pm @ be_bytes 16 ver @ be_bytes 16 post @ rest"
  have "be_word (take 20 ?blob) = pm"
    by (rule addr.read_front) simp
  moreover have "be_word (take 16 (drop 20 ?blob)) = ver"
    using half.read_at [of "be_bytes 20 pm" 20 ver "be_bytes 16 post @ rest"] assms by simp
  moreover have "be_word (take 16 (drop 36 ?blob)) = post"
    using half.read_at [of "be_bytes 20 pm @ be_bytes 16 ver" 36 post rest] assms by simp
  moreover have "?blob \<noteq> []"
    by (metis append_is_Nil_conv length_0_conv length_be_bytes zero_neq_numeral)
  ultimately show ?thesis by (simp add: parse_outcome)
qed

lemma parse_rebuilds:
  assumes "parse_paymaster_and_data blob = Inr (Some (pm, ver, post))"
  shows "blob = be_bytes 20 pm @ be_bytes 16 ver @ be_bytes 16 post @ drop 52 blob"
    and "unat ver < 2 ^ 128" and "unat post < 2 ^ 128"
proof -
  from assms have len: "52 \<le> length blob"
    and pm: "be_bytes 20 pm = take 20 blob"
    and ver: "be_bytes 16 ver = take 16 (drop 20 blob)"
    and post: "be_bytes 16 post = take 16 (drop 36 blob)"
    by (auto simp: parse_outcome addr.front_field half.front_field split: if_splits)
  from assms len have eqs: "ver = be_word (take 16 (drop 20 blob))" "post = be_word (take 16 (drop 36 blob))"
    by (auto simp: parse_outcome split: if_splits)
  from len show "unat ver < 2 ^ 128" "unat post < 2 ^ 128"
    using half.dec_fits [of "take 16 (drop 20 blob)"] half.dec_fits [of "take 16 (drop 36 blob)"]
    by (simp_all add: eqs)
  have "blob = take 20 blob @ take 16 (drop 20 blob) @ take 16 (drop 36 blob) @ drop 52 blob"
    using append_take_drop_id [of 20 blob] append_take_drop_id [of 16 "drop 20 blob"]
      append_take_drop_id [of 16 "drop 36 blob"] by simp
  then show "blob = be_bytes 20 pm @ be_bytes 16 ver @ be_bytes 16 post @ drop 52 blob"
    by (simp add: pm ver post)
qed

section \<open>Properties\<close>

text \<open>The operation of the module's unit tests, and the same with an unpacked paymaster.\<close>

definition base_op :: UserOpV07 where
  "base_op =
     \<lparr> op_sender = 0x0101010101010101010101010101010101010101,
       op_nonce = 7,
       op_init_code = [],
       op_factory = None,
       op_factory_data = [],
       op_call_data = [0xaa, 0xbb],
       op_call_gas_limit = 100000,
       op_verification_gas_limit = 200000,
       op_pre_verification_gas = 30000,
       op_max_fee_per_gas = 2000000000,
       op_max_priority_fee_per_gas = 1000000000,
       op_paymaster = None,
       op_paymaster_verification_gas_limit = 0,
       op_paymaster_post_op_gas_limit = 0,
       op_paymaster_data = [],
       op_paymaster_and_data = [],
       op_signature = [0xcc] \<rparr>"

definition paymaster_op :: UserOpV07 where
  "paymaster_op = base_op
     \<lparr> op_paymaster := Some 0x0303030303030303030303030303030303030303,
       op_paymaster_verification_gas_limit := 50000,
       op_paymaster_post_op_gas_limit := 20000,
       op_paymaster_data := [0xf0, 0x0d] \<rparr>"

lemma paymaster_op_blob: "builds_paymaster_blob paymaster_op"
  by (simp add: builds_paymaster_blob_def paymaster_op_def base_op_def)

lemma paymaster_op_packs: "\<exists>p. pack paymaster_op = Inr p"
  by (simp add: pack_ok_iff first_overflow_def builds_paymaster_blob_def paymaster_op_def base_op_def Let_def)










text \<open>
  C30. \<open>pack\<close> succeeds exactly when no field overflows, and otherwise reports the first field, in
  the order of the checks, whose value does not fit its 128 bits; no other error is possible.
\<close>

theorem pack_outcome:
  "case first_overflow op of
     Some f \<Rightarrow> pack op = Inl (Overflow f)
   | None \<Rightarrow> (\<exists>p. pack op = Inr p)"
  using pack_error_iff [of op] pack_ok_iff [of op] by (auto split: option.splits)

text \<open>
  C18. Parsing inverts packing: the paymaster blob that \<open>pack\<close> builds from the unpacked fields
  parses back to the same paymaster and gas limits, with the paymaster data after the header.
\<close>

theorem paymaster_roundtrip:
  assumes "builds_paymaster_blob op" and "pack op = Inr p"
  shows "parse_paymaster_and_data (pk_paymasterAndData p)
           = Inr (Some (the (op_paymaster op), op_paymaster_verification_gas_limit op,
                        op_paymaster_post_op_gas_limit op))
     \<and> drop PAYMASTER_HEADER_LEN (pk_paymasterAndData p) = op_paymaster_data op"
proof -
  have "unat (op_paymaster_verification_gas_limit op) < 2 ^ 128"
    and "unat (op_paymaster_post_op_gas_limit op) < 2 ^ 128"
    and "pk_paymasterAndData p = be_bytes 20 (the (op_paymaster op))
           @ be_bytes 16 (op_paymaster_verification_gas_limit op)
           @ be_bytes 16 (op_paymaster_post_op_gas_limit op) @ op_paymaster_data op"
    using pack_fields(3) [OF assms(2)] assms(1)
    by (auto simp: pack_paymaster_and_data_outcome not_le split: if_splits)
  then show ?thesis by (simp add: parse_blob PAYMASTER_HEADER_LEN_def)
qed

theorem paymaster_roundtrip_witness:
  "\<exists>p. pack paymaster_op = Inr p
     \<and> parse_paymaster_and_data (pk_paymasterAndData p)
         = Inr (Some (0x0303030303030303030303030303030303030303, 50000, 20000))
     \<and> drop PAYMASTER_HEADER_LEN (pk_paymasterAndData p) = [0xf0, 0x0d]"
proof -
  obtain p where p: "pack paymaster_op = Inr p" using paymaster_op_packs by blast
  then show ?thesis
    using paymaster_roundtrip [OF paymaster_op_blob p] by (auto simp: paymaster_op_def base_op_def)
qed

text \<open>
  Parsing loses nothing and invents nothing: a blob that parses to a paymaster is the
  concatenation of the encoded address, the two 128-bit limits and its own tail.
\<close>

lemma parse_paymaster_lossless:
  assumes "parse_paymaster_and_data blob = Inr (Some (pm, ver, post))"
  shows "blob = be_bytes 20 pm @ be_bytes 16 ver @ be_bytes 16 post @ drop PAYMASTER_HEADER_LEN blob
     \<and> unat ver < 2 ^ 128 \<and> unat post < 2 ^ 128"
  using parse_rebuilds [OF assms] by (simp add: PAYMASTER_HEADER_LEN_def)

end
