(* ===== verification/Provider.thy ===== *)
theory Provider
  imports Wire_Types
begin

text \<open>
  The interface part of \<open>crates/bundler/src/provider.rs\<close>: the error type, the receipt and the
  \<open>EthProvider\<close> trait.  The trait is a record of calls over a world \<open>'w\<close> (the execution layer
  and everything else that changes while a request runs); a call that never completes is \<open>None\<close>.
  Durations are natural numbers of nanoseconds.
\<close>

datatype ProviderError = Transport string | EmptyCall | Decode string

fun display_ProviderError :: "ProviderError \<Rightarrow> string" where
  "display_ProviderError (Transport s) = ''rpc transport error: '' @ s"
| "display_ProviderError EmptyCall = ''eth_call returned no data''"
| "display_ProviderError (Decode s) = ''abi decode failed: '' @ s"

record ReceiptInfo =
  rcpt_tx_hash :: b256
  rcpt_block_number :: u64
  rcpt_success :: bool

type_synonym duration = nat

definition from_millis :: "nat \<Rightarrow> duration" where
  "from_millis n = n * 1000000"

definition from_secs :: "nat \<Rightarrow> duration" where
  "from_secs n = n * 1000000000"

type_synonym ('w, 'a) rpc = "'w \<Rightarrow> ((ProviderError + 'a) \<times> 'w) option"

record 'w EthProvider =
  pv_chain_id :: "('w, u64) rpc"
  pv_base_fee :: "('w, u256) rpc"
  pv_max_priority_fee :: "('w, u256) rpc"
  pv_pending_nonce :: "address \<Rightarrow> ('w, u64) rpc"
  pv_balance :: "address \<Rightarrow> ('w, u256) rpc"
  pv_get_code :: "address \<Rightarrow> ('w, bytes) rpc"
  pv_balance_of :: "address \<Rightarrow> address \<Rightarrow> ('w, u256) rpc"
  pv_user_op_hash :: "address \<Rightarrow> PackedUserOperation \<Rightarrow> ('w, b256) rpc"
  pv_estimate_handle_ops_gas :: "address \<Rightarrow> address \<Rightarrow> bytes \<Rightarrow> ('w, u64) rpc"
  pv_send_raw_transaction :: "bytes \<Rightarrow> ('w, b256) rpc"
  pv_wait_for_receipt :: "b256 \<Rightarrow> duration \<Rightarrow> ('w, ReceiptInfo option) rpc"
  pv_try_call_for_revert :: "address \<Rightarrow> address \<Rightarrow> bytes \<Rightarrow> ('w, bytes option) rpc"
  pv_simulate_validation :: "address \<Rightarrow> bytes \<Rightarrow> PackedUserOperation \<Rightarrow> ('w, ValidationResult) rpc"

end
