(* ===== verification/Validator.thy ===== *)
theory Validator
  imports Provider
begin

text \<open>
  \<open>crates/bundler/src/validator.rs\<close>: the parsed validation windows, their predicates, the
  parser of the packed validation data and \<open>simulate\<close>.  The lemmas relate the parser to the
  bit layout \<open>aggregator | validUntil << 160 | validAfter << 208\<close> and say on which replies
  \<open>simulate\<close> accepts and which error it gives on the others.
\<close>

definition SIG_VALIDATION_FAILED :: address where
  "SIG_VALIDATION_FAILED = 1"

definition UINT48_MAX :: u64 where
  "UINT48_MAX = push_bit 48 1 - 1"

record ValidationWindow =
  vw_aggregator :: address
  vw_valid_after :: u64
  vw_valid_until :: u64

record ValidationReport =
  rep_pre_op_gas :: u256
  rep_prefund :: u256
  rep_account :: ValidationWindow
  rep_paymaster :: ValidationWindow

definition signature_failed :: "ValidationWindow \<Rightarrow> bool" where
  "signature_failed vw \<longleftrightarrow> vw_aggregator vw = SIG_VALIDATION_FAILED"

definition requires_aggregator :: "ValidationWindow \<Rightarrow> bool" where
  "requires_aggregator vw \<longleftrightarrow> vw_aggregator vw \<noteq> 0 \<and> \<not> signature_failed vw"

definition is_out_of_time_range :: "ValidationWindow \<Rightarrow> u64 \<Rightarrow> bool" where
  "is_out_of_time_range vw now \<longleftrightarrow> now > vw_valid_until vw \<or> now < vw_valid_after vw"

datatype ValidationError =
    ValidationProvider ProviderError
  | AccountSignatureFailed
  | PaymasterSignatureFailed
  | OutOfTimeRange u64 u64 u64 u64 u64
  | UnsupportedAggregator

fun display_ValidationError :: "ValidationError \<Rightarrow> string" where
  "display_ValidationError (ValidationProvider e) = ''provider error: '' @ display_ProviderError e"
| "display_ValidationError AccountSignatureFailed = ''account signature validation failed''"
| "display_ValidationError PaymasterSignatureFailed = ''paymaster signature validation failed''"
| "display_ValidationError (OutOfTimeRange now a_after a_until p_after p_until) =
     ''userop out of time range (now='' @ dec_string (unat now)
     @ '', account=['' @ dec_string (unat a_after) @ ''..'' @ dec_string (unat a_until)
     @ ''], paymaster=['' @ dec_string (unat p_after) @ ''..'' @ dec_string (unat p_until) @ ''])''"
| "display_ValidationError UnsupportedAggregator = ''aggregator-signed userops are not supported''"

definition parse_window :: "u256 \<Rightarrow> ValidationWindow" where
  "parse_window data =
     (let mask_160 = push_bit 160 1 - 1;
          mask_48 = ucast UINT48_MAX;
          aggregator_bits = data AND mask_160;
          aggregator = be_word (drop 12 (be_bytes 32 aggregator_bits));
          valid_until_raw = (case try_narrow (drop_bit 160 data AND mask_48) of
                               Some v \<Rightarrow> v | None \<Rightarrow> UINT48_MAX);
          valid_until = (if valid_until_raw = 0 then UINT48_MAX else valid_until_raw);
          valid_after = (case try_narrow (drop_bit (160 + 48) data AND mask_48) of
                           Some v \<Rightarrow> v | None \<Rightarrow> 0)
      in \<lparr> vw_aggregator = aggregator, vw_valid_after = valid_after, vw_valid_until = valid_until \<rparr>)"

text \<open>The verdict of \<open>simulate\<close> on the raw validation result, in the order of its checks.\<close>

definition judge :: "u64 \<Rightarrow> ValidationResult \<Rightarrow> ValidationError + ValidationReport" where
  "judge now_unix raw =
     (let account = parse_window (ri_accountValidationData (vr_returnInfo raw));
          paymaster = parse_window (ri_paymasterValidationData (vr_returnInfo raw))
      in
      if signature_failed account then Inl AccountSignatureFailed
      else if signature_failed paymaster then Inl PaymasterSignatureFailed
      else if requires_aggregator account \<or> requires_aggregator paymaster then Inl UnsupportedAggregator
      else if is_out_of_time_range account now_unix \<or> is_out_of_time_range paymaster now_unix
      then Inl (OutOfTimeRange now_unix (vw_valid_after account) (vw_valid_until account)
                  (vw_valid_after paymaster) (vw_valid_until paymaster))
      else Inr \<lparr> rep_pre_op_gas = ri_preOpGas (vr_returnInfo raw),
                 rep_prefund = ri_prefund (vr_returnInfo raw),
                 rep_account = account,
                 rep_paymaster = paymaster \<rparr>)"

definition simulate ::
  "'w EthProvider \<Rightarrow> address \<Rightarrow> bytes \<Rightarrow> PackedUserOperation \<Rightarrow> u64
     \<Rightarrow> ('w, ValidationError, ValidationReport) prog" where
  "simulate provider entrypoint simulations_code op now_unix =
     pbind (pcall ValidationProvider (pv_simulate_validation provider entrypoint simulations_code op)) (\<lambda>raw.
     plift (judge now_unix raw))"

section \<open>The bit layout of validation data\<close>

text \<open>The layout named in the source, with fields of exactly the widths it gives them.\<close>

definition validation_data :: "address \<Rightarrow> 48 word \<Rightarrow> 48 word \<Rightarrow> u256" where
  "validation_data agg until after = ucast agg OR push_bit 160 (ucast until) OR push_bit 208 (ucast after)"

lemma UINT48_MAX_mask: "UINT48_MAX = mask 48"
  by (simp add: UINT48_MAX_def mask_eq_exp_minus_1 push_bit_eq_mult)

lemma ucast_mask_48: "(ucast (mask 48 :: u64) :: u256) = mask 48"
  by (rule bit_word_eqI) (auto simp: bit_simps)

lemma narrow_48: "try_narrow (x AND mask 48 :: u256) = Some (ucast x AND mask 48 :: u64)"
proof -
  have "(ucast (x AND mask 48) :: u64) = ucast x AND mask 48"
    by (rule bit_word_eqI) (auto simp: bit_simps)
  moreover have "unat (x AND mask 48 :: u256) < 2 ^ 64"
  proof -
    have "x AND mask 48 \<le> mask 48" by (rule word_and_le1)
    then have "unat (x AND mask 48) \<le> unat (mask 48 :: u256)" by (simp add: word_le_nat_alt)
    then show ?thesis by (simp add: mask_eq_exp_minus_1)
  qed
  ultimately show ?thesis by (simp add: try_narrow_def)
qed

lemma parse_window_fields:
  "vw_aggregator (parse_window data) = ucast data"
  "vw_valid_after (parse_window data) = ucast (drop_bit 208 data) AND mask 48"
  "vw_valid_until (parse_window data) =
     (let u = ucast (drop_bit 160 data) AND mask 48 in if u = 0 then mask 48 else u)"
proof -
  have m: "(push_bit 160 1 - 1 :: u256) = mask 160"
    by (simp add: mask_eq_exp_minus_1 push_bit_eq_mult)
  have "(take_bit 160 (ucast (data AND mask 160 :: u256)) :: address) = ucast data"
    by (rule bit_word_eqI) (auto simp: bit_simps)
  then show "vw_aggregator (parse_window data) = ucast data"
    by (simp add: parse_window_def Let_def m drop_be_bytes be_word_be_bytes del: push_bit_of_1)
qed (simp_all add: parse_window_def Let_def ucast_mask_48 narrow_48 UINT48_MAX_mask)

lemma validation_data_surj:
  "validation_data (ucast data) (ucast (drop_bit 160 data)) (ucast (drop_bit 208 data)) = data"
proof (rule bit_word_eqI)
  fix n assume n: "n < LENGTH(256)"
  consider "n < 160" | "160 \<le> n" "n < 208" | "208 \<le> n" by linarith
  then show "bit (validation_data (ucast data) (ucast (drop_bit 160 data)) (ucast (drop_bit 208 data))) n
             = bit data n"
    using n by cases (auto simp: validation_data_def bit_simps)
qed

lemma parse_validation_data:
  "parse_window (validation_data agg until after) =
     \<lparr> vw_aggregator = agg, vw_valid_after = ucast after,
       vw_valid_until = (if until = 0 then UINT48_MAX else ucast until) \<rparr>"
proof -
  have a: "(ucast (validation_data agg until after) :: address) = agg"
    by (rule bit_word_eqI) (auto simp: validation_data_def bit_simps)
  have b: "(ucast (drop_bit 208 (validation_data agg until after)) AND mask 48 :: u64) = ucast after"
    by (rule bit_word_eqI)
       (auto simp: validation_data_def bit_simps dest: bit_imp_le_length)
  have c: "(ucast (drop_bit 160 (validation_data agg until after)) AND mask 48 :: u64) = ucast until"
    by (rule bit_word_eqI)
       (auto simp: validation_data_def bit_simps dest: bit_imp_le_length)
  have "unat until < 2 ^ 64"
    using unsigned_less [of until] by (rule less_trans) simp
  then have "unat (ucast until :: u64) = unat until"
    by (simp add: unat_ucast_small)
  then have z: "(ucast until :: u64) = 0 \<longleftrightarrow> until = 0"
    by (simp flip: unat_0_iff)
  show ?thesis
    by (rule ValidationWindow.equality)
       (simp_all add: parse_window_fields a b c z UINT48_MAX_mask Let_def)
qed

section \<open>Verdict of a simulation\<close>

text \<open>
  The window of a validation data word as numbers, read off the word directly: the bounds the
  account or the paymaster set, with an absent upper bound read as the largest 48-bit value.
\<close>

definition valid_from :: "u256 \<Rightarrow> nat" where
  "valid_from d = unat (take_bit 48 (drop_bit 208 d))"

definition valid_to :: "u256 \<Rightarrow> nat" where
  "valid_to d = (let u = unat (take_bit 48 (drop_bit 160 d)) in if u = 0 then 2 ^ 48 - 1 else u)"

definition admits :: "u256 \<Rightarrow> u64 \<Rightarrow> bool" where
  "admits d now \<longleftrightarrow> (ucast d :: address) = 0 \<and> valid_from d \<le> unat now \<and> unat now \<le> valid_to d"

lemma unat_window: "unat (ucast (x :: u256) AND mask 48 :: u64) = unat (take_bit 48 x)"
proof -
  have "(ucast x AND mask 48 :: u64) = ucast (take_bit 48 x)"
    by (rule bit_word_eqI) (auto simp: bit_simps)
  moreover have "unat (take_bit 48 x) < 2 ^ 64"
    by (simp add: unsigned_take_bit_eq) (rule less_trans, rule take_bit_nat_less_exp, simp)
  ultimately show ?thesis by (simp add: unat_ucast_small)
qed

lemma unat_mask_48: "unat (mask 48 :: u64) = 2 ^ 48 - 1"
  by (simp add: mask_eq_exp_minus_1)

lemma window_bounds:
  "unat (vw_valid_after (parse_window d)) = valid_from d"
  "unat (vw_valid_until (parse_window d)) = valid_to d"
  by (auto simp: parse_window_fields valid_from_def valid_to_def Let_def unat_window
      unat_mask_48 simp flip: unat_0_iff)

lemma window_fields_of_nat:
  "vw_valid_after (parse_window d) = of_nat (valid_from d)"
  "vw_valid_until (parse_window d) = of_nat (valid_to d)"
  by (simp_all flip: window_bounds)

lemma window_predicates:
  "signature_failed (parse_window d) \<longleftrightarrow> (ucast d :: address) = 1"
  "requires_aggregator (parse_window d) \<longleftrightarrow> (ucast d :: address) \<noteq> 0 \<and> (ucast d :: address) \<noteq> 1"
  "is_out_of_time_range (parse_window d) now \<longleftrightarrow> \<not> (valid_from d \<le> unat now \<and> unat now \<le> valid_to d)"
  by (auto simp: signature_failed_def requires_aggregator_def is_out_of_time_range_def
      SIG_VALIDATION_FAILED_def parse_window_fields(1) word_less_nat_alt window_bounds)

lemma admits_iff:
  "admits d now \<longleftrightarrow> \<not> signature_failed (parse_window d) \<and> \<not> requires_aggregator (parse_window d)
     \<and> \<not> is_out_of_time_range (parse_window d) now"
  by (auto simp: admits_def window_predicates)

lemma simulate_no_panic: "simulate pv ep code op now w \<noteq> Some (Panic s, w')"
  by (auto simp: simulate_def prog_simps Let_def)

lemma simulate_Done_iff:
  "simulate pv ep code op now w = Some (Done rep, w') \<longleftrightarrow>
     (\<exists>raw. pv_simulate_validation pv ep code op w = Some (Inr raw, w')
        \<and> admits (ri_accountValidationData (vr_returnInfo raw)) now
        \<and> admits (ri_paymasterValidationData (vr_returnInfo raw)) now
        \<and> rep = \<lparr> rep_pre_op_gas = ri_preOpGas (vr_returnInfo raw),
                  rep_prefund = ri_prefund (vr_returnInfo raw),
                  rep_account = parse_window (ri_accountValidationData (vr_returnInfo raw)),
                  rep_paymaster = parse_window (ri_paymasterValidationData (vr_returnInfo raw)) \<rparr>)"
  by (auto simp: simulate_def judge_def prog_simps Let_def admits_iff)

section \<open>Properties\<close>

text \<open>
  C28. \<open>parse_window\<close> inverts the layout \<open>aggregator | validUntil << 160 | validAfter << 208\<close> on
  every 256-bit word: each word is the layout of exactly the fields that are parsed from it,
  except that an upper bound of zero is read as the largest 48-bit value.
\<close>

theorem parse_window_layout:
  "\<exists>agg until after. data = validation_data agg until after
     \<and> parse_window data = \<lparr> vw_aggregator = agg, vw_valid_after = ucast after,
                             vw_valid_until = (if until = 0 then UINT48_MAX else ucast until) \<rparr>"
proof (intro exI conjI)
  let ?agg = "ucast data" and ?until = "ucast (drop_bit 160 data)" and ?after = "ucast (drop_bit 208 data)"
  show "data = validation_data ?agg ?until ?after" by (rule validation_data_surj [symmetric])
  show "parse_window data = \<lparr> vw_aggregator = ?agg, vw_valid_after = ucast (?after :: 48 word),
          vw_valid_until = (if (?until :: 48 word) = 0 then UINT48_MAX else ucast (?until :: 48 word)) \<rparr>"
    using parse_validation_data [of ?agg ?until ?after] by (simp add: validation_data_surj)
qed

text \<open>
  C8. \<open>simulate\<close> accepts exactly the replies in which neither the account nor the paymaster names
  an aggregator or a signature failure and the current time lies within both windows; the report
  carries the reply's numbers and the parsed windows.
\<close>

theorem simulate_accepts_iff:
  "simulate pv ep code op now w = Some (Done rep, w') \<longleftrightarrow>
     (\<exists>raw. pv_simulate_validation pv ep code op w = Some (Inr raw, w')
        \<and> admits (ri_accountValidationData (vr_returnInfo raw)) now
        \<and> admits (ri_paymasterValidationData (vr_returnInfo raw)) now
        \<and> rep = \<lparr> rep_pre_op_gas = ri_preOpGas (vr_returnInfo raw),
                  rep_prefund = ri_prefund (vr_returnInfo raw),
                  rep_account = parse_window (ri_accountValidationData (vr_returnInfo raw)),
                  rep_paymaster = parse_window (ri_paymasterValidationData (vr_returnInfo raw)) \<rparr>)"
  by (rule simulate_Done_iff)

text \<open>
  C29. Which error a rejected reply gives, in the order of the code: a failed account signature, a
  failed paymaster signature, an aggregator, the time range; an operation that has an aggregator and is out
  of its time range is refused for the aggregator, although the README and the comment on
  \<open>simulate\<close> name the time range first.  The fields are read off the raw validation data words.
\<close>

theorem simulate_rejects:
  assumes "pv_simulate_validation pv ep code op w = Some (Inr raw, w')"
    and "a = ri_accountValidationData (vr_returnInfo raw)"
    and "p = ri_paymasterValidationData (vr_returnInfo raw)"
  shows "simulate pv ep code op now w = Some (Fail e, w') \<longleftrightarrow>
     (if (ucast a :: address) = 1 then e = AccountSignatureFailed
      else if (ucast p :: address) = 1 then e = PaymasterSignatureFailed
      else if (ucast a :: address) \<noteq> 0 \<or> (ucast p :: address) \<noteq> 0 then e = UnsupportedAggregator
      else \<not> (admits a now \<and> admits p now)
        \<and> e = OutOfTimeRange now (of_nat (valid_from a)) (of_nat (valid_to a))
                 (of_nat (valid_from p)) (of_nat (valid_to p)))"
  using assms
  by (auto simp: simulate_def judge_def prog_simps Let_def window_predicates admits_def window_fields_of_nat)

definition expired_reply :: ValidationResult where
  "expired_reply =
     (let none = \<lparr> si_stake = 0, si_unstakeDelay = 0 \<rparr> in
      \<lparr> vr_returnInfo = \<lparr> ri_preOpGas = 1, ri_prefund = 1,
           ri_accountValidationData = validation_data 0 1000 100, ri_paymasterValidationData = 0,
           ri_paymasterContext = [] \<rparr>,
        vr_senderInfo = none, vr_factoryInfo = none, vr_paymasterInfo = none,
        vr_aggregatorInfo = \<lparr> asi_aggregator = 0, asi_stakeInfo = none \<rparr> \<rparr>)"

definition replying :: "ValidationResult \<Rightarrow> unit EthProvider" where
  "replying raw =
     \<lparr> pv_chain_id = (\<lambda>w. None), pv_base_fee = (\<lambda>w. None), pv_max_priority_fee = (\<lambda>w. None),
       pv_pending_nonce = (\<lambda>_ w. None), pv_balance = (\<lambda>_ w. None), pv_get_code = (\<lambda>_ w. None),
       pv_balance_of = (\<lambda>_ _ w. None), pv_user_op_hash = (\<lambda>_ _ w. None),
       pv_estimate_handle_ops_gas = (\<lambda>_ _ _ w. None), pv_send_raw_transaction = (\<lambda>_ w. None),
       pv_wait_for_receipt = (\<lambda>_ _ w. None), pv_try_call_for_revert = (\<lambda>_ _ _ w. None),
       pv_simulate_validation = (\<lambda>_ _ _ w. Some (Inr raw, w)) \<rparr>"

definition sample_packed :: PackedUserOperation where
  "sample_packed =
     \<lparr> pk_sender = 1, pk_nonce = 0, pk_initCode = [], pk_callData = [], pk_accountGasLimits = 0,
       pk_preVerificationGas = 0, pk_gasFees = 0, pk_paymasterAndData = [], pk_signature = [] \<rparr>"

theorem simulate_rejects_witness:
  "simulate (replying expired_reply) 0 [] sample_packed 2000 () =
     Some (Fail (OutOfTimeRange 2000 100 1000 0 UINT48_MAX), ())"
proof -
  have fields: "ri_accountValidationData (vr_returnInfo expired_reply) = validation_data 0 1000 100"
      "ri_paymasterValidationData (vr_returnInfo expired_reply) = 0"
    by (simp_all add: expired_reply_def Let_def)
  show ?thesis
    using simulate_rejects [of "replying expired_reply" 0 "[]" sample_packed "()" expired_reply "()"
        "validation_data 0 1000 100" 0 2000 "OutOfTimeRange 2000 100 1000 0 UINT48_MAX"]
    by (simp add: replying_def fields admits_def valid_from_def valid_to_def validation_data_def
        UINT48_MAX_def)
qed

end
