(* ===== verification/Signer.thy ===== *)
theory Signer
  imports Wire_Types
begin

text \<open>
  \<open>crates/bundler/src/signer.rs\<close>: the EIP-1559 transaction, the \<open>Signer\<close> trait and the
  \<open>LocalSigner\<close> that implements it.  The key type and its operations (alloy's
  \<open>PrivateKeySigner\<close>) and the envelope encoding and hash (alloy's \<open>TxEnvelope\<close>) are parameters.
\<close>

datatype SignerError = InvalidKey string | Signing string

fun display_SignerError :: "SignerError \<Rightarrow> string" where
  "display_SignerError (InvalidKey s) = ''invalid sequencer key: '' @ s"
| "display_SignerError (Signing s) = ''signing failed: '' @ s"

datatype TxKind = Create | Call address

record TxEip1559 =
  tx_chain_id :: u64
  tx_nonce :: u64
  tx_gas_limit :: u64
  tx_max_fee_per_gas :: u128
  tx_max_priority_fee_per_gas :: u128
  tx_to :: TxKind
  tx_value :: u256
  tx_access_list :: "(address \<times> b256 list) list"
  tx_input :: bytes

text \<open>A signature: \<open>r\<close>, \<open>s\<close> and the parity bit.  The envelope is the transaction with it.\<close>

type_synonym signature = "u256 \<times> u256 \<times> bool"

datatype TxEnvelope = Eip1559 (env_tx: TxEip1559) (env_signature: signature)

record consensus =
  encoded_2718 :: "TxEnvelope \<Rightarrow> bytes"
  envelope_tx_hash :: "TxEnvelope \<Rightarrow> b256"

record 'w Signer =
  sg_address :: address
  sg_sign_eip1559 :: "TxEip1559 \<Rightarrow> 'w \<Rightarrow> ((SignerError + TxEnvelope) \<times> 'w) option"

text \<open>
  The operations of the key type.  \<open>pks_sign_transaction_sync\<close> takes the transaction by mutable
  reference: it returns the transaction as it leaves it.
\<close>

record 'k PrivateKeySigner =
  pks_from_bytes :: "b256 \<Rightarrow> string + 'k"
  pks_address :: "'k \<Rightarrow> address"
  pks_sign_transaction_sync :: "'k \<Rightarrow> TxEip1559 \<Rightarrow> (string + signature) \<times> TxEip1559"

record 'k LocalSigner =
  ls_inner :: 'k

definition local_signer_from_key :: "'k PrivateKeySigner \<Rightarrow> b256 \<Rightarrow> SignerError + 'k LocalSigner" where
  "local_signer_from_key pks key =
     (case pks_from_bytes pks key of
        Inl e \<Rightarrow> Inl (InvalidKey e)
      | Inr inner \<Rightarrow> Inr \<lparr> ls_inner = inner \<rparr>)"

definition local_signer :: "'k PrivateKeySigner \<Rightarrow> 'k LocalSigner \<Rightarrow> 'w Signer" where
  "local_signer pks self =
     \<lparr> sg_address = pks_address pks (ls_inner self),
       sg_sign_eip1559 = (\<lambda>tx w.
         (case pks_sign_transaction_sync pks (ls_inner self) tx of
            (Inl e, _) \<Rightarrow> Some (Inl (Signing e), w)
          | (Inr signature, tx') \<Rightarrow> Some (Inr (Eip1559 tx' signature), w))) \<rparr>"

text \<open>
  What a caller of the trait relies on: the signed transaction is the one handed in.  It holds
  of the local signer for every key type that does not rewrite the transaction it signs.
\<close>

definition signs_as_given :: "'w Signer \<Rightarrow> bool" where
  "signs_as_given sg \<longleftrightarrow>
     (\<forall>tx w env w'. sg_sign_eip1559 sg tx w = Some (Inr env, w') \<longrightarrow> env_tx env = tx)"

definition keeps_tx :: "'k PrivateKeySigner \<Rightarrow> bool" where
  "keeps_tx pks \<longleftrightarrow> (\<forall>k tx s tx'. pks_sign_transaction_sync pks k tx = (Inr s, tx') \<longrightarrow> tx' = tx)"

lemma local_signer_signs_as_given: "keeps_tx pks \<Longrightarrow> signs_as_given (local_signer pks self)"
  by (auto simp: signs_as_given_def keeps_tx_def local_signer_def split: prod.splits sum.splits)

lemma local_signer_completes: "\<exists>r. sg_sign_eip1559 (local_signer pks self) tx w = Some (r, w)"
  by (auto simp: local_signer_def split: prod.splits sum.splits)

end
