(* ===== verification/Json_Values.thy ===== *)
theory Json_Values
  imports Main "HOL-Library.AList"
begin

text \<open>
  The part of \<open>serde_json::Value\<close> the program builds: objects with string keys, looked up and
  extended by key.  An object is an association list; the order of its entries is not observed
  by any operation here.
\<close>

datatype json =
    JNull
  | JBool bool
  | JNum int
  | JStr string
  | JArr "json list"
  | JObj "(string \<times> json) list"

fun json_get :: "json \<Rightarrow> string \<Rightarrow> json option" where
  "json_get (JObj kvs) k = map_of kvs k"
| "json_get _ k = None"

text \<open>
  \<open>payload[k] = v\<close>: on an object the entry is replaced or added, \<open>null\<close> becomes an object, and
  on any other value indexing panics (\<open>None\<close>).
\<close>

fun json_index_set :: "string \<Rightarrow> json \<Rightarrow> json \<Rightarrow> json option" where
  "json_index_set k v (JObj kvs) = Some (JObj (AList.update k v kvs))"
| "json_index_set k v JNull = Some (JObj [(k, v)])"
| "json_index_set k v _ = None"

lemma json_get_index_set:
  "json_index_set k v j = Some j' \<Longrightarrow>
     json_get j' k' = (if k' = k then Some v else json_get j k')"
  by (induction k v j rule: json_index_set.induct) (auto simp: update_conv)

end
