(* ===== verification/Errors.thy ===== *)
theory Errors
  imports Packing Validator Signer Json_Values
begin

text \<open>
  \<open>crates/bundler/src/errors.rs\<close>: the error type of the bundler, its mapping to JSON-RPC codes
  and payloads, and the decoder of \<open>handleOps\<close> reverts.  The selectors and decoders that alloy
  derives from the Solidity error declarations are the parameter \<open>abi_errors\<close>; the \<open>Debug\<close>
  formats of addresses and hashes and \<open>hex::encode\<close> are the parameter \<open>formats\<close>.

  Indexing assignment on a JSON value can panic, so the classifiers return an option; the
  interpretations of the locale \<open>error_classifier\<close> show that they never do, that every code is
  one the module declares and that every payload carries a reason.
\<close>

section \<open>Error codes\<close>

definition INVALID_PARAMS :: int where "INVALID_PARAMS = -32602"
definition INTERNAL_ERROR :: int where "INTERNAL_ERROR = -32603"
definition SIMULATE_VALIDATION_REJECTED :: int where "SIMULATE_VALIDATION_REJECTED = -32500"
definition PAYMASTER_REJECTED :: int where "PAYMASTER_REJECTED = -32501"
definition OUT_OF_TIME_RANGE :: int where "OUT_OF_TIME_RANGE = -32503"
definition ACCOUNT_VALIDATION_REVERTED :: int where "ACCOUNT_VALIDATION_REVERTED = -32521"

lemmas code_defs = INVALID_PARAMS_def INTERNAL_ERROR_def SIMULATE_VALIDATION_REJECTED_def
  PAYMASTER_REJECTED_def OUT_OF_TIME_RANGE_def ACCOUNT_VALIDATION_REVERTED_def

section \<open>The error types\<close>

record formats =
  debug_address :: "address \<Rightarrow> string"
  debug_b256 :: "b256 \<Rightarrow> string"
  hex_encode :: "bytes \<Rightarrow> string"

datatype HandleOpsRevertReason =
    FailedOp u64 string
  | FailedOpWithRevert u64 string bytes
  | SignatureValidationFailed address
  | PostOpReverted bytes
  | StandardError string
  | PanicCode u64
  | Unknown bytes

datatype BundlerError =
    WrongChainId u64 u64
  | InvalidBatch string
  | BatchTooLarge usize usize
  | InvalidUserOp usize string
  | PriorityFeeTooLow usize string string
  | FeeCapTooLow usize string string
  | InsufficientDeposit usize string string string
  | Cancelled
  | ReceiptTimeout b256
  | HandleOpsReverted b256 u64 HandleOpsRevertReason
  | Pack PackError
  | Validation ValidationError
  | ProviderFailed ProviderError
  | SignerFailed SignerError

fun display_HandleOpsRevertReason :: "formats \<Rightarrow> HandleOpsRevertReason \<Rightarrow> string" where
  "display_HandleOpsRevertReason fm (FailedOp op_index reason) =
     ''FailedOp['' @ dec_string (unat op_index) @ '']: '' @ reason"
| "display_HandleOpsRevertReason fm (FailedOpWithRevert op_index reason inner) =
     ''FailedOpWithRevert['' @ dec_string (unat op_index) @ '']: '' @ reason"
| "display_HandleOpsRevertReason fm (SignatureValidationFailed aggregator) =
     ''SignatureValidationFailed: aggregator='' @ debug_address fm aggregator"
| "display_HandleOpsRevertReason fm (PostOpReverted return_data) = ''PostOpReverted''"
| "display_HandleOpsRevertReason fm (StandardError m) = ''Error('' @ m @ '')''"
| "display_HandleOpsRevertReason fm (PanicCode c) = ''Panic(0x'' @ hex_string (unat c) @ '')''"
| "display_HandleOpsRevertReason fm (Unknown b) = ''unknown revert: 0x'' @ hex_encode fm b"

fun display_BundlerError :: "formats \<Rightarrow> BundlerError \<Rightarrow> string" where
  "display_BundlerError fm (WrongChainId expected got) =
     ''wrong chainId: expected '' @ dec_string (unat expected) @ '', got '' @ dec_string (unat got)"
| "display_BundlerError fm (InvalidBatch s) = ''invalid userOps batch: '' @ s"
| "display_BundlerError fm (BatchTooLarge got maximum) =
     ''batch too large: '' @ dec_string got @ '' > '' @ dec_string maximum"
| "display_BundlerError fm (InvalidUserOp op_index reason) =
     ''op '' @ dec_string op_index @ '': '' @ reason"
| "display_BundlerError fm (PriorityFeeTooLow op_index got minimum) =
     ''op '' @ dec_string op_index @ '': priority fee '' @ got @ '' below bundler minimum '' @ minimum"
| "display_BundlerError fm (FeeCapTooLow op_index fee_cap required) =
     ''op '' @ dec_string op_index @ '': maxFeePerGas '' @ fee_cap @ '' below baseFee+tip '' @ required"
| "display_BundlerError fm (InsufficientDeposit op_index sponsor required deposit) =
     ''op '' @ dec_string op_index @ '': insufficient deposit on '' @ sponsor
     @ '': required '' @ required @ '', deposit '' @ deposit"
| "display_BundlerError fm Cancelled = ''bundler is shutting down''"
| "display_BundlerError fm (ReceiptTimeout tx_hash) =
     ''receipt for '' @ debug_b256 fm tx_hash @ '' not found within timeout''"
| "display_BundlerError fm (HandleOpsReverted tx_hash block_number reason) =
     ''handleOps reverted on-chain: '' @ display_HandleOpsRevertReason fm reason"
| "display_BundlerError fm (Pack e) = display_PackError e"
| "display_BundlerError fm (Validation e) = display_ValidationError e"
| "display_BundlerError fm (ProviderFailed e) = display_ProviderError e"
| "display_BundlerError fm (SignerFailed e) = display_SignerError e"

section \<open>Classification\<close>

fun classify_revert :: "formats \<Rightarrow> HandleOpsRevertReason \<Rightarrow> int \<times> json" where
  "classify_revert fm (FailedOp op_index reason) =
     (if take 3 reason = ''AA3'' then PAYMASTER_REJECTED else SIMULATE_VALIDATION_REJECTED,
      JObj [(''reason'', JStr reason), (''opIndex'', JNum (uint op_index))])"
| "classify_revert fm (FailedOpWithRevert op_index reason inner) =
     (if take 3 reason = ''AA3'' then PAYMASTER_REJECTED else SIMULATE_VALIDATION_REJECTED,
      JObj [(''reason'', JStr reason), (''opIndex'', JNum (uint op_index))])"
| "classify_revert fm (SignatureValidationFailed aggregator) =
     (SIMULATE_VALIDATION_REJECTED,
      JObj [(''reason'', JStr ''SignatureValidationFailed''),
            (''aggregator'', JStr (debug_address fm aggregator))])"
| "classify_revert fm (PostOpReverted return_data) =
     (PAYMASTER_REJECTED,
      JObj [(''reason'', JStr ''PostOpReverted''),
            (''returnData'', JStr (''0x'' @ hex_encode fm return_data))])"
| "classify_revert fm (StandardError message) =
     (SIMULATE_VALIDATION_REJECTED,
      JObj [(''reason'', JStr ''Error(string)''), (''message'', JStr message)])"
| "classify_revert fm (PanicCode code) =
     (SIMULATE_VALIDATION_REJECTED,
      JObj [(''reason'', JStr ''Panic(uint256)''), (''code'', JStr (''0x'' @ hex_string (unat code)))])"
| "classify_revert fm (Unknown raw) =
     (INTERNAL_ERROR,
      JObj [(''reason'', JStr ''undecodedRevert''), (''data'', JStr (''0x'' @ hex_encode fm raw))])"

fun classify_validation :: "ValidationError \<Rightarrow> int \<times> json" where
  "classify_validation AccountSignatureFailed =
     (SIMULATE_VALIDATION_REJECTED, JObj [(''reason'', JStr ''AA24 signature error'')])"
| "classify_validation PaymasterSignatureFailed =
     (PAYMASTER_REJECTED, JObj [(''reason'', JStr ''AA34 signature error'')])"
| "classify_validation (OutOfTimeRange now a_after a_until p_after p_until) =
     (OUT_OF_TIME_RANGE,
      JObj [(''reason'', JStr ''AA22 expired or not due''),
            (''now'', JNum (uint now)),
            (''accountValidAfter'', JNum (uint a_after)),
            (''accountValidUntil'', JNum (uint a_until)),
            (''paymasterValidAfter'', JNum (uint p_after)),
            (''paymasterValidUntil'', JNum (uint p_until))])"
| "classify_validation UnsupportedAggregator =
     (ACCOUNT_VALIDATION_REVERTED, JObj [(''reason'', JStr ''aggregator not supported'')])"
| "classify_validation (ValidationProvider p) =
     (INTERNAL_ERROR, JObj [(''reason'', JStr (display_ProviderError p))])"

fun classify :: "formats \<Rightarrow> BundlerError \<Rightarrow> (int \<times> json) option" where
  "classify fm (WrongChainId expected got) =
     Some (INVALID_PARAMS,
           JObj [(''reason'', JStr ''wrongChainId''), (''expected'', JNum (uint expected)),
                 (''got'', JNum (uint got))])"
| "classify fm (InvalidBatch reason) = Some (INVALID_PARAMS, JObj [(''reason'', JStr reason)])"
| "classify fm (BatchTooLarge got maximum) =
     Some (INVALID_PARAMS,
           JObj [(''reason'', JStr ''batchTooLarge''), (''got'', JNum (int got)), (''max'', JNum (int maximum))])"
| "classify fm (InvalidUserOp op_index reason) =
     Some (INVALID_PARAMS, JObj [(''opIndex'', JNum (int op_index)), (''reason'', JStr reason)])"
| "classify fm (PriorityFeeTooLow op_index got minimum) =
     Some (INVALID_PARAMS,
           JObj [(''opIndex'', JNum (int op_index)), (''reason'', JStr ''priorityFeeTooLow''),
                 (''got'', JStr got), (''min'', JStr minimum)])"
| "classify fm (FeeCapTooLow op_index fee_cap required) =
     Some (INVALID_PARAMS,
           JObj [(''opIndex'', JNum (int op_index)), (''reason'', JStr ''maxFeePerGasBelowBaseFee''),
                 (''maxFeePerGas'', JStr fee_cap), (''required'', JStr required)])"
| "classify fm (InsufficientDeposit op_index sponsor required deposit) =
     Some (SIMULATE_VALIDATION_REJECTED,
           JObj [(''opIndex'', JNum (int op_index)), (''reason'', JStr ''AA21 didn't pay prefund''),
                 (''sponsor'', JStr sponsor), (''required'', JStr required), (''deposit'', JStr deposit)])"
| "classify fm Cancelled =
     Some (INTERNAL_ERROR, JObj [(''reason'', JStr ''shutdown in progress'')])"
| "classify fm (ReceiptTimeout tx_hash) =
     Some (INTERNAL_ERROR,
           JObj [(''reason'', JStr ''receiptTimeout''), (''txHash'', JStr (debug_b256 fm tx_hash))])"
| "classify fm (HandleOpsReverted tx_hash block_number reason) =
     (let (code, payload) = classify_revert fm reason in
      Option.bind (json_index_set ''txHash'' (JStr (debug_b256 fm tx_hash)) payload) (\<lambda>payload.
      Option.bind (json_index_set ''blockNumber'' (JNum (uint block_number)) payload) (\<lambda>payload.
      Some (code, payload))))"
| "classify fm (Pack e) = Some (INVALID_PARAMS, JObj [(''reason'', JStr (display_PackError e))])"
| "classify fm (Validation e) = Some (classify_validation e)"
| "classify fm (ProviderFailed e) =
     Some (INTERNAL_ERROR, JObj [(''reason'', JStr (display_ProviderError e))])"
| "classify fm (SignerFailed e) =
     Some (INTERNAL_ERROR, JObj [(''reason'', JStr (display_SignerError e))])"

section \<open>Decoding of handleOps reverts\<close>

record abi_errors =
  sel_FailedOp :: bytes
  sel_FailedOpWithRevert :: bytes
  sel_SignatureValidationFailed :: bytes
  sel_PostOpReverted :: bytes
  dec_FailedOp :: "bytes \<Rightarrow> (u256 \<times> string) option"
  dec_FailedOpWithRevert :: "bytes \<Rightarrow> (u256 \<times> string \<times> bytes) option"
  dec_SignatureValidationFailed :: "bytes \<Rightarrow> address option"
  dec_PostOpReverted :: "bytes \<Rightarrow> bytes option"
  dec_String :: "bytes \<Rightarrow> string option"
  dec_U256 :: "bytes \<Rightarrow> u256 option"

definition ERROR_STRING_SELECTOR :: bytes where
  "ERROR_STRING_SELECTOR = [0x08, 0xc3, 0x79, 0xa0]"

definition PANIC_UINT_SELECTOR :: bytes where
  "PANIC_UINT_SELECTOR = [0x4e, 0x48, 0x7b, 0x71]"

definition clamp_u64 :: "u256 \<Rightarrow> u64" where
  "clamp_u64 v = (case try_narrow v of Some r \<Rightarrow> r | None \<Rightarrow> - 1)"

definition decode_handle_ops_revert :: "abi_errors \<Rightarrow> bytes \<Rightarrow> HandleOpsRevertReason" where
  "decode_handle_ops_revert abi data =
     (if length data < 4 then Unknown data
      else
        let selector = take 4 data; body = drop 4 data in
        if selector = sel_FailedOp abi then
          (case dec_FailedOp abi body of
             Some (opIndex, reason) \<Rightarrow> FailedOp (clamp_u64 opIndex) reason
           | None \<Rightarrow> Unknown data)
        else if selector = sel_FailedOpWithRevert abi then
          (case dec_FailedOpWithRevert abi body of
             Some (opIndex, reason, inner) \<Rightarrow> FailedOpWithRevert (clamp_u64 opIndex) reason inner
           | None \<Rightarrow> Unknown data)
        else if selector = sel_SignatureValidationFailed abi then
          (case dec_SignatureValidationFailed abi body of
             Some aggregator \<Rightarrow> SignatureValidationFailed aggregator
           | None \<Rightarrow> Unknown data)
        else if selector = sel_PostOpReverted abi then
          (case dec_PostOpReverted abi body of
             Some returnData \<Rightarrow> PostOpReverted returnData
           | None \<Rightarrow> Unknown data)
        else if selector = ERROR_STRING_SELECTOR then
          (case dec_String abi body of Some s \<Rightarrow> StandardError s | None \<Rightarrow> Unknown data)
        else if selector = PANIC_UINT_SELECTOR then
          (case dec_U256 abi body of Some code \<Rightarrow> PanicCode (clamp_u64 code) | None \<Rightarrow> Unknown data)
        else Unknown data)"

section \<open>Contract of a classifier\<close>

text \<open>
  What the JSON-RPC layer relies on: classification never panics, the code is one of a known
  set, and the payload is an object that states a reason.
\<close>

locale error_classifier =
  fixes classifier :: "'e \<Rightarrow> (int \<times> json) option" and known_codes :: "int set"
  assumes classifier_total: "classifier e \<noteq> None"
    and classifier_code: "classifier e = Some (c, d) \<Longrightarrow> c \<in> known_codes"
    and classifier_reason: "classifier e = Some (c, d) \<Longrightarrow> \<exists>r. json_get d ''reason'' = Some (JStr r)"
begin

lemma classified: "\<exists>c d r. classifier e = Some (c, d) \<and> c \<in> known_codes \<and> json_get d ''reason'' = Some (JStr r)"
  using classifier_total [of e] classifier_code classifier_reason by fastforce

lemma unknown_code_absent: "c \<notin> known_codes \<Longrightarrow> classifier e \<noteq> Some (c, d)"
  using classifier_code by blast

end

interpretation revert_class: error_classifier "\<lambda>r. Some (classify_revert fm r)"
    "{SIMULATE_VALIDATION_REJECTED, PAYMASTER_REJECTED, INTERNAL_ERROR}" for fm
proof (unfold_locales, goal_cases)
  case (2 e c d)
  then show ?case by (cases "(fm, e)" rule: classify_revert.cases) auto
next
  case (3 e c d)
  then show ?case by (cases "(fm, e)" rule: classify_revert.cases) auto
qed simp

lemma classify_revert_object: "\<exists>c kvs. classify_revert fm r = (c, JObj kvs)"
  by (cases "(fm, r)" rule: classify_revert.cases) auto

lemma classify_HandleOpsReverted:
  assumes "classify_revert fm r = (c, JObj kvs)"
  shows "classify fm (HandleOpsReverted h n r) =
     Some (c, JObj (AList.update ''blockNumber'' (JNum (uint n))
                     (AList.update ''txHash'' (JStr (debug_b256 fm h)) kvs)))"
  using assms by simp

lemma classify_revert_carries:
  "classify fm (HandleOpsReverted h n r) = Some (c, d) \<Longrightarrow>
     c = fst (classify_revert fm r) \<and> json_get d ''txHash'' = Some (JStr (debug_b256 fm h))
     \<and> json_get d ''blockNumber'' = Some (JNum (uint n))
     \<and> json_get d ''reason'' = json_get (snd (classify_revert fm r)) ''reason''"
  using classify_revert_object [of fm r] by (auto simp: update_conv)

interpretation bundler_class: error_classifier "classify fm"
    "{INVALID_PARAMS, INTERNAL_ERROR, SIMULATE_VALIDATION_REJECTED, PAYMASTER_REJECTED,
      OUT_OF_TIME_RANGE, ACCOUNT_VALIDATION_REVERTED}" for fm
proof (unfold_locales, goal_cases)
  case (1 e)
  show ?case
  proof (cases e)
    case (HandleOpsReverted h n r)
    then show ?thesis using classify_revert_object [of fm r] by auto
  qed simp_all
next
  case (2 e c d)
  then show ?case
  proof (cases e)
    case (HandleOpsReverted h n r)
    with 2 have "c = fst (classify_revert fm r)" using classify_revert_carries by blast
    then show ?thesis using revert_class.classifier_code [of fm r c "snd (classify_revert fm r)"] by auto
  next
    case (Validation v)
    with 2 show ?thesis by (cases v) auto
  qed auto
next
  case (3 e c d)
  then show ?case
  proof (cases e)
    case (HandleOpsReverted h n r)
    with 3 have "json_get d ''reason'' = json_get (snd (classify_revert fm r)) ''reason''"
      using classify_revert_carries by blast
    then show ?thesis
      using revert_class.classifier_reason [of fm r "fst (classify_revert fm r)" "snd (classify_revert fm r)"]
      by auto
  next
    case (Validation v)
    with 3 show ?thesis by (cases v) auto
  qed auto
qed

section \<open>Properties\<close>

text \<open>The reverts that blame a paymaster, and the errors the caller of the API can fix.\<close>

definition paymaster_fault :: "HandleOpsRevertReason \<Rightarrow> bool" where
  "paymaster_fault r \<longleftrightarrow> (case r of
       FailedOp _ reason \<Rightarrow> take 3 reason = ''AA3''
     | FailedOpWithRevert _ reason _ \<Rightarrow> take 3 reason = ''AA3''
     | PostOpReverted _ \<Rightarrow> True
     | _ \<Rightarrow> False)"

definition invalid_request :: "BundlerError \<Rightarrow> bool" where
  "invalid_request e \<longleftrightarrow> (case e of
       WrongChainId _ _ \<Rightarrow> True | InvalidBatch _ \<Rightarrow> True | BatchTooLarge _ _ \<Rightarrow> True
     | InvalidUserOp _ _ \<Rightarrow> True | PriorityFeeTooLow _ _ _ \<Rightarrow> True | FeeCapTooLow _ _ _ \<Rightarrow> True
     | Pack _ \<Rightarrow> True | _ \<Rightarrow> False)"

lemma classify_revert_codes:
  "fst (classify_revert fm r) = (if paymaster_fault r then PAYMASTER_REJECTED
     else case r of Unknown _ \<Rightarrow> INTERNAL_ERROR | _ \<Rightarrow> SIMULATE_VALIDATION_REJECTED)"
  by (cases r) (auto simp: paymaster_fault_def)

lemma classify_HandleOpsReverted_code:
  "classify fm (HandleOpsReverted h n r) = Some (code, payload) \<Longrightarrow>
     code = (if paymaster_fault r then PAYMASTER_REJECTED
             else case r of Unknown _ \<Rightarrow> INTERNAL_ERROR | _ \<Rightarrow> SIMULATE_VALIDATION_REJECTED)"
  using classify_revert_carries classify_revert_codes by metis

text \<open>
  C32. Each of the six codes is produced by exactly the listed errors: -32602 by the request,
  fee-policy and packing errors, -32503 by the time range, -32521 by an aggregator, -32501 by a
  paymaster signature failure, a post-operation revert or a failed operation whose reason starts with
  AA3, -32500 by a missing deposit, an account signature failure and every other decoded revert,
  and -32603 by a shutdown, a receipt timeout, an undecoded revert and the failures of the provider
  and the signer; and no other code is produced.
\<close>

theorem classify_codes_exact:
  assumes "classify fm e = Some (code, payload)"
  shows "(code = -32602 \<longleftrightarrow> invalid_request e)
     \<and> (code = -32503 \<longleftrightarrow> (\<exists>t a b c d. e = Validation (OutOfTimeRange t a b c d)))
     \<and> (code = -32521 \<longleftrightarrow> e = Validation UnsupportedAggregator)
     \<and> (code = -32501 \<longleftrightarrow> e = Validation PaymasterSignatureFailed
          \<or> (\<exists>h n r. e = HandleOpsReverted h n r \<and> paymaster_fault r))
     \<and> (code = -32500 \<longleftrightarrow> (\<exists>i s q d. e = InsufficientDeposit i s q d) \<or> e = Validation AccountSignatureFailed
          \<or> (\<exists>h n r. e = HandleOpsReverted h n r \<and> \<not> paymaster_fault r \<and> (\<nexists>raw. r = Unknown raw)))
     \<and> (code = -32603 \<longleftrightarrow> e = Cancelled \<or> (\<exists>h. e = ReceiptTimeout h) \<or> (\<exists>h n raw. e = HandleOpsReverted h n (Unknown raw))
          \<or> (\<exists>p. e = ProviderFailed p) \<or> (\<exists>p. e = Validation (ValidationProvider p)) \<or> (\<exists>s. e = SignerFailed s))
     \<and> code \<in> {-32602, -32503, -32521, -32501, -32500, -32603}"
proof (cases e)
  case (HandleOpsReverted h n r)
  with assms have "code = (if paymaster_fault r then PAYMASTER_REJECTED
      else case r of Unknown _ \<Rightarrow> INTERNAL_ERROR | _ \<Rightarrow> SIMULATE_VALIDATION_REJECTED)"
    using classify_HandleOpsReverted_code by blast
  with HandleOpsReverted show ?thesis
    by (cases r) (auto simp: code_defs invalid_request_def paymaster_fault_def)
next
  case (Validation v)
  with assms show ?thesis by (cases v) (auto simp: code_defs invalid_request_def)
qed (use assms in \<open>auto simp: code_defs invalid_request_def\<close>)

theorem classify_codes_exact_witness:
  "\<exists>code payload. classify \<lparr>debug_address = \<lambda>_. [], debug_b256 = \<lambda>_. [], hex_encode = \<lambda>_. []\<rparr>
       (HandleOpsReverted 1 2 (FailedOp 0 ''AA31 paymaster deposit too low'')) = Some (code, payload)
     \<and> code = -32501"
proof -
  let ?fm = "\<lparr>debug_address = \<lambda>_. [], debug_b256 = \<lambda>_. [], hex_encode = \<lambda>_. []\<rparr>"
  let ?e = "HandleOpsReverted 1 2 (FailedOp 0 ''AA31 paymaster deposit too low'')"
  obtain code payload where c: "classify ?fm ?e = Some (code, payload)" by simp
  from classify_codes_exact [OF c] have "code = -32501" by (simp add: paymaster_fault_def)
  with c show ?thesis by blast
qed

text \<open>
  The response to an on-chain revert names the transaction and its block beside the reason
  and code of the decoded revert.
\<close>

lemma revert_payload:
  "\<exists>code payload. classify fm (HandleOpsReverted tx_hash block_number r) = Some (code, payload)
     \<and> code = fst (classify_revert fm r)
     \<and> json_get payload ''txHash'' = Some (JStr (debug_b256 fm tx_hash))
     \<and> json_get payload ''blockNumber'' = Some (JNum (uint block_number))
     \<and> json_get payload ''reason'' = json_get (snd (classify_revert fm r)) ''reason''"
  using bundler_class.classified [of fm "HandleOpsReverted tx_hash block_number r"] classify_revert_carries
  by metis

lemma clamp_u64_exact: "unat (clamp_u64 v) = min (unat v) (2 ^ 64 - 1)"
proof (cases "unat v < 2 ^ 64")
  case True
  then show ?thesis by (simp add: clamp_u64_def try_narrow_def unat_ucast_small)
next
  case False
  then show ?thesis by (simp add: clamp_u64_def try_narrow_def unat_minus_1)
qed

text \<open>
  A revert the EntryPoint encodes as \<open>FailedOp\<close> is decoded to its reason and its operation
  index, saturated at 64 bits, and the code blames the paymaster exactly for reasons that start
  with AA3.
\<close>

lemma decode_failed_op:
  assumes "length (sel_FailedOp abi) = 4" and "dec_FailedOp abi body = Some (opIndex, reason)"
  shows "\<exists>i. decode_handle_ops_revert abi (sel_FailedOp abi @ body) = FailedOp i reason
     \<and> unat i = min (unat opIndex) (2 ^ 64 - 1)
     \<and> fst (classify_revert fm (FailedOp i reason)) = (if take 3 reason = ''AA3'' then -32501 else -32500)"
  using assms by (simp add: decode_handle_ops_revert_def clamp_u64_exact code_defs)

definition sample_abi :: abi_errors where
  "sample_abi =
     \<lparr> sel_FailedOp = [0x22, 0x02, 0x66, 0xb6], sel_FailedOpWithRevert = [0x65, 0xc8, 0xfd, 0x4d],
       sel_SignatureValidationFailed = [0x86, 0xa9, 0xf7, 0x50], sel_PostOpReverted = [0xad, 0x79, 0x54, 0xbc],
       dec_FailedOp = (\<lambda>bs. Some (be_word bs, ''AA21 didn't pay prefund'')),
       dec_FailedOpWithRevert = (\<lambda>bs. None), dec_SignatureValidationFailed = (\<lambda>bs. Some (be_word bs)),
       dec_PostOpReverted = Some, dec_String = (\<lambda>bs. None), dec_U256 = (\<lambda>bs. Some (be_word bs)) \<rparr>"

text \<open>A revert that matches no known shape keeps its bytes.\<close>

lemma undecoded_revert_keeps_bytes:
  "(decode_handle_ops_revert abi data = Unknown raw \<longrightarrow> raw = data)
   \<and> (length data < 4 \<longrightarrow> decode_handle_ops_revert abi data = Unknown data)"
  by (auto simp: decode_handle_ops_revert_def Let_def split: if_splits option.splits)

end
