(* ===== verification/Bundler.thy ===== *)
theory Bundler
  imports Errors
begin

text \<open>
  \<open>crates/bundler/src/bundler.rs\<close>: the build pipeline in direct style, one definition per method
  and helper.  \<open>build_inner\<close> is split where the source has its phases: the checks and provider
  calls up to the choice of the outer fees (\<open>prepare\<close>), the read of the nonce, the transaction
  and its signature (\<open>sign_at_nonce\<close>), and the broadcast with its receipt (\<open>submit_signed\<close>).
  The submit lock and the cancellation token belong to concurrent runs and are modelled in
  \<open>Build_Task\<close> and \<open>Submit_Pool\<close>.

  Arithmetic on \<open>u64\<close> wraps as in the release profile the Makefile and the Dockerfile build.
\<close>

section \<open>State and parameters\<close>

text \<open>
  Code outside the repository: formats and ABI decoding of errors, the envelope encoding, the ABI
  encoding of \<open>handleOps\<close>, and the system clock in nanoseconds relative to the Unix epoch.
\<close>

record 'w externals =
  ext_formats :: formats
  ext_abi_errors :: abi_errors
  ext_consensus :: consensus
  ext_handleOps_abi_encode :: "handleOpsCall \<Rightarrow> bytes"
  ext_system_time :: "'w \<Rightarrow> int"

record 'w Bundler =
  bd_cfg :: BundlerConfig
  bd_provider :: "'w EthProvider"
  bd_signer :: "'w Signer"
  bd_simulations_code :: bytes

definition RECEIPT_TIMEOUT :: duration where
  "RECEIPT_TIMEOUT = from_secs 30"

text \<open>The embedded simulations bytecode is the argument \<open>runtime\<close> of the constructor.\<close>

definition bundler_with_cancellation ::
  "bytes \<Rightarrow> BundlerConfig \<Rightarrow> 'w EthProvider \<Rightarrow> 'w Signer \<Rightarrow> BundlerError + 'w Bundler" where
  "bundler_with_cancellation runtime cfg provider signer =
     Inr \<lparr> bd_cfg = cfg, bd_provider = provider, bd_signer = signer, bd_simulations_code = runtime \<rparr>"

text \<open>The constructor without a token: the token it makes is never fired.\<close>

definition bundler_new :: "bytes \<Rightarrow> BundlerConfig \<Rightarrow> 'w EthProvider \<Rightarrow> 'w Signer \<Rightarrow> BundlerError + 'w Bundler" where
  "bundler_new runtime cfg provider signer = bundler_with_cancellation runtime cfg provider signer"

text \<open>The \<open>Debug\<close> form: the chain, the EntryPoint and the public address of the signer.\<close>

definition debug_Bundler :: "formats \<Rightarrow> 'w Bundler \<Rightarrow> string" where
  "debug_Bundler fm self =
     ''Bundler { chain_id: '' @ dec_string (unat (cfg_chain_id (bd_cfg self)))
     @ '', entrypoint: '' @ debug_address fm (cfg_entrypoint_address (bd_cfg self))
     @ '', signer: '' @ debug_address fm (sg_address (bd_signer self)) @ '' }''"

text \<open>What is logged of a bundler does not depend on the sequencer key or on the node's URL.\<close>

lemma debug_hides_key:
  "debug_Bundler fm (self\<lparr>bd_cfg := (bd_cfg self)\<lparr>cfg_sequencer_key := key, cfg_exec_rpc_url := url\<rparr>\<rparr>)
     = debug_Bundler fm self"
  by (simp add: debug_Bundler_def)

section \<open>Helpers\<close>

definition update_min :: "u256 option \<Rightarrow> u256 \<Rightarrow> u256 option" where
  "update_min slot candidate =
     (case slot of
        Some current \<Rightarrow> (if current \<le> candidate then slot else Some candidate)
      | None \<Rightarrow> Some candidate)"

definition min_u256 :: "u256 \<Rightarrow> u256 \<Rightarrow> u256" where
  "min_u256 a b = (if a \<le> b then a else b)"

definition max_u256 :: "u256 \<Rightarrow> u256 \<Rightarrow> u256" where
  "max_u256 a b = (if a \<ge> b then a else b)"

definition u128_from_u256 :: "u256 \<Rightarrow> string \<Rightarrow> BundlerError + u128" where
  "u128_from_u256 v field =
     (case try_narrow v of
        Some r \<Rightarrow> Inr r
      | None \<Rightarrow> Inl (InvalidUserOp usize_max (field @ '' exceeds u128'')))"

definition unix_now :: "int \<Rightarrow> u64" where
  "unix_now system_time = (if system_time < 0 then 0 else word_of_int (system_time div 1000000000))"

definition show_u256 :: "u256 \<Rightarrow> string" where
  "show_u256 v = dec_string (unat v)"

section \<open>Fee policy and prefund\<close>

definition check_per_op_fees :: "BundlerConfig \<Rightarrow> usize \<Rightarrow> UserOpV07 \<Rightarrow> u256 \<Rightarrow> BundlerError + unit" where
  "check_per_op_fees cfg i op base_fee =
     (if op_max_priority_fee_per_gas op > op_max_fee_per_gas op
      then Inl (InvalidUserOp i ''maxPriorityFeePerGas > maxFeePerGas'')
      else if op_max_priority_fee_per_gas op < cfg_min_priority_fee_wei cfg
      then Inl (PriorityFeeTooLow i (show_u256 (op_max_priority_fee_per_gas op))
                  (show_u256 (cfg_min_priority_fee_wei cfg)))
      else
        let required = sat_add base_fee (cfg_min_priority_fee_wei cfg) in
        if op_max_fee_per_gas op < required
        then Inl (FeeCapTooLow i (show_u256 (op_max_fee_per_gas op)) (show_u256 required))
        else Inr ())"

text \<open>The sponsor of an operation and the paymaster gas limits that count towards its prefund.\<close>

definition prefund_sponsor :: "UserOpV07 \<Rightarrow> (address \<times> u256 \<times> u256) option \<Rightarrow> address \<times> u256 \<times> u256" where
  "prefund_sponsor op parsed =
     (case parsed of
        Some (pm, ver, post) \<Rightarrow> (if pm \<noteq> 0 then (pm, ver, post) else (op_sender op, 0, 0))
      | None \<Rightarrow> (op_sender op, 0, 0))"

definition prefund_required :: "UserOpV07 \<Rightarrow> u256 \<Rightarrow> u256 \<Rightarrow> u256" where
  "prefund_required op pm_ver pm_post =
     sat_mul
       (sat_add (sat_add (sat_add (sat_add (op_verification_gas_limit op) (op_call_gas_limit op)) pm_ver) pm_post)
          (op_pre_verification_gas op))
       (op_max_fee_per_gas op)"

definition check_prefund ::
  "'w externals \<Rightarrow> 'w Bundler \<Rightarrow> usize \<Rightarrow> UserOpV07 \<Rightarrow> PackedUserOperation \<Rightarrow> ('w, BundlerError, unit) prog" where
  "check_prefund ext b i op packed =
     pbind (plift (map_sum Pack id (parse_paymaster_and_data (pk_paymasterAndData packed)))) (\<lambda>parsed.
     case prefund_sponsor op parsed of (sponsor, pm_ver, pm_post) \<Rightarrow>
     let required = prefund_required op pm_ver pm_post in
     pbind (pcall ProviderFailed (pv_balance_of (bd_provider b) (cfg_entrypoint_address (bd_cfg b)) sponsor)) (\<lambda>deposit.
     if deposit < required
     then pfail (InsufficientDeposit i (debug_address (ext_formats ext) sponsor)
                   (show_u256 required) (show_u256 deposit))
     else pret ()))"

definition choose_outer_fees ::
  "BundlerConfig \<Rightarrow> u256 \<Rightarrow> u256 \<Rightarrow> u256 \<Rightarrow> u256 \<Rightarrow> BundlerError + (u256 \<times> u256)" where
  "choose_outer_fees cfg base_fee suggested_tip min_user_tip min_user_fee_cap =
     (let desired_tip = max_u256 (cfg_min_priority_fee_wei cfg) suggested_tip;
          tip = min_u256 desired_tip min_user_tip;
          fee_cap = min_user_fee_cap;
          required = sat_add base_fee tip
      in if fee_cap < required
         then Inl (FeeCapTooLow usize_max (show_u256 fee_cap) (show_u256 required))
         else Inr (tip, fee_cap))"

definition gas_with_margin :: "u64 \<Rightarrow> u32 \<Rightarrow> u64" where
  "gas_with_margin estimated pct = sat_add estimated (estimated * ucast pct div 100)"

section \<open>The batch loop\<close>

record batch =
  bt_packed_ops :: "PackedUserOperation list"
  bt_user_op_hashes :: "b256 list"
  bt_min_user_tip :: "u256 option"
  bt_min_user_fee_cap :: "u256 option"

definition empty_batch :: batch where
  "empty_batch = \<lparr> bt_packed_ops = [], bt_user_op_hashes = [], bt_min_user_tip = None, bt_min_user_fee_cap = None \<rparr>"

definition batch_push :: "batch \<Rightarrow> UserOpV07 \<Rightarrow> PackedUserOperation \<Rightarrow> b256 \<Rightarrow> batch" where
  "batch_push bt op packed hash =
     \<lparr> bt_packed_ops = bt_packed_ops bt @ [packed],
       bt_user_op_hashes = bt_user_op_hashes bt @ [hash],
       bt_min_user_tip = update_min (bt_min_user_tip bt) (op_max_priority_fee_per_gas op),
       bt_min_user_fee_cap = update_min (bt_min_user_fee_cap bt) (op_max_fee_per_gas op) \<rparr>"

definition process_op ::
  "'w externals \<Rightarrow> 'w Bundler \<Rightarrow> u256 \<Rightarrow> u64 \<Rightarrow> usize \<Rightarrow> UserOpV07 \<Rightarrow> batch \<Rightarrow> ('w, BundlerError, batch) prog" where
  "process_op ext b base_fee now_unix i op bt =
     pbind (plift (check_per_op_fees (bd_cfg b) i op base_fee)) (\<lambda>_.
     pbind (plift (map_sum Pack id (pack op))) (\<lambda>packed.
     pbind (check_prefund ext b i op packed) (\<lambda>_.
     pbind (pmap_err Validation
              (simulate (bd_provider b) (cfg_entrypoint_address (bd_cfg b)) (bd_simulations_code b) packed now_unix)) (\<lambda>_.
     pbind (pcall ProviderFailed (pv_user_op_hash (bd_provider b) (cfg_entrypoint_address (bd_cfg b)) packed)) (\<lambda>hash.
     pret (batch_push bt op packed hash))))))"

fun process_ops ::
  "'w externals \<Rightarrow> 'w Bundler \<Rightarrow> u256 \<Rightarrow> u64 \<Rightarrow> usize \<Rightarrow> UserOpV07 list \<Rightarrow> batch \<Rightarrow> ('w, BundlerError, batch) prog" where
  "process_ops ext b base_fee now_unix i [] bt = pret bt"
| "process_ops ext b base_fee now_unix i (op # ops) bt =
     pbind (process_op ext b base_fee now_unix i op bt) (\<lambda>bt'.
     process_ops ext b base_fee now_unix (Suc i) ops bt')"

section \<open>build\_inner\<close>

definition check_request :: "BundlerConfig \<Rightarrow> UserOpV07 list \<Rightarrow> BuildOpts \<Rightarrow> BundlerError + unit" where
  "check_request cfg ops opts =
     (if opts_chain_id opts \<noteq> cfg_chain_id cfg
      then Inl (WrongChainId (cfg_chain_id cfg) (opts_chain_id opts))
      else if ops = [] then Inl (InvalidBatch ''empty userOps'')
      else if length ops > cfg_max_batch_size cfg
      then Inl (BatchTooLarge (length ops) (cfg_max_batch_size cfg))
      else Inr ())"

record prepared =
  pr_call_data :: bytes
  pr_gas :: u64
  pr_outer_tip :: u256
  pr_outer_fee_cap :: u256
  pr_user_op_hashes :: "b256 list"

definition pexpect :: "string \<Rightarrow> 'a option \<Rightarrow> ('w, 'e, 'a) prog" where
  "pexpect msg v = (case v of Some x \<Rightarrow> pret x | None \<Rightarrow> ppanic msg)"

definition handle_ops_call_data :: "'w externals \<Rightarrow> 'w Bundler \<Rightarrow> batch \<Rightarrow> bytes" where
  "handle_ops_call_data ext b bt =
     ext_handleOps_abi_encode ext \<lparr> ho_ops = bt_packed_ops bt, ho_beneficiary = sg_address (bd_signer b) \<rparr>"

definition price_batch ::
  "'w externals \<Rightarrow> 'w Bundler \<Rightarrow> u256 \<Rightarrow> u256 \<Rightarrow> batch \<Rightarrow> ('w, BundlerError, prepared) prog" where
  "price_batch ext b base_fee suggested_tip bt =
     (let call_data = handle_ops_call_data ext b bt in
      pbind (pcall ProviderFailed
               (pv_estimate_handle_ops_gas (bd_provider b) (sg_address (bd_signer b))
                  (cfg_entrypoint_address (bd_cfg b)) call_data)) (\<lambda>estimated.
      let gas = gas_with_margin estimated (cfg_gas_margin_pct (bd_cfg b)) in
      pbind (pexpect ''non-empty batch'' (bt_min_user_tip bt)) (\<lambda>min_user_tip.
      pbind (pexpect ''non-empty batch'' (bt_min_user_fee_cap bt)) (\<lambda>min_user_fee_cap.
      pbind (plift (choose_outer_fees (bd_cfg b) base_fee suggested_tip min_user_tip min_user_fee_cap)) (\<lambda>(outer_tip, outer_fee_cap).
      pret \<lparr> pr_call_data = call_data, pr_gas = gas, pr_outer_tip = outer_tip,
             pr_outer_fee_cap = outer_fee_cap, pr_user_op_hashes = bt_user_op_hashes bt \<rparr>)))))"

definition prepare ::
  "'w externals \<Rightarrow> 'w Bundler \<Rightarrow> UserOpV07 list \<Rightarrow> BuildOpts \<Rightarrow> ('w, BundlerError, prepared) prog" where
  "prepare ext b ops opts =
     pbind (plift (check_request (bd_cfg b) ops opts)) (\<lambda>_.
     pbind (pcall ProviderFailed (pv_base_fee (bd_provider b))) (\<lambda>base_fee.
     pbind (pcall ProviderFailed (pv_max_priority_fee (bd_provider b))) (\<lambda>suggested_tip.
     pbind (\<lambda>w. pret (unix_now (ext_system_time ext w)) w) (\<lambda>now_unix.
     pbind (process_ops ext b base_fee now_unix 0 ops empty_batch) (\<lambda>bt.
     price_batch ext b base_fee suggested_tip bt)))))"

definition build_tx :: "BundlerConfig \<Rightarrow> prepared \<Rightarrow> u64 \<Rightarrow> BundlerError + TxEip1559" where
  "build_tx cfg pr nonce =
     rbind (u128_from_u256 (pr_outer_fee_cap pr) ''outer maxFeePerGas'') (\<lambda>max_fee.
     rbind (u128_from_u256 (pr_outer_tip pr) ''outer maxPriorityFeePerGas'') (\<lambda>max_tip.
     Inr \<lparr> tx_chain_id = cfg_chain_id cfg,
           tx_nonce = nonce,
           tx_gas_limit = pr_gas pr,
           tx_max_fee_per_gas = max_fee,
           tx_max_priority_fee_per_gas = max_tip,
           tx_to = Call (cfg_entrypoint_address cfg),
           tx_value = 0,
           tx_access_list = [],
           tx_input = pr_call_data pr \<rparr>))"

definition sign_at_nonce :: "'w Bundler \<Rightarrow> prepared \<Rightarrow> u64 \<Rightarrow> ('w, BundlerError, TxEnvelope) prog" where
  "sign_at_nonce b pr nonce =
     pbind (plift (build_tx (bd_cfg b) pr nonce)) (\<lambda>tx.
     pcall SignerFailed (sg_sign_eip1559 (bd_signer b) tx))"

definition await_receipt ::
  "'w externals \<Rightarrow> 'w Bundler \<Rightarrow> prepared \<Rightarrow> b256 \<Rightarrow> ('w, BundlerError, unit) prog" where
  "await_receipt ext b pr hash =
     pbind (pcall ProviderFailed (pv_wait_for_receipt (bd_provider b) hash RECEIPT_TIMEOUT)) (\<lambda>waited.
     case waited of
       None \<Rightarrow> pfail (ReceiptTimeout hash)
     | Some receipt \<Rightarrow>
         if rcpt_success receipt then pret ()
         else
           pbind (pcall ProviderFailed
                    (pv_try_call_for_revert (bd_provider b) (sg_address (bd_signer b))
                       (cfg_entrypoint_address (bd_cfg b)) (pr_call_data pr))) (\<lambda>revert.
           let reason = (case revert of
                           Some data \<Rightarrow> decode_handle_ops_revert (ext_abi_errors ext) data
                         | None \<Rightarrow> Unknown [])
           in pfail (HandleOpsReverted hash (rcpt_block_number receipt) reason)))"

definition response :: "BundlerConfig \<Rightarrow> prepared \<Rightarrow> bytes \<Rightarrow> b256 \<Rightarrow> SignedTxResp" where
  "response cfg pr raw hash =
     \<lparr> resp_raw = raw,
       resp_hash = hash,
       resp_to = cfg_entrypoint_address cfg,
       resp_chain_id = cfg_chain_id cfg,
       resp_gas = ucast (pr_gas pr),
       resp_max_fee_per_gas = pr_outer_fee_cap pr,
       resp_max_priority_fee_per_gas = pr_outer_tip pr,
       resp_user_op_hashes = pr_user_op_hashes pr \<rparr>"

text \<open>
  The comparison of the submitted hash with the signed one is a debug assertion: it is compiled
  out of the release build, so the submitted hash is dropped here.
\<close>

definition build_inner ::
  "'w externals \<Rightarrow> 'w Bundler \<Rightarrow> UserOpV07 list \<Rightarrow> BuildOpts \<Rightarrow> ('w, BundlerError, SignedTxResp) prog" where
  "build_inner ext b ops opts =
     pbind (prepare ext b ops opts) (\<lambda>pr.
     pbind (pcall ProviderFailed (pv_pending_nonce (bd_provider b) (sg_address (bd_signer b)))) (\<lambda>nonce.
     pbind (sign_at_nonce b pr nonce) (\<lambda>envelope.
     let raw = encoded_2718 (ext_consensus ext) envelope;
         hash = envelope_tx_hash (ext_consensus ext) envelope in
     pbind (if opts_submit opts then
              pbind (pcall ProviderFailed (pv_send_raw_transaction (bd_provider b) raw)) (\<lambda>submitted.
              await_receipt ext b pr hash)
            else pret ()) (\<lambda>_.
     pret (response (bd_cfg b) pr raw hash)))))"

end
