(* ===== verification/Pipeline.thy ===== *)
theory Pipeline
  imports Bundler
begin

text \<open>
  Facts about the build pipeline: the fee policy, the prefund formula and the gas margin as
  statements on natural numbers, the batch loop as a list of vetted operations, and the shape of
  every successful run of \<open>build_inner\<close>.
\<close>

section \<open>Fee policy on natural numbers\<close>

lemma min_max_u256: "min_u256 a b = min a b" "max_u256 a b = max a b"
  by (auto simp: min_u256_def max_u256_def min_def max_def)

lemma check_per_op_fees_ok_iff:
  "check_per_op_fees cfg i op base_fee = Inr () \<longleftrightarrow>
     cfg_min_priority_fee_wei cfg \<le> op_max_priority_fee_per_gas op
     \<and> op_max_priority_fee_per_gas op \<le> op_max_fee_per_gas op
     \<and> sat_add base_fee (cfg_min_priority_fee_wei cfg) \<le> op_max_fee_per_gas op"
  by (auto simp: check_per_op_fees_def Let_def not_less)

lemma choose_outer_fees_ok_iff:
  "choose_outer_fees cfg base_fee suggested user_tip user_cap = Inr (tip, cap) \<longleftrightarrow>
     tip = min (max (cfg_min_priority_fee_wei cfg) suggested) user_tip \<and> cap = user_cap
     \<and> sat_add base_fee tip \<le> cap"
  by (auto simp: choose_outer_fees_def Let_def min_max_u256 not_less)

lemma sat_add_le_small:
  fixes a b c :: u256
  assumes "sat_add a b \<le> c" and "unat c < 2 ^ 128"
  shows "unat a + unat b \<le> unat c"
  using assms by (simp add: word_le_nat_alt unat_sat_add min_def split: if_splits)

section \<open>The running minimum\<close>

lemma foldl_update_min_Some: "foldl update_min (Some m) xs = Some (Min (insert m (set xs)))"
proof (induction xs arbitrary: m)
  case Nil
  show ?case by simp
next
  case (Cons x xs)
  have "update_min (Some m) x = Some (min m x)"
    by (simp add: update_min_def min_def)
  moreover have "Min (insert m (insert x (set xs))) = Min (insert (min m x) (set xs))"
    by (cases "xs = []") (simp_all add: Min_insert min.assoc)
  ultimately show ?case by (simp add: Cons.IH)
qed

lemma foldl_update_min: "foldl update_min None xs = (if xs = [] then None else Some (Min (set xs)))"
  by (cases xs) (simp_all add: foldl_update_min_Some update_min_def)

section \<open>Vetted operations\<close>

text \<open>
  One iteration of the batch loop that went through: the fee policy holds, the operation packs,
  its sponsor's deposit covers the prefund, the simulation of the packed operation is accepted,
  and the execution layer names its hash.  The calls run in this order from \<open>w\<close> to \<open>w'\<close>.
\<close>

definition vetted ::
  "'w Bundler \<Rightarrow> u256 \<Rightarrow> u64 \<Rightarrow> UserOpV07 \<Rightarrow> PackedUserOperation \<Rightarrow> b256 \<Rightarrow> 'w \<Rightarrow> 'w \<Rightarrow> bool" where
  "vetted b base_fee now op packed hash w w' \<longleftrightarrow>
     check_per_op_fees (bd_cfg b) 0 op base_fee = Inr () \<and> pack op = Inr packed \<and>
     (\<exists>parsed sponsor pm_ver pm_post deposit rep w1 w2.
        parse_paymaster_and_data (pk_paymasterAndData packed) = Inr parsed
        \<and> prefund_sponsor op parsed = (sponsor, pm_ver, pm_post)
        \<and> pv_balance_of (bd_provider b) (cfg_entrypoint_address (bd_cfg b)) sponsor w = Some (Inr deposit, w1)
        \<and> prefund_required op pm_ver pm_post \<le> deposit
        \<and> simulate (bd_provider b) (cfg_entrypoint_address (bd_cfg b)) (bd_simulations_code b) packed now w1
            = Some (Done rep, w2)
        \<and> pv_user_op_hash (bd_provider b) (cfg_entrypoint_address (bd_cfg b)) packed w2 = Some (Inr hash, w'))"

fun vetted_all ::
  "'w Bundler \<Rightarrow> u256 \<Rightarrow> u64 \<Rightarrow> UserOpV07 list \<Rightarrow> PackedUserOperation list \<Rightarrow> b256 list \<Rightarrow> 'w \<Rightarrow> 'w \<Rightarrow> bool" where
  "vetted_all b base_fee now [] ps hs w w' \<longleftrightarrow> ps = [] \<and> hs = [] \<and> w' = w"
| "vetted_all b base_fee now (op # ops) ps hs w w' \<longleftrightarrow>
     (\<exists>p ps' h hs' w1. ps = p # ps' \<and> hs = h # hs' \<and> vetted b base_fee now op p h w w1
        \<and> vetted_all b base_fee now ops ps' hs' w1 w')"

lemma check_prefund_Done_iff:
  "check_prefund ext b i op packed w = Some (Done (), w1) \<longleftrightarrow>
     (\<exists>parsed sponsor pm_ver pm_post deposit.
        parse_paymaster_and_data (pk_paymasterAndData packed) = Inr parsed
        \<and> prefund_sponsor op parsed = (sponsor, pm_ver, pm_post)
        \<and> pv_balance_of (bd_provider b) (cfg_entrypoint_address (bd_cfg b)) sponsor w = Some (Inr deposit, w1)
        \<and> prefund_required op pm_ver pm_post \<le> deposit)"
proof (cases "parse_paymaster_and_data (pk_paymasterAndData packed)")
  case (Inl e)
  then show ?thesis by (simp add: check_prefund_def prog_simps)
next
  case (Inr parsed)
  obtain sponsor pm_ver pm_post where "prefund_sponsor op parsed = (sponsor, pm_ver, pm_post)"
    by (cases "prefund_sponsor op parsed")
  with Inr show ?thesis
    by (auto simp: check_prefund_def prog_simps Let_def not_less split: if_splits)
qed

lemma process_op_Done_iff:
  "process_op ext b base_fee now i op bt w = Some (Done bt', w') \<longleftrightarrow>
     (\<exists>packed hash. vetted b base_fee now op packed hash w w' \<and> bt' = batch_push bt op packed hash)"
proof -
  have fees: "check_per_op_fees (bd_cfg b) i op base_fee = Inr x \<longleftrightarrow>
              check_per_op_fees (bd_cfg b) 0 op base_fee = Inr ()" for x
    using check_per_op_fees_ok_iff by (cases x) auto
  show ?thesis
    by (simp add: process_op_def vetted_def prog_simps map_sum_iff check_prefund_Done_iff fees) blast
qed

lemma process_ops_Done_iff:
  "process_ops ext b base_fee now i ops bt w = Some (Done bt', w') \<longleftrightarrow>
     (\<exists>ps hs. vetted_all b base_fee now ops ps hs w w' \<and>
        bt' = \<lparr> bt_packed_ops = bt_packed_ops bt @ ps,
                bt_user_op_hashes = bt_user_op_hashes bt @ hs,
                bt_min_user_tip = foldl update_min (bt_min_user_tip bt) (map op_max_priority_fee_per_gas ops),
                bt_min_user_fee_cap = foldl update_min (bt_min_user_fee_cap bt) (map op_max_fee_per_gas ops) \<rparr>)"
proof (induction ops arbitrary: i bt w)
  case Nil
  show ?case by auto
next
  case (Cons op ops)
  have "process_ops ext b base_fee now i (op # ops) bt w = Some (Done bt', w') \<longleftrightarrow>
      (\<exists>p h w1. vetted b base_fee now op p h w w1 \<and>
         process_ops ext b base_fee now (Suc i) ops (batch_push bt op p h) w1 = Some (Done bt', w'))"
    by (auto simp: prog_simps process_op_Done_iff)
  also have "\<dots> \<longleftrightarrow> (\<exists>p h w1 ps hs. vetted b base_fee now op p h w w1 \<and> vetted_all b base_fee now ops ps hs w1 w' \<and>
      bt' = \<lparr> bt_packed_ops = bt_packed_ops bt @ p # ps,
              bt_user_op_hashes = bt_user_op_hashes bt @ h # hs,
              bt_min_user_tip = foldl update_min (bt_min_user_tip bt) (map op_max_priority_fee_per_gas (op # ops)),
              bt_min_user_fee_cap = foldl update_min (bt_min_user_fee_cap bt) (map op_max_fee_per_gas (op # ops)) \<rparr>)"
    by (simp add: Cons.IH batch_push_def)
  finally show ?case by (simp only: vetted_all.simps) blast
qed

lemma vetted_all_packs: "vetted_all b base_fee now ops ps hs w w' \<Longrightarrow> map pack ops = map Inr ps \<and> length hs = length ops"
  by (induction ops arbitrary: ps hs w) (auto simp: vetted_def)

lemma vetted_all_fees:
  "vetted_all b base_fee now ops ps hs w w' \<Longrightarrow> op \<in> set ops \<Longrightarrow>
     check_per_op_fees (bd_cfg b) 0 op base_fee = Inr () \<and> (\<exists>p. pack op = Inr p)"
  by (induction ops arbitrary: ps hs w) (auto simp: vetted_def)

lemma vetted_all_nth:
  "vetted_all b base_fee now ops ps hs w w' \<Longrightarrow> k < length ops \<Longrightarrow>
     \<exists>w1 w2. vetted b base_fee now (ops ! k) (ps ! k) (hs ! k) w1 w2"
proof (induction ops arbitrary: ps hs w k)
  case Nil
  then show ?case by simp
next
  case (Cons op ops)
  then show ?case by (cases k) (auto, blast)
qed

section \<open>Successful preparation\<close>

lemma check_request_ok_iff:
  "check_request cfg ops opts = Inr () \<longleftrightarrow>
     opts_chain_id opts = cfg_chain_id cfg \<and> ops \<noteq> [] \<and> length ops \<le> cfg_max_batch_size cfg"
  by (auto simp: check_request_def)

definition batch_of :: "UserOpV07 list \<Rightarrow> PackedUserOperation list \<Rightarrow> b256 list \<Rightarrow> batch" where
  "batch_of ops ps hs =
     \<lparr> bt_packed_ops = ps, bt_user_op_hashes = hs,
       bt_min_user_tip = foldl update_min None (map op_max_priority_fee_per_gas ops),
       bt_min_user_fee_cap = foldl update_min None (map op_max_fee_per_gas ops) \<rparr>"

lemma process_all_Done_iff:
  "process_ops ext b base_fee now 0 ops empty_batch w = Some (Done bt, w') \<longleftrightarrow>
     (\<exists>ps hs. vetted_all b base_fee now ops ps hs w w' \<and> bt = batch_of ops ps hs)"
  by (simp add: process_ops_Done_iff empty_batch_def batch_of_def)

lemma batch_of_mins:
  assumes "ops \<noteq> []"
  shows "bt_min_user_tip (batch_of ops ps hs) = Some (Min (op_max_priority_fee_per_gas ` set ops))"
    and "bt_min_user_fee_cap (batch_of ops ps hs) = Some (Min (op_max_fee_per_gas ` set ops))"
  using assms by (simp_all add: batch_of_def foldl_update_min)

text \<open>
  A successful preparation: the request was well formed, every operation was vetted against one
  base fee and one clock reading, the gas estimate was taken for exactly these operations, and
  the fees are the policy's.
\<close>

definition prepared_ok ::
  "'w externals \<Rightarrow> 'w Bundler \<Rightarrow> UserOpV07 list \<Rightarrow> BuildOpts \<Rightarrow> prepared \<Rightarrow> bool" where
  "prepared_ok ext b ops opts pr \<longleftrightarrow>
     check_request (bd_cfg b) ops opts = Inr () \<and>
     (\<exists>base_fee suggested now ps estimated w1 w2 w3 w4 w5.
        pv_base_fee (bd_provider b) w1 = Some (Inr base_fee, w2)
        \<and> pv_max_priority_fee (bd_provider b) w2 = Some (Inr suggested, w3)
        \<and> now = unix_now (ext_system_time ext w3)
        \<and> vetted_all b base_fee now ops ps (pr_user_op_hashes pr) w3 w4
        \<and> pr_call_data pr = ext_handleOps_abi_encode ext
             \<lparr> ho_ops = ps, ho_beneficiary = sg_address (bd_signer b) \<rparr>
        \<and> pv_estimate_handle_ops_gas (bd_provider b) (sg_address (bd_signer b))
             (cfg_entrypoint_address (bd_cfg b)) (pr_call_data pr) w4 = Some (Inr estimated, w5)
        \<and> pr_gas pr = gas_with_margin estimated (cfg_gas_margin_pct (bd_cfg b))
        \<and> choose_outer_fees (bd_cfg b) base_fee suggested
             (Min (op_max_priority_fee_per_gas ` set ops)) (Min (op_max_fee_per_gas ` set ops))
             = Inr (pr_outer_tip pr, pr_outer_fee_cap pr))"

lemma price_batch_Done_iff:
  assumes "ops \<noteq> []"
  shows "price_batch ext b base_fee suggested (batch_of ops ps hs) w = Some (Done pr, w') \<longleftrightarrow>
     pr_user_op_hashes pr = hs
     \<and> pr_call_data pr = ext_handleOps_abi_encode ext \<lparr> ho_ops = ps, ho_beneficiary = sg_address (bd_signer b) \<rparr>
     \<and> (\<exists>estimated. pv_estimate_handle_ops_gas (bd_provider b) (sg_address (bd_signer b))
             (cfg_entrypoint_address (bd_cfg b)) (pr_call_data pr) w = Some (Inr estimated, w')
          \<and> pr_gas pr = gas_with_margin estimated (cfg_gas_margin_pct (bd_cfg b)))
     \<and> choose_outer_fees (bd_cfg b) base_fee suggested
             (Min (op_max_priority_fee_per_gas ` set ops)) (Min (op_max_fee_per_gas ` set ops))
             = Inr (pr_outer_tip pr, pr_outer_fee_cap pr)"
proof -
  have packed: "bt_packed_ops (batch_of ops ps hs) = ps" "bt_user_op_hashes (batch_of ops ps hs) = hs"
    by (simp_all add: batch_of_def)
  show ?thesis
    unfolding price_batch_def Let_def
    by (cases pr)
       (auto simp: prog_simps pexpect_def batch_of_mins [OF assms] handle_ops_call_data_def packed)
qed

lemma prepare_Done: "prepare ext b ops opts w = Some (Done pr, w') \<Longrightarrow> prepared_ok ext b ops opts pr"
  unfolding prepare_def prepared_ok_def
  by (auto simp: prog_simps process_all_Done_iff check_request_ok_iff price_batch_Done_iff) blast

lemma prepare_no_panic: "prepare ext b ops opts w \<noteq> Some (Panic s, w')"
proof -
  have prefund: "check_prefund ext b i op packed v \<noteq> Some (Panic s, v')" for i op packed v v'
    by (auto simp: check_prefund_def prog_simps Let_def split: prod.splits)
  have one: "process_op ext b base_fee now i op bt v \<noteq> Some (Panic s, v')" for base_fee now i op bt v v'
    by (auto simp: process_op_def prog_simps prefund simulate_no_panic)
  have all: "process_ops ext b base_fee now i ops' bt v \<noteq> Some (Panic s, v')" for base_fee now i ops' bt v v'
    by (induction ops' arbitrary: i bt v) (auto simp: prog_simps one)
  show ?thesis
    by (auto simp: prepare_def prog_simps all process_all_Done_iff check_request_ok_iff price_batch_def
        Let_def pexpect_def batch_of_mins split: prod.splits)
qed

section \<open>Successful and failing builds\<close>

lemma build_inner_Done:
  assumes "build_inner ext b ops opts w = Some (Done resp, w')"
  obtains pr nonce tx env w1 w2 w3 where
    "prepare ext b ops opts w = Some (Done pr, w1)"
    "pv_pending_nonce (bd_provider b) (sg_address (bd_signer b)) w1 = Some (Inr nonce, w2)"
    "build_tx (bd_cfg b) pr nonce = Inr tx"
    "sg_sign_eip1559 (bd_signer b) tx w2 = Some (Inr env, w3)"
    "resp = response (bd_cfg b) pr (encoded_2718 (ext_consensus ext) env) (envelope_tx_hash (ext_consensus ext) env)"
    "if opts_submit opts
     then (\<exists>submitted receipt w4.
             pv_send_raw_transaction (bd_provider b) (encoded_2718 (ext_consensus ext) env) w3 = Some (Inr submitted, w4)
             \<and> pv_wait_for_receipt (bd_provider b) (envelope_tx_hash (ext_consensus ext) env) RECEIPT_TIMEOUT w4
                 = Some (Inr (Some receipt), w')
             \<and> rcpt_success receipt)
     else w' = w3"
  using assms
  by (fastforce simp: build_inner_def sign_at_nonce_def await_receipt_def prog_simps Let_def
      split: if_splits option.splits)

lemma await_receipt_no_panic: "await_receipt ext b pr hash w \<noteq> Some (Panic s, w')"
  by (auto simp: await_receipt_def prog_simps Let_def split: option.splits)

lemma build_inner_no_panic: "build_inner ext b ops opts w \<noteq> Some (Panic s, w')"
  by (auto simp: build_inner_def sign_at_nonce_def prog_simps prepare_no_panic await_receipt_no_panic Let_def
      split: if_splits)

lemma process_ops_Fail:
  assumes "process_ops ext b base_fee now i ops bt w = Some (Fail e, w')"
  shows "\<exists>k < length ops. \<exists>ps hs bt' v. vetted_all b base_fee now (take k ops) ps hs w v
           \<and> process_op ext b base_fee now (i + k) (ops ! k) bt' v = Some (Fail e, w')"
  using assms
proof (induction ops arbitrary: i bt w)
  case Nil
  then show ?case by simp
next
  case (Cons op ops)
  from Cons.prems consider (here) "process_op ext b base_fee now i op bt w = Some (Fail e, w')"
    | (later) bt1 w1 where "process_op ext b base_fee now i op bt w = Some (Done bt1, w1)"
        "process_ops ext b base_fee now (Suc i) ops bt1 w1 = Some (Fail e, w')"
    by (auto simp: prog_simps)
  then show ?case
  proof cases
    case here
    then show ?thesis by (intro exI [of _ 0]) auto
  next
    case later
    from Cons.IH [OF later(2)] obtain k ps hs bt' v where
      "k < length ops" "vetted_all b base_fee now (take k ops) ps hs w1 v"
      "process_op ext b base_fee now (Suc i + k) (ops ! k) bt' v = Some (Fail e, w')" by blast
    with later(1) show ?thesis
      by (intro exI [of _ "Suc k"]) (auto simp: process_op_Done_iff, blast)
  qed
qed

text \<open>The errors that only the batch loop raises.\<close>

definition loop_error :: "BundlerError \<Rightarrow> bool" where
  "loop_error e \<longleftrightarrow> (case e of PriorityFeeTooLow _ _ _ \<Rightarrow> True | InsufficientDeposit _ _ _ _ \<Rightarrow> True
                       | Pack _ \<Rightarrow> True | Validation _ \<Rightarrow> True | _ \<Rightarrow> False)"

lemma check_request_no_loop_error: "check_request cfg ops opts = Inl e \<Longrightarrow> \<not> loop_error e"
  by (auto simp: check_request_def loop_error_def split: if_splits)

lemma price_batch_no_loop_error: "price_batch ext b base_fee suggested bt w = Some (Fail e, w') \<Longrightarrow> \<not> loop_error e"
  by (auto simp: price_batch_def choose_outer_fees_def pexpect_def prog_simps Let_def loop_error_def ppanic_def
      split: if_splits option.splits)

lemma build_tx_no_loop_error: "build_tx cfg pr nonce = Inl e \<Longrightarrow> \<not> loop_error e"
  by (auto simp: build_tx_def u128_from_u256_def loop_error_def rbind_Inl_iff split: option.splits)

lemma await_receipt_no_loop_error: "await_receipt ext b pr hash w = Some (Fail e, w') \<Longrightarrow> \<not> loop_error e"
  by (auto simp: await_receipt_def prog_simps Let_def loop_error_def split: option.splits if_splits)

lemma build_inner_loop_error:
  assumes "build_inner ext b ops opts w = Some (Fail e, w')" and "loop_error e"
  shows "\<exists>base_fee now k ps hs bt v0 v. k < length ops
           \<and> vetted_all b base_fee now (take k ops) ps hs v0 v
           \<and> process_op ext b base_fee now k (ops ! k) bt v = Some (Fail e, w')"
proof -
  have call: "\<not> loop_error (ProviderFailed x)" "\<not> loop_error (SignerFailed y)" for x y
    by (simp_all add: loop_error_def)
  from assms have "prepare ext b ops opts w = Some (Fail e, w')"
    by (auto simp: build_inner_def sign_at_nonce_def prog_simps Let_def call
        dest: build_tx_no_loop_error await_receipt_no_loop_error split: if_splits)
  with assms(2) obtain base_fee now v0 where
    "process_ops ext b base_fee now 0 ops empty_batch v0 = Some (Fail e, w')"
    by (auto simp: prepare_def prog_simps call
        dest: check_request_no_loop_error price_batch_no_loop_error)
  from process_ops_Fail [OF this] show ?thesis by fastforce
qed

lemma check_prefund_Fail_iff:
  "check_prefund ext b i op packed w = Some (Fail e, w') \<longleftrightarrow>
     (\<exists>pe. parse_paymaster_and_data (pk_paymasterAndData packed) = Inl pe \<and> e = Pack pe \<and> w' = w)
     \<or> (\<exists>parsed sponsor pm_ver pm_post.
          parse_paymaster_and_data (pk_paymasterAndData packed) = Inr parsed
          \<and> prefund_sponsor op parsed = (sponsor, pm_ver, pm_post)
          \<and> ((\<exists>pe. pv_balance_of (bd_provider b) (cfg_entrypoint_address (bd_cfg b)) sponsor w = Some (Inl pe, w')
                   \<and> e = ProviderFailed pe)
             \<or> (\<exists>amount. pv_balance_of (bd_provider b) (cfg_entrypoint_address (bd_cfg b)) sponsor w = Some (Inr amount, w')
                   \<and> amount < prefund_required op pm_ver pm_post
                   \<and> e = InsufficientDeposit i (debug_address (ext_formats ext) sponsor)
                          (show_u256 (prefund_required op pm_ver pm_post)) (show_u256 amount))))"
proof (cases "parse_paymaster_and_data (pk_paymasterAndData packed)")
  case (Inl pe)
  then show ?thesis by (auto simp: check_prefund_def prog_simps)
next
  case (Inr parsed)
  obtain sponsor pm_ver pm_post where "prefund_sponsor op parsed = (sponsor, pm_ver, pm_post)"
    by (cases "prefund_sponsor op parsed")
  with Inr show ?thesis
    by (auto simp: check_prefund_def prog_simps Let_def split: if_splits)
qed

lemma process_op_Fail:
  "process_op ext b base_fee now i op bt w = Some (Fail e, w') \<Longrightarrow>
     check_per_op_fees (bd_cfg b) i op base_fee = Inl e
     \<or> (\<exists>pe. pack op = Inl pe \<and> e = Pack pe)
     \<or> (\<exists>packed. pack op = Inr packed \<and> check_prefund ext b i op packed w = Some (Fail e, w'))
     \<or> (\<exists>ve. e = Validation ve) \<or> (\<exists>pe. e = ProviderFailed pe)"
  by (auto simp: process_op_def prog_simps map_sum_iff)

lemma process_op_fee_error:
  assumes "process_op ext b base_fee now i op bt w = Some (Fail (PriorityFeeTooLow j got least), w')"
  shows "j = i \<and> op_max_priority_fee_per_gas op < cfg_min_priority_fee_wei (bd_cfg b)
     \<and> got = show_u256 (op_max_priority_fee_per_gas op) \<and> least = show_u256 (cfg_min_priority_fee_wei (bd_cfg b))"
  using process_op_Fail [OF assms]
  by (auto simp: check_per_op_fees_def check_prefund_Fail_iff Let_def split: if_splits)

lemma process_op_deposit_error:
  assumes "process_op ext b base_fee now i op bt w = Some (Fail (InsufficientDeposit j who required deposit), w')"
  shows "j = i \<and> (\<exists>packed parsed sponsor pm_ver pm_post amount.
        pack op = Inr packed \<and> parse_paymaster_and_data (pk_paymasterAndData packed) = Inr parsed
        \<and> prefund_sponsor op parsed = (sponsor, pm_ver, pm_post)
        \<and> pv_balance_of (bd_provider b) (cfg_entrypoint_address (bd_cfg b)) sponsor w = Some (Inr amount, w')
        \<and> amount < prefund_required op pm_ver pm_post
        \<and> who = debug_address (ext_formats ext) sponsor \<and> deposit = show_u256 amount
        \<and> required = show_u256 (prefund_required op pm_ver pm_post))"
  using process_op_Fail [OF assms]
  by (auto simp: check_per_op_fees_def check_prefund_Fail_iff Let_def split: if_splits)

end
