(* ===== verification/Test_Fixture.thy ===== *)
theory Test_Fixture
  imports Pipeline
begin

text \<open>
  The mocked execution layer, configuration and user operation of the integration tests
  (\<open>crates/bundler/tests/bundler_pipeline.rs\<close>).  They instantiate the parameters of the model at
  concrete inputs, so that every theorem with a hypothesis is applied to a run of the tests.
  The decoder of raw transactions is alloy's: it stays a parameter of the mock.
\<close>

definition TEST_CHAIN_ID :: u64 where "TEST_CHAIN_ID = 31337"
definition TEST_BASE_FEE :: u256 where "TEST_BASE_FEE = 1000000000"
definition TEST_TIP :: u256 where "TEST_TIP = 1000000000"
definition TEST_NONCE :: u64 where "TEST_NONCE = 7"
definition TEST_GAS_ESTIMATE :: u64 where "TEST_GAS_ESTIMATE = 250000"
definition TEST_DEPOSIT :: u256 where "TEST_DEPOSIT = 1000000000000000000"
definition TEST_USER_OP_HASH :: b256 where
  "TEST_USER_OP_HASH = 0xaaaaaaaaaaaaaaaaaaaaaaaaaaaaaaaaaaaaaaaaaaaaaaaaaaaaaaaaaaaaaaaa"

lemmas test_consts = TEST_CHAIN_ID_def TEST_BASE_FEE_def TEST_TIP_def TEST_NONCE_def
  TEST_GAS_ESTIMATE_def TEST_DEPOSIT_def TEST_USER_OP_HASH_def

record MockProvider =
  mk_deposit :: u256
  mk_submissions :: "bytes list"
  mk_pending_nonce :: u64
  mk_fail_send :: bool
  mk_timeout_receipt :: bool
  mk_advance_pending_on_send :: bool

definition default_mock :: MockProvider where
  "default_mock =
     \<lparr> mk_deposit = TEST_DEPOSIT, mk_submissions = [], mk_pending_nonce = TEST_NONCE,
       mk_fail_send = False, mk_timeout_receipt = False, mk_advance_pending_on_send = False \<rparr>"

lemma default_mock_simps [simp]:
  "mk_deposit default_mock = TEST_DEPOSIT" "mk_submissions default_mock = []"
  "mk_pending_nonce default_mock = TEST_NONCE" "\<not> mk_fail_send default_mock"
  "\<not> mk_timeout_receipt default_mock" "\<not> mk_advance_pending_on_send default_mock"
  by (simp_all add: default_mock_def)

definition zero_stake :: StakeInfo where
  "zero_stake = \<lparr> si_stake = 0, si_unstakeDelay = 0 \<rparr>"

definition mock_validation :: ValidationResult where
  "mock_validation =
     \<lparr> vr_returnInfo = \<lparr> ri_preOpGas = 100000, ri_prefund = 50000, ri_accountValidationData = 0,
                         ri_paymasterValidationData = 0, ri_paymasterContext = [] \<rparr>,
       vr_senderInfo = zero_stake, vr_factoryInfo = zero_stake, vr_paymasterInfo = zero_stake,
       vr_aggregatorInfo = \<lparr> asi_aggregator = 0, asi_stakeInfo = zero_stake \<rparr> \<rparr>"

definition mock_send :: "(bytes \<Rightarrow> string + b256) \<Rightarrow> bytes \<Rightarrow> (MockProvider, b256) rpc" where
  "mock_send decode raw w =
     (if mk_fail_send w then Some (Inl (Transport ''nonce too low''), w)
      else (case decode raw of
              Inl e \<Rightarrow> Some (Inl (Decode e), w)
            | Inr hash \<Rightarrow>
                let w1 = w\<lparr>mk_submissions := mk_submissions w @ [raw]\<rparr> in
                Some (Inr hash,
                      if mk_advance_pending_on_send w1
                      then w1\<lparr>mk_pending_nonce := mk_pending_nonce w1 + 1\<rparr> else w1)))"

definition mock_provider :: "(bytes \<Rightarrow> string + b256) \<Rightarrow> MockProvider EthProvider" where
  "mock_provider decode =
     \<lparr> pv_chain_id = (\<lambda>w. Some (Inr TEST_CHAIN_ID, w)),
       pv_base_fee = (\<lambda>w. Some (Inr TEST_BASE_FEE, w)),
       pv_max_priority_fee = (\<lambda>w. Some (Inr TEST_TIP, w)),
       pv_pending_nonce = (\<lambda>_ w. Some (Inr (mk_pending_nonce w), w)),
       pv_balance = (\<lambda>_ w. Some (Inr TEST_DEPOSIT, w)),
       pv_get_code = (\<lambda>_ w. Some (Inr [0, 1, 2], w)),
       pv_balance_of = (\<lambda>_ _ w. Some (Inr (mk_deposit w), w)),
       pv_user_op_hash = (\<lambda>_ _ w. Some (Inr TEST_USER_OP_HASH, w)),
       pv_estimate_handle_ops_gas = (\<lambda>_ _ _ w. Some (Inr TEST_GAS_ESTIMATE, w)),
       pv_send_raw_transaction = mock_send decode,
       pv_wait_for_receipt = (\<lambda>hash _ w.
         if mk_timeout_receipt w then Some (Inr None, w)
         else Some (Inr (Some \<lparr> rcpt_tx_hash = hash, rcpt_block_number = 1, rcpt_success = True \<rparr>), w)),
       pv_try_call_for_revert = (\<lambda>_ _ _ w. Some (Inr None, w)),
       pv_simulate_validation = (\<lambda>_ _ _ w. Some (Inr mock_validation, w)) \<rparr>"

definition test_config :: BundlerConfig where
  "test_config =
     \<lparr> cfg_listen_addr = ''127.0.0.1:0'',
       cfg_chain_id = TEST_CHAIN_ID,
       cfg_exec_rpc_url = ''http://localhost:0/unused'',
       cfg_entrypoint_address = ENTRYPOINT_V07,
       cfg_sequencer_key = 0xac0974bec39a17e36ba4a6b4d238ff944bacb478cbed5efcae784d7bf4f2ff80,
       cfg_max_batch_size = 10,
       cfg_min_priority_fee_wei = 1000000000,
       cfg_gas_margin_pct = 10 \<rparr>"

definition happy_op :: UserOpV07 where
  "happy_op =
     \<lparr> op_sender = 0x1111111111111111111111111111111111111111,
       op_nonce = 1,
       op_init_code = [],
       op_factory = None,
       op_factory_data = [],
       op_call_data = [0xb6, 0x1d, 0x27, 0xf6],
       op_call_gas_limit = 100000,
       op_verification_gas_limit = 100000,
       op_pre_verification_gas = 50000,
       op_max_fee_per_gas = 5000000000,
       op_max_priority_fee_per_gas = 2000000000,
       op_paymaster = None,
       op_paymaster_verification_gas_limit = 0,
       op_paymaster_post_op_gas_limit = 0,
       op_paymaster_data = [],
       op_paymaster_and_data = [],
       op_signature = [0] \<rparr>"

section \<open>Instances of the parameters\<close>

text \<open>
  Concrete stand-ins for the library code: a transaction is encoded by its nonce, which is also
  its hash, and the signer returns a fixed signature.  Nothing but the instances below uses them.
\<close>

definition demo_decode :: "bytes \<Rightarrow> string + b256" where
  "demo_decode raw = Inr (be_word raw)"

definition demo_consensus :: consensus where
  "demo_consensus =
     \<lparr> encoded_2718 = (\<lambda>env. be_bytes 32 (ucast (tx_nonce (env_tx env)) :: u256)),
       envelope_tx_hash = (\<lambda>env. ucast (tx_nonce (env_tx env))) \<rparr>"

definition demo_formats :: formats where
  "demo_formats = \<lparr> debug_address = (\<lambda>a. ''0x'' @ hex_string (unat a)),
                    debug_b256 = (\<lambda>h. ''0x'' @ hex_string (unat h)),
                    hex_encode = (\<lambda>bs. concat (map (\<lambda>x. hex_string (unat x)) bs)) \<rparr>"

definition demo_abi_errors :: abi_errors where
  "demo_abi_errors =
     \<lparr> sel_FailedOp = [0x22, 0x02, 0x66, 0xb6], sel_FailedOpWithRevert = [0x65, 0xc8, 0xfd, 0x4d],
       sel_SignatureValidationFailed = [0x86, 0xa9, 0xf7, 0x50], sel_PostOpReverted = [0xad, 0x79, 0x54, 0xbc],
       dec_FailedOp = (\<lambda>bs. Some (be_word bs, ''AA31 paymaster deposit too low'')),
       dec_FailedOpWithRevert = (\<lambda>bs. None), dec_SignatureValidationFailed = (\<lambda>bs. Some (be_word bs)),
       dec_PostOpReverted = Some, dec_String = (\<lambda>bs. None), dec_U256 = (\<lambda>bs. Some (be_word bs)) \<rparr>"

definition demo_externals :: "MockProvider externals" where
  "demo_externals =
     \<lparr> ext_formats = demo_formats, ext_abi_errors = demo_abi_errors, ext_consensus = demo_consensus,
       ext_handleOps_abi_encode = (\<lambda>c. replicate (length (ho_ops c)) 0),
       ext_system_time = (\<lambda>_. 1700000000000000000) \<rparr>"

definition demo_keys :: "b256 PrivateKeySigner" where
  "demo_keys =
     \<lparr> pks_from_bytes = (\<lambda>key. if key = 0 then Inl ''zero key'' else Inr key),
       pks_address = ucast,
       pks_sign_transaction_sync = (\<lambda>key tx. (Inr (1, 1, False), tx)) \<rparr>"

definition demo_signer :: "MockProvider Signer" where
  "demo_signer = local_signer demo_keys \<lparr> ls_inner = 3 \<rparr>"

definition demo_bundler :: "MockProvider Bundler" where
  "demo_bundler =
     \<lparr> bd_cfg = test_config, bd_provider = mock_provider demo_decode, bd_signer = demo_signer,
       bd_simulations_code = [0x60] \<rparr>"

definition demo_opts :: "bool \<Rightarrow> BuildOpts" where
  "demo_opts submit = \<lparr> opts_chain_id = TEST_CHAIN_ID, opts_submit = submit \<rparr>"

lemmas demo_defs = demo_decode_def demo_consensus_def demo_externals_def demo_keys_def demo_signer_def
  demo_bundler_def demo_opts_def demo_formats_def mock_provider_def mock_send_def default_mock_def
  mock_validation_def test_config_def happy_op_def local_signer_def test_consts

section \<open>The happy path\<close>

lemma demo_admits: "admits 0 now \<longleftrightarrow> unat now < 2 ^ 48"
  by (auto simp: admits_def valid_from_def valid_to_def)

definition happy_packed :: PackedUserOperation where
  "happy_packed =
     \<lparr> pk_sender = 0x1111111111111111111111111111111111111111, pk_nonce = 1, pk_initCode = [],
       pk_callData = [0xb6, 0x1d, 0x27, 0xf6],
       pk_accountGasLimits = push_bit 128 100000 OR 100000,
       pk_preVerificationGas = 50000,
       pk_gasFees = push_bit 128 2000000000 OR 5000000000,
       pk_paymasterAndData = [], pk_signature = [0] \<rparr>"

lemma pack_happy: "pack happy_op = Inr happy_packed"
  by (simp add: pack_def pack_init_code_def pack_paymaster_and_data_def pack_pair_cases happy_op_def
      happy_packed_def)

lemma vetted_happy:
  assumes "mk_deposit w = TEST_DEPOSIT"
  shows "vetted demo_bundler TEST_BASE_FEE 1700000000 happy_op happy_packed TEST_USER_OP_HASH w w"
proof -
  have "check_per_op_fees test_config 0 happy_op TEST_BASE_FEE = Inr ()"
    by (simp add: check_per_op_fees_ok_iff demo_defs sat_add_def)
  moreover have "prefund_required happy_op 0 0 \<le> TEST_DEPOSIT"
    by (simp add: prefund_required_def demo_defs sat_add_def sat_mul_def)
  moreover have "parse_paymaster_and_data (pk_paymasterAndData happy_packed) = Inr None"
    by (simp add: happy_packed_def parse_outcome)
  ultimately show ?thesis
    using assms
    by (auto simp: vetted_def pack_happy prefund_sponsor_def simulate_Done_iff demo_admits demo_bundler_def
        mock_provider_def mock_validation_def)
qed

definition demo_prepared :: prepared where
  "demo_prepared =
     \<lparr> pr_call_data = [0], pr_gas = 275000, pr_outer_tip = 1000000000, pr_outer_fee_cap = 5000000000,
       pr_user_op_hashes = [TEST_USER_OP_HASH] \<rparr>"

lemma prepare_happy:
  assumes "mk_deposit w = TEST_DEPOSIT"
  shows "prepare demo_externals demo_bundler [happy_op] (demo_opts submit) w = Some (Done demo_prepared, w)"
proof -
  have "process_ops demo_externals demo_bundler TEST_BASE_FEE 1700000000 0 [happy_op] empty_batch w
          = Some (Done (batch_of [happy_op] [happy_packed] [TEST_USER_OP_HASH]), w)"
    unfolding process_all_Done_iff using vetted_happy [OF assms]
    by (intro exI [of _ "[happy_packed]"] exI [of _ "[TEST_USER_OP_HASH]"]) simp
  moreover have "price_batch demo_externals demo_bundler TEST_BASE_FEE TEST_TIP
        (batch_of [happy_op] [happy_packed] [TEST_USER_OP_HASH]) w = Some (Done demo_prepared, w)"
    by (simp add: price_batch_def batch_of_def update_min_def pexpect_def choose_outer_fees_def min_u256_def
        max_u256_def sat_add_def handle_ops_call_data_def gas_with_margin_def demo_prepared_def demo_defs
        prog_simps)
  ultimately show ?thesis
    by (simp add: prepare_def prog_simps check_request_def demo_opts_def unix_now_def)
       (simp add: demo_bundler_def mock_provider_def test_config_def demo_externals_def prog_simps)
qed

definition demo_resp :: "u64 \<Rightarrow> SignedTxResp" where
  "demo_resp nonce = response test_config demo_prepared (be_bytes 32 (ucast nonce :: u256)) (ucast nonce)"

text \<open>The world after a broadcast at the pending nonce.\<close>

definition demo_sent :: "MockProvider \<Rightarrow> MockProvider" where
  "demo_sent w =
     (let w1 = w\<lparr>mk_submissions := mk_submissions w @ [be_bytes 32 (ucast (mk_pending_nonce w) :: u256)]\<rparr>
      in if mk_advance_pending_on_send w then w1\<lparr>mk_pending_nonce := mk_pending_nonce w + 1\<rparr> else w1)"

lemmas demo_tail = prog_eval sign_at_nonce_def build_tx_def u128_from_u256_def try_narrow_def
  demo_prepared_def demo_opts_def demo_bundler_def demo_signer_def demo_keys_def local_signer_def
  mock_provider_def mock_send_def demo_resp_def demo_externals_def demo_consensus_def demo_decode_def
  demo_sent_def await_receipt_def Let_def

lemma pbind_prepare_happy:
  "mk_deposit w = TEST_DEPOSIT \<Longrightarrow>
     pbind (prepare demo_externals demo_bundler [happy_op] (demo_opts submit)) k w = k demo_prepared w"
  by (rule pbind_at) (rule prepare_happy)

lemma build_happy_sign_only:
  assumes "mk_deposit w = TEST_DEPOSIT"
  shows "build_inner demo_externals demo_bundler [happy_op] (demo_opts False) w
           = Some (Done (demo_resp (mk_pending_nonce w)), w)"
  unfolding build_inner_def pbind_prepare_happy [OF assms]
  by (simp add: demo_tail)

lemma build_happy_submit:
  assumes "mk_deposit w = TEST_DEPOSIT" and "\<not> mk_fail_send w" and "\<not> mk_timeout_receipt w"
  shows "build_inner demo_externals demo_bundler [happy_op] (demo_opts True) w
           = Some (Done (demo_resp (mk_pending_nonce w)), demo_sent w)"
  unfolding build_inner_def pbind_prepare_happy [OF assms(1)]
  using assms by (simp add: demo_tail)

lemmas build_default_submit = build_happy_submit [of default_mock, simplified]
lemmas build_default_sign_only = build_happy_sign_only [of default_mock, simplified]

end
