(* ===== verification/Pipeline_Properties.thy ===== *)
theory Pipeline_Properties
  imports Test_Fixture
begin

text \<open>
  The properties of the build pipeline of \<open>bundler.rs\<close>: what a successful build guarantees to the
  users whose operations it bundles and to the sequencer that pays for it, which errors are
  reported when, and what sign-only builds do not do.
\<close>

section \<open>Fees and amounts on natural numbers\<close>

lemma packed_fees_small:
  assumes "pack op = Inr p"
  shows "unat (op_max_fee_per_gas op) < 2 ^ 128" and "unat (op_max_priority_fee_per_gas op) < 2 ^ 128"
  using pack_fields(2) [OF assms] by (auto simp: pack_pair_cases split: if_splits)

lemma prepared_batch:
  assumes "prepared_ok ext b ops opts pr"
  obtains base_fee suggested now ps w3 w4 where
    "vetted_all b base_fee now ops ps (pr_user_op_hashes pr) w3 w4"
    "pr_call_data pr = ext_handleOps_abi_encode ext \<lparr> ho_ops = ps, ho_beneficiary = sg_address (bd_signer b) \<rparr>"
    "pr_outer_tip pr = min (max (cfg_min_priority_fee_wei (bd_cfg b)) suggested)
        (Min (op_max_priority_fee_per_gas ` set ops))"
    "pr_outer_fee_cap pr = Min (op_max_fee_per_gas ` set ops)"
    "sat_add base_fee (pr_outer_tip pr) \<le> pr_outer_fee_cap pr"
    "\<exists>v v'. pv_base_fee (bd_provider b) v = Some (Inr base_fee, v')"
    "ops \<noteq> []" "opts_chain_id opts = cfg_chain_id (bd_cfg b)" "length ops \<le> cfg_max_batch_size (bd_cfg b)"
  using assms unfolding prepared_ok_def check_request_ok_iff choose_outer_fees_ok_iff
  by (elim exE conjE) (blast intro: that)

lemma prepared_fee_facts:
  assumes "prepared_ok ext b ops opts pr"
  shows "\<forall>op \<in> set ops. pr_outer_fee_cap pr \<le> op_max_fee_per_gas op \<and> pr_outer_tip pr \<le> op_max_priority_fee_per_gas op"
    and "\<exists>op \<in> set ops. pr_outer_fee_cap pr = op_max_fee_per_gas op"
    and "cfg_min_priority_fee_wei (bd_cfg b) \<le> pr_outer_tip pr"
    and "unat (pr_outer_fee_cap pr) < 2 ^ 128"
    and "\<exists>base_fee v v'. pv_base_fee (bd_provider b) v = Some (Inr base_fee, v')
           \<and> unat base_fee + unat (pr_outer_tip pr) \<le> unat (pr_outer_fee_cap pr)"
proof -
  from assms obtain base_fee suggested now ps w3 w4 where
    vet: "vetted_all b base_fee now ops ps (pr_user_op_hashes pr) w3 w4"
    and tip: "pr_outer_tip pr = min (max (cfg_min_priority_fee_wei (bd_cfg b)) suggested)
        (Min (op_max_priority_fee_per_gas ` set ops))"
    and cap: "pr_outer_fee_cap pr = Min (op_max_fee_per_gas ` set ops)"
    and sum: "sat_add base_fee (pr_outer_tip pr) \<le> pr_outer_fee_cap pr"
    and base: "\<exists>v v'. pv_base_fee (bd_provider b) v = Some (Inr base_fee, v')"
    and ne: "ops \<noteq> []"
    by (rule prepared_batch)
  show "\<forall>op \<in> set ops. pr_outer_fee_cap pr \<le> op_max_fee_per_gas op \<and> pr_outer_tip pr \<le> op_max_priority_fee_per_gas op"
    by (auto simp: tip cap intro: min.coboundedI2)
  have "Min (op_max_fee_per_gas ` set ops) \<in> op_max_fee_per_gas ` set ops"
    using ne by (intro Min_in) auto
  then obtain op where op: "op \<in> set ops" "pr_outer_fee_cap pr = op_max_fee_per_gas op"
    by (auto simp: cap)
  then show "\<exists>op \<in> set ops. pr_outer_fee_cap pr = op_max_fee_per_gas op" by blast
  show small: "unat (pr_outer_fee_cap pr) < 2 ^ 128"
    using vetted_all_fees [OF vet op(1)] packed_fees_small op(2) by auto
  have "cfg_min_priority_fee_wei (bd_cfg b) \<le> op_max_priority_fee_per_gas o'" if "o' \<in> set ops" for o'
    using vetted_all_fees [OF vet that] by (simp add: check_per_op_fees_ok_iff)
  then show "cfg_min_priority_fee_wei (bd_cfg b) \<le> pr_outer_tip pr"
    using ne by (auto simp: tip)
  from base sat_add_le_small [OF sum small]
  show "\<exists>base_fee v v'. pv_base_fee (bd_provider b) v = Some (Inr base_fee, v')
      \<and> unat base_fee + unat (pr_outer_tip pr) \<le> unat (pr_outer_fee_cap pr)" by blast
qed

lemma build_tx_outcome:
  "build_tx cfg pr nonce =
     (if 2 ^ 128 \<le> unat (pr_outer_fee_cap pr)
      then Inl (InvalidUserOp usize_max ''outer maxFeePerGas exceeds u128'')
      else if 2 ^ 128 \<le> unat (pr_outer_tip pr)
      then Inl (InvalidUserOp usize_max ''outer maxPriorityFeePerGas exceeds u128'')
      else Inr \<lparr> tx_chain_id = cfg_chain_id cfg, tx_nonce = nonce, tx_gas_limit = pr_gas pr,
                 tx_max_fee_per_gas = ucast (pr_outer_fee_cap pr),
                 tx_max_priority_fee_per_gas = ucast (pr_outer_tip pr),
                 tx_to = Call (cfg_entrypoint_address cfg), tx_value = 0, tx_access_list = [],
                 tx_input = pr_call_data pr \<rparr>)"
  by (simp add: build_tx_def u128_from_u256_def try_narrow_def)

lemma prepared_tip_small:
  assumes "prepared_ok ext b ops opts pr"
  shows "unat (pr_outer_tip pr) < 2 ^ 128"
  using prepared_fee_facts(4,5) [OF assms] by linarith

lemma prepared_builds_tx:
  assumes "prepared_ok ext b ops opts pr"
  shows "\<exists>tx. build_tx cfg pr nonce = Inr tx"
  using prepared_fee_facts(4) [OF assms] prepared_tip_small [OF assms] by (simp add: build_tx_outcome)

lemma unat_prefund_required:
  "unat (prefund_required op pm_ver pm_post) =
     min ((unat (op_verification_gas_limit op) + unat (op_call_gas_limit op) + unat pm_ver + unat pm_post
           + unat (op_pre_verification_gas op)) * unat (op_max_fee_per_gas op)) (2 ^ 256 - 1)"
proof -
  have chain: "min (min s m + x) m = min (s + x) m" for s x m :: nat by simp
  have mul: "min (min s m * f) m = min (s * f) m" for s f m :: nat
  proof (cases "s \<le> m \<or> f = 0")
    case False
    then have "min s m = m" "m \<le> m * f" by auto
    moreover from False have "m \<le> s * f" by (cases f) (auto intro: trans_le_add1)
    ultimately show ?thesis by (simp add: min.absorb2)
  qed auto
  show ?thesis
    by (simp add: prefund_required_def unat_sat_mul unat_sat_add chain mul del: min_less_iff_conj)
qed

section \<open>Successful builds\<close>

text \<open>
  C4. No user pays more than they signed for: the fee cap and the tip of the outer transaction
  are at most those of every bundled operation, and the fee cap is that of one of them.  The
  sequencer gets at least its configured tip, and the cap covers the base fee plus the tip.
\<close>

theorem build_respects_user_fees:
  assumes "build_inner ext b ops opts w = Some (Done resp, w')"
  shows "(\<forall>op \<in> set ops. resp_max_fee_per_gas resp \<le> op_max_fee_per_gas op
              \<and> resp_max_priority_fee_per_gas resp \<le> op_max_priority_fee_per_gas op)
     \<and> (\<exists>op \<in> set ops. resp_max_fee_per_gas resp = op_max_fee_per_gas op)
     \<and> cfg_min_priority_fee_wei (bd_cfg b) \<le> resp_max_priority_fee_per_gas resp
     \<and> (\<exists>base_fee v v'. pv_base_fee (bd_provider b) v = Some (Inr base_fee, v')
          \<and> unat base_fee + unat (resp_max_priority_fee_per_gas resp) \<le> unat (resp_max_fee_per_gas resp))"
proof -
  from assms obtain pr w1 where "prepare ext b ops opts w = Some (Done pr, w1)"
    and "resp_max_fee_per_gas resp = pr_outer_fee_cap pr" "resp_max_priority_fee_per_gas resp = pr_outer_tip pr"
    by (auto elim!: build_inner_Done simp: response_def)
  with prepared_fee_facts [OF prepare_Done [OF this(1)]] show ?thesis by simp
qed

theorem build_respects_user_fees_witness:
  "\<exists>resp w'. build_inner demo_externals demo_bundler [happy_op] (demo_opts False) default_mock = Some (Done resp, w')
     \<and> resp_max_fee_per_gas resp \<le> 5000000000 \<and> 1000000000 \<le> resp_max_priority_fee_per_gas resp"
proof -
  have "build_inner demo_externals demo_bundler [happy_op] (demo_opts False) default_mock
          = Some (Done (demo_resp TEST_NONCE), default_mock)"
    by (rule build_default_sign_only)
  from this build_respects_user_fees [OF this] show ?thesis
    by (auto simp: happy_op_def demo_bundler_def test_config_def)
qed

text \<open>
  C12. The response describes the transaction that was signed: raw bytes and hash are the
  envelope's, and the signed transaction calls the EntryPoint on the configured chain with no
  value, with the response's gas and fees at full precision, and with calldata that encodes
  \<open>handleOps\<close> of exactly the packed operations in request order, paying the sequencer.
\<close>

theorem build_signs_the_batch:
  assumes "build_inner ext b ops opts w = Some (Done resp, w')" and "signs_as_given (bd_signer b)"
  shows "\<exists>env ps. map pack ops = map Inr ps
     \<and> resp_raw resp = encoded_2718 (ext_consensus ext) env
     \<and> resp_hash resp = envelope_tx_hash (ext_consensus ext) env
     \<and> resp_to resp = cfg_entrypoint_address (bd_cfg b) \<and> resp_chain_id resp = cfg_chain_id (bd_cfg b)
     \<and> tx_chain_id (env_tx env) = cfg_chain_id (bd_cfg b)
     \<and> tx_to (env_tx env) = Call (cfg_entrypoint_address (bd_cfg b))
     \<and> tx_value (env_tx env) = 0 \<and> tx_access_list (env_tx env) = []
     \<and> unat (tx_gas_limit (env_tx env)) = unat (resp_gas resp)
     \<and> unat (tx_max_fee_per_gas (env_tx env)) = unat (resp_max_fee_per_gas resp)
     \<and> unat (tx_max_priority_fee_per_gas (env_tx env)) = unat (resp_max_priority_fee_per_gas resp)
     \<and> tx_input (env_tx env) = ext_handleOps_abi_encode ext
          \<lparr> ho_ops = ps, ho_beneficiary = sg_address (bd_signer b) \<rparr>"
proof -
  from assms(1) obtain pr nonce tx env w1 w2 w3 where
    pr: "prepare ext b ops opts w = Some (Done pr, w1)"
    and tx: "build_tx (bd_cfg b) pr nonce = Inr tx"
    and sig: "sg_sign_eip1559 (bd_signer b) tx w2 = Some (Inr env, w3)"
    and resp: "resp = response (bd_cfg b) pr (encoded_2718 (ext_consensus ext) env)
                        (envelope_tx_hash (ext_consensus ext) env)"
    by (rule build_inner_Done)
  from assms(2) sig have env: "env_tx env = tx" by (auto simp: signs_as_given_def)
  from prepare_Done [OF pr] have ok: "prepared_ok ext b ops opts pr" .
  then obtain base_fee now ps w4 w5 where
    vet: "vetted_all b base_fee now ops ps (pr_user_op_hashes pr) w4 w5"
    and cd: "pr_call_data pr = ext_handleOps_abi_encode ext \<lparr> ho_ops = ps, ho_beneficiary = sg_address (bd_signer b) \<rparr>"
    by (rule prepared_batch)
  from tx have eq: "tx = \<lparr> tx_chain_id = cfg_chain_id (bd_cfg b), tx_nonce = nonce, tx_gas_limit = pr_gas pr,
      tx_max_fee_per_gas = ucast (pr_outer_fee_cap pr), tx_max_priority_fee_per_gas = ucast (pr_outer_tip pr),
      tx_to = Call (cfg_entrypoint_address (bd_cfg b)), tx_value = 0, tx_access_list = [],
      tx_input = pr_call_data pr \<rparr>"
    by (simp add: build_tx_outcome split: if_splits)
  have "unat (ucast (pr_outer_fee_cap pr) :: u128) = unat (pr_outer_fee_cap pr)"
    using prepared_fee_facts(4) [OF ok] by (simp add: unat_ucast_small)
  moreover have "unat (ucast (pr_outer_tip pr) :: u128) = unat (pr_outer_tip pr)"
    using prepared_tip_small [OF ok] by (simp add: unat_ucast_small)
  ultimately show ?thesis
    using vetted_all_packs [OF vet]
    by (intro exI [of _ env] exI [of _ ps]) (simp add: env eq resp response_def unat_ucast_widen cd)
qed

lemma demo_signs_as_given: "signs_as_given demo_signer"
  unfolding demo_signer_def by (rule local_signer_signs_as_given) (simp add: keeps_tx_def demo_keys_def)

theorem build_signs_the_batch_witness:
  "\<exists>resp w' env ps. build_inner demo_externals demo_bundler [happy_op] (demo_opts False) default_mock = Some (Done resp, w')
     \<and> map pack [happy_op] = map Inr ps
     \<and> resp_raw resp = encoded_2718 demo_consensus env \<and> tx_to (env_tx env) = Call ENTRYPOINT_V07"
proof -
  have r: "build_inner demo_externals demo_bundler [happy_op] (demo_opts False) default_mock
          = Some (Done (demo_resp TEST_NONCE), default_mock)"
    by (rule build_default_sign_only)
  have "signs_as_given (bd_signer demo_bundler)" by (simp add: demo_bundler_def demo_signs_as_given)
  from build_signs_the_batch [OF r this] obtain env ps where "map pack [happy_op] = map Inr ps"
    "resp_raw (demo_resp TEST_NONCE) = encoded_2718 (ext_consensus demo_externals) env"
    "tx_to (env_tx env) = Call (cfg_entrypoint_address (bd_cfg demo_bundler))" by blast
  moreover have "ext_consensus demo_externals = demo_consensus"
      "cfg_entrypoint_address (bd_cfg demo_bundler) = ENTRYPOINT_V07"
    by (simp_all add: demo_externals_def demo_bundler_def test_config_def)
  ultimately show ?thesis using r by metis
qed

section \<open>Sign-only builds\<close>

lemma prepare_indep:
  "prepare ext (b\<lparr>bd_provider := (bd_provider b)
       \<lparr>pv_send_raw_transaction := s, pv_wait_for_receipt := r, pv_try_call_for_revert := t\<rparr>\<rparr>) ops opts
     = prepare ext b ops opts"
proof -
  let ?b = "b\<lparr>bd_provider := (bd_provider b)
       \<lparr>pv_send_raw_transaction := s, pv_wait_for_receipt := r, pv_try_call_for_revert := t\<rparr>\<rparr>"
  have one: "process_op ext ?b base_fee now i op bt = process_op ext b base_fee now i op bt" for base_fee now i op bt
    by (simp add: process_op_def check_prefund_def simulate_def)
  have all: "process_ops ext ?b base_fee now i ops' = process_ops ext b base_fee now i ops'"
    for base_fee now i ops'
    by (induction ops' arbitrary: i; intro ext) (simp_all add: one)
  show ?thesis by (simp add: prepare_def all price_batch_def handle_ops_call_data_def)
qed

text \<open>
  C26. A sign-only build never broadcasts: its result and its effect on the world are the same
  whatever the provider does on a broadcast, a receipt wait or a revert replay, so none of the
  three is called.
\<close>

theorem sign_only_never_broadcasts:
  assumes "\<not> opts_submit opts"
  shows "build_inner ext (b\<lparr>bd_provider := (bd_provider b)
       \<lparr>pv_send_raw_transaction := s, pv_wait_for_receipt := r, pv_try_call_for_revert := t\<rparr>\<rparr>) ops opts w
     = build_inner ext b ops opts w"
  using assms by (simp add: build_inner_def prepare_indep sign_at_nonce_def)

theorem sign_only_never_broadcasts_witness:
  "build_inner demo_externals (demo_bundler\<lparr>bd_provider := (bd_provider demo_bundler)
       \<lparr>pv_send_raw_transaction := \<lambda>_ _. None, pv_wait_for_receipt := \<lambda>_ _ _. None,
        pv_try_call_for_revert := \<lambda>_ _ _ _. None\<rparr>\<rparr>) [happy_op] (demo_opts False) default_mock
     = Some (Done (demo_resp TEST_NONCE), default_mock)"
proof -
  have "\<not> opts_submit (demo_opts False)" by (simp add: demo_opts_def)
  then show ?thesis
    unfolding sign_only_never_broadcasts [OF \<open>\<not> opts_submit (demo_opts False)\<close>]
    by (simp only: build_default_sign_only)
qed

section \<open>Errors\<close>

text \<open>
  A malformed request is refused before the execution layer is contacted: the build fails
  with the error of the first violated condition and leaves the world as it was.
\<close>

lemma malformed_request_refused:
  assumes "opts_chain_id opts \<noteq> cfg_chain_id (bd_cfg b) \<or> ops = [] \<or> cfg_max_batch_size (bd_cfg b) < length ops"
  shows "build_inner ext b ops opts w = Some (Fail
     (if opts_chain_id opts \<noteq> cfg_chain_id (bd_cfg b)
      then WrongChainId (cfg_chain_id (bd_cfg b)) (opts_chain_id opts)
      else if ops = [] then InvalidBatch ''empty userOps''
      else BatchTooLarge (length ops) (cfg_max_batch_size (bd_cfg b))), w)"
  using assms by (auto simp: build_inner_def prepare_def check_request_def)

text \<open>
  Once the batch is priced, the outer fees fit the 128-bit fields of the transaction, so the
  two narrowing conversions at the end of the pipeline cannot fail.
\<close>

lemma outer_fees_fit_u128:
  assumes "prepare ext b ops opts w = Some (Done pr, w')"
  shows "\<exists>tx. build_tx (bd_cfg b) pr nonce = Inr tx
     \<and> unat (tx_max_fee_per_gas tx) = unat (pr_outer_fee_cap pr)
     \<and> unat (tx_max_priority_fee_per_gas tx) = unat (pr_outer_tip pr)"
proof -
  from assms have ok: "prepared_ok ext b ops opts pr" by (rule prepare_Done)
  show ?thesis
    using prepared_fee_facts(4) [OF ok] prepared_tip_small [OF ok]
    by (simp add: build_tx_outcome unat_ucast_small)
qed

text \<open>
  A priority-fee rejection is true of the operation it names: the index is in range, every
  operation before it was vetted, its tip is below the configured minimum, and the two reported
  numbers are the tip and the minimum.
\<close>

lemma priority_fee_error_is_true:
  assumes "build_inner ext b ops opts w = Some (Fail (PriorityFeeTooLow i got least), w')"
  shows "i < length ops
     \<and> op_max_priority_fee_per_gas (ops ! i) < cfg_min_priority_fee_wei (bd_cfg b)
     \<and> radix_value 10 got = unat (op_max_priority_fee_per_gas (ops ! i))
     \<and> radix_value 10 least = unat (cfg_min_priority_fee_wei (bd_cfg b))
     \<and> (\<exists>base_fee now ps hs w1 w2. vetted_all b base_fee now (take i ops) ps hs w1 w2)"
proof -
  have "loop_error (PriorityFeeTooLow i got least)" by (simp add: loop_error_def)
  from build_inner_loop_error [OF assms this] obtain base_fee now k ps hs bt v0 v where
    k: "k < length ops" "vetted_all b base_fee now (take k ops) ps hs v0 v"
    and err: "process_op ext b base_fee now k (ops ! k) bt v = Some (Fail (PriorityFeeTooLow i got least), w')" by blast
  have num: "radix_value 10 (show_u256 x) = unat x" for x by (simp add: show_u256_def radix_value_string)
  from process_op_fee_error [OF err] k(1) show ?thesis
    using k(2) num by metis
qed

definition cheap_op :: UserOpV07 where
  "cheap_op = happy_op\<lparr>op_max_priority_fee_per_gas := 1\<rparr>"

lemma demo_happy_fees: "check_per_op_fees (bd_cfg demo_bundler) 0 happy_op TEST_BASE_FEE = Inr ()"
  by (simp add: check_per_op_fees_ok_iff demo_defs sat_add_def)

text \<open>A request of the tests whose first operation is refused.\<close>

lemma build_first_fails:
  assumes "process_op demo_externals demo_bundler TEST_BASE_FEE 1700000000 0 op empty_batch w = Some (Fail e, w')"
  shows "build_inner demo_externals demo_bundler [op] (demo_opts submit) w = Some (Fail e, w')"
proof -
  have "process_ops demo_externals demo_bundler TEST_BASE_FEE 1700000000 0 [op] empty_batch w = Some (Fail e, w')"
    using assms by (simp add: pbind_fails)
  moreover have "check_request (bd_cfg demo_bundler) [op] (demo_opts submit) = Inr ()"
    by (simp add: check_request_ok_iff demo_opts_def test_config_def demo_bundler_def)
  moreover have "pcall ProviderFailed (pv_base_fee (bd_provider demo_bundler)) v = Some (Done TEST_BASE_FEE, v)"
    "pcall ProviderFailed (pv_max_priority_fee (bd_provider demo_bundler)) v = Some (Done TEST_TIP, v)"
    "unix_now (ext_system_time demo_externals v) = 1700000000" for v
    by (simp_all add: demo_bundler_def mock_provider_def pcall_def demo_externals_def unix_now_def)
  ultimately show ?thesis
    by (simp add: build_inner_def prepare_def pbind_fails pbind_at pret_def)
qed

lemma build_cheap:
  "build_inner demo_externals demo_bundler [cheap_op] (demo_opts True) default_mock
     = Some (Fail (PriorityFeeTooLow 0 (show_u256 1) (show_u256 1000000000)), default_mock)"
  by (simp add: build_inner_def prepare_def process_op_def check_per_op_fees_def check_request_def cheap_op_def
      demo_defs prog_eval)

text \<open>
  C31. A deposit rejection is true of the operation it names: every operation before it was
  vetted, the sponsor is the one its paymaster data or sender determine, the execution layer
  reported a deposit below the required prefund, and the reported numbers are these two.
\<close>

theorem deposit_error_is_true:
  assumes "build_inner ext b ops opts w = Some (Fail (InsufficientDeposit i who required deposit), w')"
  shows "i < length ops
     \<and> (\<exists>base_fee now ps hs w1 w2 packed parsed sponsor pm_ver pm_post amount.
          vetted_all b base_fee now (take i ops) ps hs w1 w2
        \<and> pack (ops ! i) = Inr packed
        \<and> parse_paymaster_and_data (pk_paymasterAndData packed) = Inr parsed
        \<and> prefund_sponsor (ops ! i) parsed = (sponsor, pm_ver, pm_post)
        \<and> pv_balance_of (bd_provider b) (cfg_entrypoint_address (bd_cfg b)) sponsor w2 = Some (Inr amount, w')
        \<and> amount < prefund_required (ops ! i) pm_ver pm_post
        \<and> who = debug_address (ext_formats ext) sponsor
        \<and> radix_value 10 deposit = unat amount
        \<and> radix_value 10 required = unat (prefund_required (ops ! i) pm_ver pm_post))"
proof -
  have "loop_error (InsufficientDeposit i who required deposit)" by (simp add: loop_error_def)
  from build_inner_loop_error [OF assms this] obtain base_fee now k ps hs bt v0 v where
    k: "k < length ops" "vetted_all b base_fee now (take k ops) ps hs v0 v"
    and err: "process_op ext b base_fee now k (ops ! k) bt v
                = Some (Fail (InsufficientDeposit i who required deposit), w')" by blast
  have num: "radix_value 10 (show_u256 x) = unat x" for x by (simp add: show_u256_def radix_value_string)
  from process_op_deposit_error [OF err] k(1) show ?thesis
    using k(2) num by metis
qed

lemma build_poor:
  "build_inner demo_externals demo_bundler [happy_op] (demo_opts True) (default_mock\<lparr>mk_deposit := 1\<rparr>)
     = Some (Fail (InsufficientDeposit 0 (debug_address demo_formats 0x1111111111111111111111111111111111111111)
                     (show_u256 1250000000000000) (show_u256 1)), default_mock\<lparr>mk_deposit := 1\<rparr>)"
proof -
  let ?w = "default_mock\<lparr>mk_deposit := 1\<rparr>"
  have "check_prefund demo_externals demo_bundler 0 happy_op happy_packed ?w
      = Some (Fail (InsufficientDeposit 0 (debug_address demo_formats 0x1111111111111111111111111111111111111111)
                     (show_u256 1250000000000000) (show_u256 1)), ?w)"
    by (simp add: check_prefund_def happy_packed_def parse_outcome prefund_sponsor_def prefund_required_def
        sat_add_def sat_mul_def demo_defs prog_eval)
  then have "process_op demo_externals demo_bundler TEST_BASE_FEE 1700000000 0 happy_op empty_batch ?w
      = Some (Fail (InsufficientDeposit 0 (debug_address demo_formats 0x1111111111111111111111111111111111111111)
                     (show_u256 1250000000000000) (show_u256 1)), ?w)"
    using demo_happy_fees by (simp add: process_op_def pack_happy pbind_fails)
  then show ?thesis by (rule build_first_fails)
qed

theorem deposit_error_is_true_witness:
  "\<exists>sponsor pm_ver pm_post amount.
      amount < prefund_required ([happy_op] ! 0) pm_ver pm_post \<and> radix_value 10 (show_u256 1) = unat amount
    \<and> debug_address demo_formats 0x1111111111111111111111111111111111111111
        = debug_address (ext_formats demo_externals) sponsor"
  using deposit_error_is_true [OF build_poor] by blast

end
