(* ===== verification/Fee_Policy.thy ===== *)
theory Fee_Policy
  imports Pipeline_Properties
begin

text \<open>
  The money rules of \<open>bundler.rs\<close> as statements on natural numbers: the prefund check against the
  exact ERC-4337 formula, the gas margin, and when a batch that passed the per-operation checks
  can be priced.
\<close>

section \<open>Prefund\<close>

text \<open>
  Who pays for an operation, and the paymaster gas that counts: the paymaster in the first twenty
  bytes of a blob that is given ready-made, with the limits in the next two sixteen bytes, or else the
  paymaster field with its two limits; the sender, when there is no paymaster or it is zero.
\<close>

definition declared_paymaster :: "UserOpV07 \<Rightarrow> (address \<times> nat) option" where
  "declared_paymaster op =
     (let blob = op_paymaster_and_data op;
          (pm, gas) = (if blob \<noteq> []
            then (be_word (take 20 blob),
                  unat (be_word (take 16 (drop 20 blob)) :: u256) + unat (be_word (take 16 (drop 36 blob)) :: u256))
            else (case op_paymaster op of None \<Rightarrow> 0 | Some pm \<Rightarrow> pm,
                  unat (op_paymaster_verification_gas_limit op) + unat (op_paymaster_post_op_gas_limit op)))
      in if pm = 0 then None else Some (pm, gas))"

definition declared_sponsor :: "UserOpV07 \<Rightarrow> address" where
  "declared_sponsor op = (case declared_paymaster op of Some (pm, _) \<Rightarrow> pm | None \<Rightarrow> op_sender op)"

definition declared_paymaster_gas :: "UserOpV07 \<Rightarrow> nat" where
  "declared_paymaster_gas op = (case declared_paymaster op of Some (_, gas) \<Rightarrow> gas | None \<Rightarrow> 0)"

lemmas declared_defs = declared_sponsor_def declared_paymaster_gas_def declared_paymaster_def

definition canonical_prefund :: "UserOpV07 \<Rightarrow> nat" where
  "canonical_prefund op =
     (unat (op_verification_gas_limit op) + unat (op_call_gas_limit op) + declared_paymaster_gas op
      + unat (op_pre_verification_gas op)) * unat (op_max_fee_per_gas op)"

text \<open>A ready-made blob must hold the paymaster and the two limits.\<close>

definition blob_complete :: "UserOpV07 \<Rightarrow> bool" where
  "blob_complete op \<longleftrightarrow> op_paymaster_and_data op = [] \<or> 52 \<le> length (op_paymaster_and_data op)"

lemma packed_sponsor:
  assumes "pack op = Inr packed" and "blob_complete op"
  obtains parsed pm_ver pm_post where
    "parse_paymaster_and_data (pk_paymasterAndData packed) = Inr parsed"
    "prefund_sponsor op parsed = (declared_sponsor op, pm_ver, pm_post)"
    "unat pm_ver + unat pm_post = declared_paymaster_gas op"
proof (cases "builds_paymaster_blob op")
  case True
  then have blob: "pk_paymasterAndData packed = be_bytes 20 (the (op_paymaster op))
       @ be_bytes 16 (op_paymaster_verification_gas_limit op)
       @ be_bytes 16 (op_paymaster_post_op_gas_limit op) @ op_paymaster_data op"
    and "unat (op_paymaster_verification_gas_limit op) < 2 ^ 128"
    and "unat (op_paymaster_post_op_gas_limit op) < 2 ^ 128"
    using pack_fields(3) [OF assms(1)] by (auto simp: pack_paymaster_and_data_outcome not_le split: if_splits)
  with True show ?thesis
    by (intro that) (auto simp: parse_blob prefund_sponsor_def declared_defs builds_paymaster_blob_def Let_def)
next
  case False
  then have blob: "pk_paymasterAndData packed = op_paymaster_and_data op"
    using pack_fields(3) [OF assms(1)] by (simp add: pack_paymaster_and_data_outcome)
  show ?thesis
  proof (cases "op_paymaster_and_data op = []")
    case True
    with False have "declared_paymaster op = None"
      by (auto simp: declared_paymaster_def builds_paymaster_blob_def split: option.split)
    with True show ?thesis
      by (intro that [of None 0 0])
         (simp_all add: blob parse_outcome prefund_sponsor_def declared_sponsor_def declared_paymaster_gas_def)
  next
    case given: False
    let ?pm = "be_word (take 20 (op_paymaster_and_data op)) :: address"
    let ?ver = "be_word (take 16 (drop 20 (op_paymaster_and_data op))) :: u256"
    let ?post = "be_word (take 16 (drop 36 (op_paymaster_and_data op))) :: u256"
    have "parse_paymaster_and_data (pk_paymasterAndData packed) = Inr (Some (?pm, ?ver, ?post))"
      using given assms(2) by (simp add: blob parse_outcome blob_complete_def)
    with given show ?thesis
      by (intro that [of "Some (?pm, ?ver, ?post)" "if ?pm = 0 then 0 else ?ver" "if ?pm = 0 then 0 else ?post"])
         (simp_all add: prefund_sponsor_def declared_defs Let_def)
  qed
qed

lemma incomplete_blob:
  assumes "pack op = Inr packed" and "\<not> blob_complete op"
  shows "parse_paymaster_and_data (pk_paymasterAndData packed) = Inl (PaymasterAndDataTooShort (length (op_paymaster_and_data op)))"
  using assms(2) pack_fields(3) [OF assms(1)]
  by (auto simp: blob_complete_def pack_paymaster_and_data_outcome builds_paymaster_blob_def parse_outcome)

lemma unat_prefund_canonical:
  assumes "unat pm_ver + unat pm_post = declared_paymaster_gas op"
  shows "unat (prefund_required op pm_ver pm_post) = min (canonical_prefund op) (2 ^ 256 - 1)"
  using assms by (simp add: unat_prefund_required canonical_prefund_def add.assoc)

text \<open>
  C17. The prefund check is the canonical one, capped at the largest 256-bit amount: for every
  operation that packs it accepts exactly when a paymaster blob that is given ready-made is not too
  short, and the deposit that the EntryPoint holds for the paymaster, or for the sender when
  there is none, covers the sum of all gas limits times the fee cap, computed without wrap-around,
  or the largest 256-bit amount where that is less.
\<close>

theorem prefund_is_canonical:
  assumes "pack op = Inr packed"
  shows "check_prefund ext b i op packed w = Some (Done (), w') \<longleftrightarrow>
     blob_complete op
     \<and> (\<exists>deposit. pv_balance_of (bd_provider b) (cfg_entrypoint_address (bd_cfg b)) (declared_sponsor op) w
                  = Some (Inr deposit, w')
        \<and> min (canonical_prefund op) (2 ^ 256 - 1) \<le> unat deposit)"
proof (cases "blob_complete op")
  case True
  obtain parsed pm_ver pm_post where
    parse: "parse_paymaster_and_data (pk_paymasterAndData packed) = Inr parsed"
    and sponsor: "prefund_sponsor op parsed = (declared_sponsor op, pm_ver, pm_post)"
    and gas: "unat pm_ver + unat pm_post = declared_paymaster_gas op"
    by (rule packed_sponsor [OF assms True])
  from parse sponsor True show ?thesis
    by (simp add: check_prefund_Done_iff word_le_nat_alt unat_prefund_canonical [OF gas])
next
  case False
  with incomplete_blob [OF assms False] show ?thesis by (simp add: check_prefund_Done_iff)
qed

theorem prefund_is_canonical_witness:
  "\<not> check_prefund demo_externals demo_bundler 0 happy_op happy_packed (default_mock\<lparr>mk_deposit := 1\<rparr>)
       = Some (Done (), default_mock\<lparr>mk_deposit := 1\<rparr>)
   \<and> check_prefund demo_externals demo_bundler 0 happy_op happy_packed default_mock = Some (Done (), default_mock)"
proof -
  have "canonical_prefund happy_op = 1250000000000000" "blob_complete happy_op"
    by (simp_all add: canonical_prefund_def declared_defs blob_complete_def happy_op_def)
  then show ?thesis
    unfolding prefund_is_canonical [OF pack_happy] by (simp add: demo_bundler_def mock_provider_def TEST_DEPOSIT_def)
qed

section \<open>Gas margin\<close>

lemma unat_gas_with_margin:
  "unat (gas_with_margin estimated pct)
     = min (unat estimated + (unat estimated * unat pct) mod 2 ^ 64 div 100) (2 ^ 64 - 1)"
  by (simp add: gas_with_margin_def unat_sat_add unat_div unat_word_ariths unat_ucast_widen)

lemma wrapped_quotient_less:
  fixes n :: nat
  assumes "2 ^ 64 \<le> n"
  shows "n mod 2 ^ 64 div 100 < n div 100"
proof -
  have "n mod 2 ^ 64 + 2 ^ 64 \<le> n" 
    using le_mod_geq [OF assms] mod_less_eq_dividend [of "n - 2 ^ 64" "2 ^ 64"] assms by linarith
  then have "(n mod 2 ^ 64 + 100) div 100 \<le> n div 100" by (intro div_le_mono) simp
  then show ?thesis by simp
qed

text \<open>
  C33. The gas limit never drops below the node's estimate.  As long as estimate times percentage
  fits 64 bits it is the estimate plus exactly that percentage of it, rounded down and capped at
  the largest 64-bit value.  When that product wraps, the limit falls short of the estimate with
  its margin, even where the sum itself would have fitted 64 bits.
\<close>

theorem gas_margin_exact:
  "unat estimated \<le> unat (gas_with_margin estimated pct)
   \<and> (unat estimated * unat pct < 2 ^ 64 \<longrightarrow>
        unat (gas_with_margin estimated pct)
          = min (unat estimated + unat estimated * unat pct div 100) (2 ^ 64 - 1))
   \<and> (2 ^ 64 \<le> unat estimated * unat pct \<longrightarrow>
        unat (gas_with_margin estimated pct) < unat estimated + unat estimated * unat pct div 100)"
proof -
  have "unat estimated \<le> 2 ^ 64 - 1" using unsigned_less [of estimated, where 'a = nat] by simp
  then show ?thesis
    using wrapped_quotient_less [of "unat estimated * unat pct"] unfolding unat_gas_with_margin by (simp add: min_less_iff_disj)
qed

theorem gas_margin_exact_witness:
  "unat (gas_with_margin 250000 10) = 275000 \<and> unat (gas_with_margin (2 ^ 62) 100) < 2 ^ 63"
  using gas_margin_exact [of 250000 10] gas_margin_exact [of "2 ^ 62" 100] by simp

section \<open>Pricing of a vetted batch\<close>

lemma vetted_caps:
  assumes "\<forall>op \<in> set ops. check_per_op_fees cfg 0 op base_fee = Inr ()" and "ops \<noteq> []"
  shows "cfg_min_priority_fee_wei cfg \<le> Min (op_max_priority_fee_per_gas ` set ops)"
    and "sat_add base_fee (cfg_min_priority_fee_wei cfg) \<le> Min (op_max_fee_per_gas ` set ops)"
  using assms by (simp_all add: check_per_op_fees_ok_iff)

text \<open>
  A batch whose operations all passed the fee policy is priced whenever the network suggests
  no more than the configured minimum tip: the outer transaction then pays that minimum and caps
  its fee at the lowest cap of the batch.
\<close>

lemma vetted_batch_is_priced:
  assumes "\<forall>op \<in> set ops. check_per_op_fees cfg 0 op base_fee = Inr ()" and "ops \<noteq> []"
    and "suggested \<le> cfg_min_priority_fee_wei cfg"
  shows "choose_outer_fees cfg base_fee suggested
           (Min (op_max_priority_fee_per_gas ` set ops)) (Min (op_max_fee_per_gas ` set ops))
         = Inr (cfg_min_priority_fee_wei cfg, Min (op_max_fee_per_gas ` set ops))"
  using vetted_caps [OF assms(1,2)] assms(3)
  by (simp add: choose_outer_fees_ok_iff max_absorb1 min_absorb1)

text \<open>Where a fee-cap error that names no operation comes from.\<close>

lemma pricing_fee_cap_error:
  assumes "choose_outer_fees cfg base_fee suggested user_tip user_cap = Inl (FeeCapTooLow i cap required)"
  shows "user_cap < sat_add base_fee (min (max (cfg_min_priority_fee_wei cfg) suggested) user_tip)
     \<and> cap = show_u256 user_cap
     \<and> required = show_u256 (sat_add base_fee (min (max (cfg_min_priority_fee_wei cfg) suggested) user_tip))"
  using assms by (auto simp: choose_outer_fees_def Let_def min_max_u256 split: if_splits)

lemma process_op_fee_cap_error:
  "process_op ext b base_fee now i op bt w = Some (Fail (FeeCapTooLow j cap required), w') \<Longrightarrow> j = i"
  using process_op_Fail [of ext b base_fee now i op bt w "FeeCapTooLow j cap required" w']
  by (auto simp: check_per_op_fees_def check_prefund_Fail_iff Let_def split: if_splits)

lemma price_batch_fee_cap_error:
  assumes "price_batch ext b base_fee suggested bt w = Some (Fail (FeeCapTooLow i cap required), w')"
  shows "\<exists>user_tip user_cap. bt_min_user_tip bt = Some user_tip \<and> bt_min_user_fee_cap bt = Some user_cap
     \<and> choose_outer_fees (bd_cfg b) base_fee suggested user_tip user_cap = Inl (FeeCapTooLow i cap required)"
  using assms by (auto simp: price_batch_def pexpect_def prog_simps Let_def ppanic_def split: option.splits)

lemma build_fee_cap_error:
  assumes "build_inner ext b ops opts w = Some (Fail (FeeCapTooLow usize_max cap required), w')"
    and "length ops \<le> usize_max"
  obtains base_fee suggested now ps hs w1 w2 w3 where
    "pv_base_fee (bd_provider b) w = Some (Inr base_fee, w1)"
    "pv_max_priority_fee (bd_provider b) w1 = Some (Inr suggested, w2)"
    "vetted_all b base_fee now ops ps hs w2 w3" "ops \<noteq> []"
    "choose_outer_fees (bd_cfg b) base_fee suggested (Min (op_max_priority_fee_per_gas ` set ops))
       (Min (op_max_fee_per_gas ` set ops)) = Inl (FeeCapTooLow usize_max cap required)"
proof -
  have tx: "build_tx cfg pr nonce \<noteq> Inl (FeeCapTooLow usize_max cap required)" for cfg pr nonce
    by (simp add: build_tx_outcome)
  have wait: "await_receipt ext b pr hash v \<noteq> Some (Fail (FeeCapTooLow usize_max cap required), v')" for pr hash v v'
    by (auto simp: await_receipt_def prog_simps Let_def split: option.splits if_splits)
  from assms(1) have prep: "prepare ext b ops opts w = Some (Fail (FeeCapTooLow usize_max cap required), w')"
    by (auto simp: build_inner_def sign_at_nonce_def prog_simps Let_def tx wait split: if_splits)
  have loop: "process_ops ext b base_fee now 0 ops bt v \<noteq> Some (Fail (FeeCapTooLow usize_max cap required), v')"
    for base_fee now bt v v'
  proof
    assume "process_ops ext b base_fee now 0 ops bt v = Some (Fail (FeeCapTooLow usize_max cap required), v')"
    from process_ops_Fail [OF this] obtain k bt' u where "k < length ops"
      and "process_op ext b base_fee now k (ops ! k) bt' u = Some (Fail (FeeCapTooLow usize_max cap required), v')" by auto
    with process_op_fee_cap_error [OF this(2)] assms(2) show False by simp
  qed
  from prep loop obtain base_fee suggested w1 w2 ps hs w3 where
    req: "check_request (bd_cfg b) ops opts = Inr ()"
    and calls: "pv_base_fee (bd_provider b) w = Some (Inr base_fee, w1)"
      "pv_max_priority_fee (bd_provider b) w1 = Some (Inr suggested, w2)"
      "vetted_all b base_fee (unix_now (ext_system_time ext w2)) ops ps hs w2 w3"
    and price: "price_batch ext b base_fee suggested (batch_of ops ps hs) w3
                  = Some (Fail (FeeCapTooLow usize_max cap required), w')"
    by (auto simp: prepare_def prog_simps process_all_Done_iff check_request_def split: if_splits)
  from req have ne: "ops \<noteq> []" by (simp add: check_request_ok_iff)
  from price_batch_fee_cap_error [OF price] calls ne show ?thesis
    by (intro that) (auto simp: batch_of_mins [OF ne])
qed

text \<open>
  C34. The fee policy does not decide whether a batch can be priced.  When a build fails with a
  fee-cap error that names no operation, then every operation of the batch had passed the fee policy, and the
  whole vetting, against the base fee the node answered; the lowest cap of the batch covers
  the base fee plus the configured minimum tip, but not the base fee plus the outer tip, which the
  node's suggestion has raised above that minimum; and the two reported numbers are that cap and that sum.
\<close>

theorem vetted_batch_pricing_gap:
  assumes "build_inner ext b ops opts w = Some (Fail (FeeCapTooLow usize_max cap required), w')"
    and "length ops \<le> usize_max"
  shows "\<exists>base_fee suggested now ps hs w1 w2 w3 lowest tip.
       pv_base_fee (bd_provider b) w = Some (Inr base_fee, w1)
     \<and> pv_max_priority_fee (bd_provider b) w1 = Some (Inr suggested, w2)
     \<and> vetted_all b base_fee now ops ps hs w2 w3
     \<and> (\<forall>i < length ops. check_per_op_fees (bd_cfg b) i (ops ! i) base_fee = Inr ())
     \<and> lowest = Min (op_max_fee_per_gas ` set ops)
     \<and> tip = min suggested (Min (op_max_priority_fee_per_gas ` set ops))
     \<and> unat (cfg_min_priority_fee_wei (bd_cfg b)) < unat tip
     \<and> unat base_fee + unat (cfg_min_priority_fee_wei (bd_cfg b)) \<le> unat lowest
     \<and> unat lowest < unat base_fee + unat tip
     \<and> radix_value 10 cap = unat lowest \<and> radix_value 10 required = unat base_fee + unat tip"
proof -
  obtain base_fee suggested now ps hs w1 w2 w3 where
    calls: "pv_base_fee (bd_provider b) w = Some (Inr base_fee, w1)"
      "pv_max_priority_fee (bd_provider b) w1 = Some (Inr suggested, w2)"
    and vet: "vetted_all b base_fee now ops ps hs w2 w3" and ne: "ops \<noteq> []"
    and price: "choose_outer_fees (bd_cfg b) base_fee suggested (Min (op_max_priority_fee_per_gas ` set ops))
       (Min (op_max_fee_per_gas ` set ops)) = Inl (FeeCapTooLow usize_max cap required)"
    by (rule build_fee_cap_error [OF assms])
  let ?least = "cfg_min_priority_fee_wei (bd_cfg b)"
  let ?lowest = "Min (op_max_fee_per_gas ` set ops)" and ?user_tip = "Min (op_max_priority_fee_per_gas ` set ops)"
  let ?tip = "min (max ?least suggested) ?user_tip"
  from pricing_fee_cap_error [OF price] have low: "?lowest < sat_add base_fee ?tip"
    and shown: "cap = show_u256 ?lowest" "required = show_u256 (sat_add base_fee ?tip)" by blast+
  have fees: "\<forall>op \<in> set ops. check_per_op_fees (bd_cfg b) 0 op base_fee = Inr ()"
    using vetted_all_fees [OF vet] by blast
  note ok = vetted_caps [OF fees ne]
  have "?least \<noteq> ?tip" using ok(2) low by auto
  moreover have "?least \<le> ?tip" using ok(1) by simp
  ultimately have above: "?least < ?tip" by (rule order_le_neq_trans [rotated])
  then have "?least < suggested" by (auto simp: min_def max_def split: if_splits)
  then have tip: "?tip = min suggested ?user_tip" by (simp add: max_absorb2)
  have "?lowest \<in> op_max_fee_per_gas ` set ops" "?user_tip \<in> op_max_priority_fee_per_gas ` set ops"
    using ne by (auto intro!: Min_in)
  then have small: "unat ?lowest < 2 ^ 128" "unat ?user_tip < 2 ^ 128"
    using vetted_all_fees [OF vet] packed_fees_small by (metis image_iff)+
  have covers: "unat base_fee + unat ?least \<le> unat ?lowest" by (rule sat_add_le_small [OF ok(2) small(1)])
  have "unat ?tip \<le> unat ?user_tip" by (simp add: word_le_nat_alt [symmetric])
  then have sum: "unat (sat_add base_fee ?tip) = unat base_fee + unat ?tip"
    using covers small by (simp add: unat_sat_add min_absorb1)
  have each: "check_per_op_fees (bd_cfg b) i (ops ! i) base_fee = Inr ()" if "i < length ops" for i
    using fees nth_mem [OF that] by (auto simp: check_per_op_fees_ok_iff)
  have num: "radix_value 10 (show_u256 x) = unat x" for x by (simp add: show_u256_def radix_value_string)
  show ?thesis
  proof (intro exI conjI)
    show "pv_base_fee (bd_provider b) w = Some (Inr base_fee, w1)"
      "pv_max_priority_fee (bd_provider b) w1 = Some (Inr suggested, w2)" by (rule calls)+
    show "vetted_all b base_fee now ops ps hs w2 w3" by (rule vet)
    show "unat ?least < unat ?tip" using above by (simp add: word_less_nat_alt)
    show "unat ?lowest < unat base_fee + unat ?tip" using low by (simp add: word_less_nat_alt sum)
    show "radix_value 10 cap = unat ?lowest" by (simp only: shown num)
    show "radix_value 10 required = unat base_fee + unat ?tip" by (simp only: shown num sum)
  qed (use each in \<open>simp_all add: covers tip\<close>)
qed

text \<open>
  An operation whose cap covers a base fee and a minimum tip of one gwei each, but not the tip of two
  gwei that the node suggests.
\<close>

definition tight_op :: UserOpV07 where
  "tight_op = happy_op\<lparr>op_max_fee_per_gas := 2500000000\<rparr>"

definition eager_bundler :: "MockProvider Bundler" where
  "eager_bundler = demo_bundler\<lparr>bd_provider := (bd_provider demo_bundler)
     \<lparr>pv_max_priority_fee := \<lambda>w. Some (Inr 2000000000, w)\<rparr>\<rparr>"

lemma build_tight:
  "build_inner demo_externals eager_bundler [tight_op] (demo_opts True) default_mock
     = Some (Fail (FeeCapTooLow usize_max (show_u256 2500000000) (show_u256 3000000000)), default_mock)"
proof -
  let ?packed = "happy_packed\<lparr>pk_gasFees := push_bit 128 2000000000 OR 2500000000\<rparr>"
  have pack: "pack tight_op = Inr ?packed"
    by (simp add: pack_def pack_init_code_def pack_paymaster_and_data_def pack_pair_cases happy_op_def tight_op_def
        happy_packed_def)
  have "check_per_op_fees test_config 0 tight_op TEST_BASE_FEE = Inr ()"
    by (simp add: check_per_op_fees_ok_iff tight_op_def demo_defs sat_add_def)
  moreover have "prefund_required tight_op 0 0 \<le> TEST_DEPOSIT"
    by (simp add: prefund_required_def tight_op_def demo_defs sat_add_def sat_mul_def)
  moreover have "parse_paymaster_and_data (pk_paymasterAndData ?packed) = Inr None"
    by (simp add: happy_packed_def parse_outcome)
  ultimately have "vetted eager_bundler TEST_BASE_FEE 1700000000 tight_op ?packed TEST_USER_OP_HASH default_mock default_mock"
    by (auto simp: vetted_def pack prefund_sponsor_def simulate_Done_iff demo_admits eager_bundler_def demo_bundler_def
        mock_provider_def mock_validation_def default_mock_def)
  then have "process_ops demo_externals eager_bundler TEST_BASE_FEE 1700000000 0 [tight_op] empty_batch default_mock
          = Some (Done (batch_of [tight_op] [?packed] [TEST_USER_OP_HASH]), default_mock)"
    unfolding process_all_Done_iff by (intro exI [of _ "[?packed]"] exI [of _ "[TEST_USER_OP_HASH]"]) simp
  moreover have "price_batch demo_externals eager_bundler TEST_BASE_FEE 2000000000
        (batch_of [tight_op] [?packed] [TEST_USER_OP_HASH]) default_mock
      = Some (Fail (FeeCapTooLow usize_max (show_u256 2500000000) (show_u256 3000000000)), default_mock)"
    by (simp add: price_batch_def batch_of_def update_min_def pexpect_def choose_outer_fees_def min_u256_def
        max_u256_def sat_add_def handle_ops_call_data_def gas_with_margin_def tight_op_def eager_bundler_def demo_defs
        prog_eval)
  ultimately have "prepare demo_externals eager_bundler [tight_op] (demo_opts True) default_mock
      = Some (Fail (FeeCapTooLow usize_max (show_u256 2500000000) (show_u256 3000000000)), default_mock)"
    by (simp add: prepare_def prog_simps check_request_def demo_opts_def unix_now_def)
       (simp add: eager_bundler_def demo_bundler_def mock_provider_def test_config_def demo_externals_def prog_simps)
  then show ?thesis by (simp add: build_inner_def pbind_fails)
qed

theorem vetted_batch_pricing_gap_witness:
  "\<exists>base_fee tip. check_per_op_fees test_config 0 tight_op base_fee = Inr ()
     \<and> 2500000000 < unat base_fee + unat (tip :: u256) \<and> unat base_fee + unat (cfg_min_priority_fee_wei test_config) \<le> 2500000000"
proof -
  have "length [tight_op] \<le> usize_max" by (simp add: usize_max_def)
  from vetted_batch_pricing_gap [OF build_tight this] obtain base_fee tip where
    "check_per_op_fees (bd_cfg eager_bundler) 0 ([tight_op] ! 0) base_fee = Inr ()"
    "unat base_fee + unat (cfg_min_priority_fee_wei (bd_cfg eager_bundler)) \<le> unat (Min (op_max_fee_per_gas ` set [tight_op]))"
    "unat (Min (op_max_fee_per_gas ` set [tight_op])) < unat base_fee + unat (tip :: u256)"
    by (metis length_Cons zero_less_Suc)
  moreover have "bd_cfg eager_bundler = test_config" by (simp add: eager_bundler_def demo_bundler_def)
  moreover have "unat (op_max_fee_per_gas tight_op) = 2500000000" by (simp add: tight_op_def)
  ultimately show ?thesis by (intro exI [of _ base_fee] exI [of _ tip]) auto
qed

end
