(* ===== verification/Build_Task.thy ===== *)
theory Build_Task
  imports Fee_Policy
begin

text \<open>
  The build as an asynchronous task.  A task is a tree of await points: it has returned, it waits
  for a call, it waits for the submit lock, or it is about to drop the lock guard.  The task of a
  request has the await points of \<open>build_inner\<close> in the order of the source.  Running a task alone,
  from one await point to the next, gives exactly the direct-style pipeline of \<open>Bundler\<close>, so the
  properties of the pipeline are properties of the task.

  A read of the system clock and the signature are await points as well: a runtime may interleave
  other tasks there, which changes nothing that the task can observe of itself.
\<close>

section \<open>Tasks\<close>

datatype ('w, 'e, 'a) task =
    Return "('e, 'a) flow"
  | Await "'w \<Rightarrow> (('w, 'e, 'a) task \<times> 'w) option"
  | Acquire "('w, 'e, 'a) task"
  | Release "('w, 'e, 'a) task"

primrec tbind :: "('w, 'e, 'a) task \<Rightarrow> ('a \<Rightarrow> ('w, 'e, 'b) task) \<Rightarrow> ('w, 'e, 'b) task" where
  "tbind (Return r) k = (case r of Done x \<Rightarrow> k x | Fail e \<Rightarrow> Return (Fail e) | Panic s \<Rightarrow> Return (Panic s))"
| "tbind (Await f) k = Await (map_option (map_prod (\<lambda>t. tbind t k) id) \<circ> f)"
| "tbind (Acquire t) k = Acquire (tbind t k)"
| "tbind (Release t) k = Release (tbind t k)"

definition tret :: "'a \<Rightarrow> ('w, 'e, 'a) task" where
  "tret x = Return (Done x)"

definition tfail :: "'e \<Rightarrow> ('w, 'e, 'a) task" where
  "tfail e = Return (Fail e)"

definition tlift :: "'e + 'a \<Rightarrow> ('w, 'e, 'a) task" where
  "tlift r = (case r of Inl e \<Rightarrow> tfail e | Inr x \<Rightarrow> tret x)"

definition tcall :: "('f \<Rightarrow> 'e) \<Rightarrow> ('w \<Rightarrow> (('f + 'a) \<times> 'w) option) \<Rightarrow> ('w, 'e, 'a) task" where
  "tcall conv m = Await (\<lambda>w. map_option (\<lambda>(r, w'). (tlift (map_sum conv id r), w')) (m w))"

definition tread :: "('w \<Rightarrow> 'a) \<Rightarrow> ('w, 'e, 'a) task" where
  "tread f = Await (\<lambda>w. Some (tret (f w), w))"

definition texpect :: "string \<Rightarrow> 'a option \<Rightarrow> ('w, 'e, 'a) task" where
  "texpect msg v = (case v of Some x \<Rightarrow> tret x | None \<Rightarrow> Return (Panic msg))"

text \<open>A task on its own: every call is answered in turn and the lock is free.\<close>

primrec run :: "('w, 'e, 'a) task \<Rightarrow> ('w, 'e, 'a) prog" where
  "run (Return r) = (\<lambda>w. Some (r, w))"
| "run (Await f) = (\<lambda>w. case (map_option (map_prod run id) \<circ> f) w of None \<Rightarrow> None | Some (g, w') \<Rightarrow> g w')"
| "run (Acquire t) = run t"
| "run (Release t) = run t"

lemma run_Await: "run (Await f) w = (case f w of None \<Rightarrow> None | Some (t, w') \<Rightarrow> run t w')"
  by (simp split: option.splits)

declare run.simps(2) [simp del]

lemma task_induct [case_names Return Await Acquire Release, induct type: task]:
  assumes "\<And>r. P (Return r)"
    and "\<And>f. (\<And>w t w'. f w = Some (t, w') \<Longrightarrow> P t) \<Longrightarrow> P (Await f)"
    and "\<And>t. P t \<Longrightarrow> P (Acquire t)" and "\<And>t. P t \<Longrightarrow> P (Release t)"
  shows "P t"
proof (induction t rule: task.induct)
  case (Await f)
  have "P t" if "f w = Some (t, w')" for w t w'
    by (rule Await [of "f w" "(t, w')"]) (use that in \<open>auto intro: range_eqI [of _ _ w]\<close>)
  then show ?case by (rule assms(2))
qed (use assms in blast)+

lemma run_tbind [simp]: "run (tbind t k) = pbind (run t) (\<lambda>x. run (k x))"
proof (induction t)
  case (Return r)
  show ?case by (cases r) (auto simp: pbind_def fun_eq_iff)
next
  case (Await f)
  show ?case
  proof
    fix w
    show "run (tbind (Await f) k) w = pbind (run (Await f)) (\<lambda>x. run (k x)) w"
      using Await [of w] by (cases "f w") (auto simp: run_Await pbind_def)
  qed
qed simp_all

lemma run_simps [simp]:
  "run (tret x) = pret x" "run (tfail e) = pfail e" "run (tlift r) = plift r"
  "run (tcall conv m) = pcall conv m" "run (tread f) = (\<lambda>w. pret (f w) w)"
  "run (texpect msg v) = pexpect msg v"
  by (auto simp: tret_def tfail_def tlift_def tcall_def tread_def texpect_def run_Await fun_eq_iff pret_def pfail_def
      plift_def pcall_def pexpect_def ppanic_def map_sum_def split: sum.splits option.splits)

section \<open>The build task\<close>

definition simulate_task ::
  "'w EthProvider \<Rightarrow> address \<Rightarrow> bytes \<Rightarrow> PackedUserOperation \<Rightarrow> u64 \<Rightarrow> ('w, BundlerError, ValidationReport) task" where
  "simulate_task provider entrypoint simulations_code op now_unix =
     tbind (tcall (Validation \<circ> ValidationProvider) (pv_simulate_validation provider entrypoint simulations_code op))
       (\<lambda>raw. tlift (map_sum Validation id (judge now_unix raw)))"

definition check_prefund_task ::
  "'w externals \<Rightarrow> 'w Bundler \<Rightarrow> usize \<Rightarrow> UserOpV07 \<Rightarrow> PackedUserOperation \<Rightarrow> ('w, BundlerError, unit) task" where
  "check_prefund_task ext b i op packed =
     tbind (tlift (map_sum Pack id (parse_paymaster_and_data (pk_paymasterAndData packed)))) (\<lambda>parsed.
     case prefund_sponsor op parsed of (sponsor, pm_ver, pm_post) \<Rightarrow>
     let required = prefund_required op pm_ver pm_post in
     tbind (tcall ProviderFailed (pv_balance_of (bd_provider b) (cfg_entrypoint_address (bd_cfg b)) sponsor)) (\<lambda>deposit.
     if deposit < required
     then tfail (InsufficientDeposit i (debug_address (ext_formats ext) sponsor)
                   (show_u256 required) (show_u256 deposit))
     else tret ()))"

definition process_op_task ::
  "'w externals \<Rightarrow> 'w Bundler \<Rightarrow> u256 \<Rightarrow> u64 \<Rightarrow> usize \<Rightarrow> UserOpV07 \<Rightarrow> batch \<Rightarrow> ('w, BundlerError, batch) task" where
  "process_op_task ext b base_fee now_unix i op bt =
     tbind (tlift (check_per_op_fees (bd_cfg b) i op base_fee)) (\<lambda>_.
     tbind (tlift (map_sum Pack id (pack op))) (\<lambda>packed.
     tbind (check_prefund_task ext b i op packed) (\<lambda>_.
     tbind (simulate_task (bd_provider b) (cfg_entrypoint_address (bd_cfg b)) (bd_simulations_code b) packed now_unix) (\<lambda>_.
     tbind (tcall ProviderFailed (pv_user_op_hash (bd_provider b) (cfg_entrypoint_address (bd_cfg b)) packed)) (\<lambda>hash.
     tret (batch_push bt op packed hash))))))"

fun process_ops_task ::
  "'w externals \<Rightarrow> 'w Bundler \<Rightarrow> u256 \<Rightarrow> u64 \<Rightarrow> usize \<Rightarrow> UserOpV07 list \<Rightarrow> batch \<Rightarrow> ('w, BundlerError, batch) task" where
  "process_ops_task ext b base_fee now_unix i [] bt = tret bt"
| "process_ops_task ext b base_fee now_unix i (op # ops) bt =
     tbind (process_op_task ext b base_fee now_unix i op bt) (\<lambda>bt'.
     process_ops_task ext b base_fee now_unix (Suc i) ops bt')"

definition price_batch_task ::
  "'w externals \<Rightarrow> 'w Bundler \<Rightarrow> u256 \<Rightarrow> u256 \<Rightarrow> batch \<Rightarrow> ('w, BundlerError, prepared) task" where
  "price_batch_task ext b base_fee suggested_tip bt =
     (let call_data = handle_ops_call_data ext b bt in
      tbind (tcall ProviderFailed
               (pv_estimate_handle_ops_gas (bd_provider b) (sg_address (bd_signer b))
                  (cfg_entrypoint_address (bd_cfg b)) call_data)) (\<lambda>estimated.
      let gas = gas_with_margin estimated (cfg_gas_margin_pct (bd_cfg b)) in
      tbind (texpect ''non-empty batch'' (bt_min_user_tip bt)) (\<lambda>min_user_tip.
      tbind (texpect ''non-empty batch'' (bt_min_user_fee_cap bt)) (\<lambda>min_user_fee_cap.
      tbind (tlift (choose_outer_fees (bd_cfg b) base_fee suggested_tip min_user_tip min_user_fee_cap)) (\<lambda>(outer_tip, outer_fee_cap).
      tret \<lparr> pr_call_data = call_data, pr_gas = gas, pr_outer_tip = outer_tip,
             pr_outer_fee_cap = outer_fee_cap, pr_user_op_hashes = bt_user_op_hashes bt \<rparr>)))))"

definition prepare_task ::
  "'w externals \<Rightarrow> 'w Bundler \<Rightarrow> UserOpV07 list \<Rightarrow> BuildOpts \<Rightarrow> ('w, BundlerError, prepared) task" where
  "prepare_task ext b ops opts =
     tbind (tlift (check_request (bd_cfg b) ops opts)) (\<lambda>_.
     tbind (tcall ProviderFailed (pv_base_fee (bd_provider b))) (\<lambda>base_fee.
     tbind (tcall ProviderFailed (pv_max_priority_fee (bd_provider b))) (\<lambda>suggested_tip.
     tbind (tread (\<lambda>w. unix_now (ext_system_time ext w))) (\<lambda>now_unix.
     tbind (process_ops_task ext b base_fee now_unix 0 ops empty_batch) (\<lambda>bt.
     price_batch_task ext b base_fee suggested_tip bt)))))"

definition sign_task :: "'w Bundler \<Rightarrow> prepared \<Rightarrow> u64 \<Rightarrow> ('w, BundlerError, TxEnvelope) task" where
  "sign_task b pr nonce =
     tbind (tlift (build_tx (bd_cfg b) pr nonce)) (\<lambda>tx. tcall SignerFailed (sg_sign_eip1559 (bd_signer b) tx))"

definition await_receipt_task ::
  "'w externals \<Rightarrow> 'w Bundler \<Rightarrow> prepared \<Rightarrow> b256 \<Rightarrow> ('w, BundlerError, unit) task" where
  "await_receipt_task ext b pr hash =
     tbind (tcall ProviderFailed (pv_wait_for_receipt (bd_provider b) hash RECEIPT_TIMEOUT)) (\<lambda>waited.
     case waited of
       None \<Rightarrow> tfail (ReceiptTimeout hash)
     | Some receipt \<Rightarrow>
         if rcpt_success receipt then tret ()
         else
           tbind (tcall ProviderFailed
                    (pv_try_call_for_revert (bd_provider b) (sg_address (bd_signer b))
                       (cfg_entrypoint_address (bd_cfg b)) (pr_call_data pr))) (\<lambda>revert.
           let reason = (case revert of
                           Some data \<Rightarrow> decode_handle_ops_revert (ext_abi_errors ext) data
                         | None \<Rightarrow> Unknown [])
           in tfail (HandleOpsReverted hash (rcpt_block_number receipt) reason)))"

text \<open>
  From the nonce on.  In submit mode the guard is taken before the nonce is read and dropped
  right after the broadcast; an error in between drops it when the task ends.
\<close>

definition send_task ::
  "'w externals \<Rightarrow> 'w Bundler \<Rightarrow> prepared \<Rightarrow> TxEnvelope \<Rightarrow> ('w, BundlerError, SignedTxResp) task" where
  "send_task ext b pr envelope =
     (let raw = encoded_2718 (ext_consensus ext) envelope;
          hash = envelope_tx_hash (ext_consensus ext) envelope in
      tbind (tcall ProviderFailed (pv_send_raw_transaction (bd_provider b) raw)) (\<lambda>submitted.
      Release (tbind (await_receipt_task ext b pr hash) (\<lambda>_.
      tret (response (bd_cfg b) pr raw hash)))))"

definition finish_task ::
  "'w externals \<Rightarrow> 'w Bundler \<Rightarrow> BuildOpts \<Rightarrow> prepared \<Rightarrow> ('w, BundlerError, SignedTxResp) task" where
  "finish_task ext b opts pr =
     (let nonce_call = tcall ProviderFailed (pv_pending_nonce (bd_provider b) (sg_address (bd_signer b))) in
      if opts_submit opts then
        Acquire (tbind nonce_call (\<lambda>nonce. tbind (sign_task b pr nonce) (\<lambda>envelope. send_task ext b pr envelope)))
      else
        tbind nonce_call (\<lambda>nonce. tbind (sign_task b pr nonce) (\<lambda>envelope.
        tret (response (bd_cfg b) pr (encoded_2718 (ext_consensus ext) envelope)
                (envelope_tx_hash (ext_consensus ext) envelope)))))"

definition build_task ::
  "'w externals \<Rightarrow> 'w Bundler \<Rightarrow> UserOpV07 list \<Rightarrow> BuildOpts \<Rightarrow> ('w, BundlerError, SignedTxResp) task" where
  "build_task ext b ops opts = tbind (prepare_task ext b ops opts) (finish_task ext b opts)"

section \<open>A task alone is the pipeline\<close>

lemma simulate_judge:
  "pmap_err Validation (simulate pv entrypoint code op now) =
     pbind (pcall (Validation \<circ> ValidationProvider) (pv_simulate_validation pv entrypoint code op))
       (\<lambda>raw. plift (map_sum Validation id (judge now raw)))"
proof
  fix w
  show "pmap_err Validation (simulate pv entrypoint code op now) w =
     pbind (pcall (Validation \<circ> ValidationProvider) (pv_simulate_validation pv entrypoint code op))
       (\<lambda>raw. plift (map_sum Validation id (judge now raw))) w"
    by (cases "pv_simulate_validation pv entrypoint code op w")
       (auto simp: simulate_def pmap_err_def pbind_def pcall_def plift_def pret_def pfail_def split: sum.splits)
qed

lemma run_check_prefund [simp]: "run (check_prefund_task ext b i op packed) = check_prefund ext b i op packed"
  by (simp add: check_prefund_task_def check_prefund_def Let_def if_distrib [of run] prod.case_distrib [of run] cong: if_cong)

lemma run_process_op [simp]: "run (process_op_task ext b base_fee now i op bt) = process_op ext b base_fee now i op bt"
  by (simp add: process_op_task_def process_op_def simulate_task_def simulate_judge)

lemma run_process_ops [simp]:
  "run (process_ops_task ext b base_fee now i ops bt) = process_ops ext b base_fee now i ops bt"
  by (induction ops arbitrary: i bt) simp_all

lemma run_prepare [simp]: "run (prepare_task ext b ops opts) = prepare ext b ops opts"
proof -
  have "run (price_batch_task ext b base_fee suggested bt) = price_batch ext b base_fee suggested bt"
    for base_fee suggested bt
    by (simp add: price_batch_task_def price_batch_def Let_def case_prod_unfold)
  then show ?thesis by (simp add: prepare_task_def prepare_def)
qed

lemma run_await_receipt [simp]: "run (await_receipt_task ext b pr hash) = await_receipt ext b pr hash"
  by (simp add: await_receipt_task_def await_receipt_def Let_def if_distrib [of run] option.case_distrib [of run]
      cong: if_cong option.case_cong)

lemma run_build: "run (build_task ext b ops opts) = build_inner ext b ops opts"
  by (cases "opts_submit opts")
     (simp_all add: build_task_def finish_task_def send_task_def sign_task_def build_inner_def sign_at_nonce_def
      Let_def pbind_assoc)

end
