(* ===== verification/Submit_Pool.thy ===== *)
theory Submit_Pool
  imports Build_Task
begin

text \<open>
  Concurrent builds over one bundler: the requests the server has accepted, the submit lock, and
  the cancellation token.  A step is one poll of one task up to its next await point, the arrival
  of a request, a change of the outside world, or the cancellation.  \<open>build_signed_user_ops_tx\<close>
  races the build against the token with the token first, and looks at the token once per poll.  A
  poll that begins after the cancellation therefore ends the build, while the builds that are in
  the middle of a poll when the token fires, recorded in \<open>pl_polled\<close>, may pass further await points
  that are ready, the lock among them, before they yield.  A call that is still under way at the
  cancellation may take effect all the same, and its answer is dropped.  A task that ends, in
  whatever way, drops the lock guard it holds.

  A call of the provider or the signer is one step of the model, the receipt wait included: the
  traits promise its answer and its effect as a whole, and no argument below uses more of the
  receipt wait than its whole effect.  \<open>Alloy_Provider\<close> opens that call up.
\<close>

section \<open>Jobs, pool and steps\<close>

datatype 'w job =
    Queued "UserOpV07 list" BuildOpts
  | Running "('w, BundlerError, SignedTxResp) task"
  | Finished "(BundlerError, SignedTxResp) flow"

record 'w pool =
  pl_world :: 'w
  pl_lock :: "nat option"
  pl_jobs :: "'w job list"
  pl_cancelled :: bool
  pl_polled :: "nat set"

text \<open>The token stops a build that is not in the middle of a poll.\<close>

definition may_go :: "'w pool \<Rightarrow> nat \<Rightarrow> bool" where
  "may_go p i \<longleftrightarrow> \<not> pl_cancelled p \<or> i \<in> pl_polled p"

lemma may_go_live [simp, intro]: "\<not> pl_cancelled p \<Longrightarrow> may_go p i"
  by (simp add: may_go_def)

definition drop_guard :: "nat \<Rightarrow> nat option \<Rightarrow> nat option" where
  "drop_guard i lock = (if lock = Some i then None else lock)"

lemma drop_guard_iff: "k \<noteq> i \<Longrightarrow> drop_guard i lk = Some k \<longleftrightarrow> lk = Some k" "drop_guard i lk \<noteq> Some i"
  by (auto simp: drop_guard_def)

definition awaits :: "('w, 'e, 'a) task \<Rightarrow> bool" where
  "awaits t = (case t of Await _ \<Rightarrow> True | Acquire _ \<Rightarrow> True | _ \<Rightarrow> False)"

inductive pool_step ::
  "'w externals \<Rightarrow> 'w Bundler \<Rightarrow> ('w \<Rightarrow> 'w \<Rightarrow> bool) \<Rightarrow> 'w pool \<Rightarrow> 'w pool \<Rightarrow> bool"
  for ext :: "'w externals" and b :: "'w Bundler" and env :: "'w \<Rightarrow> 'w \<Rightarrow> bool" where
  arrive: "pool_step ext b env p (p\<lparr>pl_jobs := pl_jobs p @ [Queued ops opts]\<rparr>)"
| start: "i < length (pl_jobs p) \<Longrightarrow> pl_jobs p ! i = Queued ops opts \<Longrightarrow> \<not> pl_cancelled p \<Longrightarrow>
    pool_step ext b env p (p\<lparr>pl_jobs := (pl_jobs p)[i := Running (build_task ext b ops opts)]\<rparr>)"
| refuse: "i < length (pl_jobs p) \<Longrightarrow> pl_jobs p ! i = Queued ops opts \<Longrightarrow> pl_cancelled p \<Longrightarrow>
    pool_step ext b env p (p\<lparr>pl_jobs := (pl_jobs p)[i := Finished (Fail Cancelled)]\<rparr>)"
| answer: "i < length (pl_jobs p) \<Longrightarrow> pl_jobs p ! i = Running (Await f) \<Longrightarrow> may_go p i \<Longrightarrow>
    f (pl_world p) = Some (t, w') \<Longrightarrow>
    pool_step ext b env p (p\<lparr>pl_world := w', pl_jobs := (pl_jobs p)[i := Running t]\<rparr>)"
| lock: "i < length (pl_jobs p) \<Longrightarrow> pl_jobs p ! i = Running (Acquire t) \<Longrightarrow> may_go p i \<Longrightarrow>
    pl_lock p = None \<Longrightarrow>
    pool_step ext b env p (p\<lparr>pl_lock := Some i, pl_jobs := (pl_jobs p)[i := Running t]\<rparr>)"
| unlock: "i < length (pl_jobs p) \<Longrightarrow> pl_jobs p ! i = Running (Release t) \<Longrightarrow>
    pool_step ext b env p (p\<lparr>pl_lock := drop_guard i (pl_lock p), pl_jobs := (pl_jobs p)[i := Running t]\<rparr>)"
| finish: "i < length (pl_jobs p) \<Longrightarrow> pl_jobs p ! i = Running (Return r) \<Longrightarrow>
    pool_step ext b env p (p\<lparr>pl_lock := drop_guard i (pl_lock p), pl_jobs := (pl_jobs p)[i := Finished r]\<rparr>)"
| cancel: "\<not> pl_cancelled p \<Longrightarrow> polled \<subseteq> {..<length (pl_jobs p)} \<Longrightarrow>
    pool_step ext b env p (p\<lparr>pl_cancelled := True, pl_polled := polled\<rparr>)"
| abort: "i < length (pl_jobs p) \<Longrightarrow> pl_jobs p ! i = Running t \<Longrightarrow> awaits t \<Longrightarrow> pl_cancelled p \<Longrightarrow>
    pool_step ext b env p
      (p\<lparr>pl_lock := drop_guard i (pl_lock p), pl_jobs := (pl_jobs p)[i := Finished (Fail Cancelled)]\<rparr>)"
| late: "i < length (pl_jobs p) \<Longrightarrow> pl_jobs p ! i = Running (Await f) \<Longrightarrow> pl_cancelled p \<Longrightarrow>
    f (pl_world p) = Some (t, w') \<Longrightarrow>
    pool_step ext b env p
      (p\<lparr>pl_world := w', pl_lock := drop_guard i (pl_lock p), pl_jobs := (pl_jobs p)[i := Finished (Fail Cancelled)]\<rparr>)"
| outside: "env (pl_world p) w' \<Longrightarrow> pool_step ext b env p (p\<lparr>pl_world := w'\<rparr>)"

definition idle_pool :: "'w \<Rightarrow> 'w pool" where
  "idle_pool w = \<lparr> pl_world = w, pl_lock = None, pl_jobs = [], pl_cancelled = False, pl_polled = {} \<rparr>"

text \<open>Requests are never forgotten.\<close>

lemma jobs_never_shrink: "pool_step ext b env p p' \<Longrightarrow> length (pl_jobs p) \<le> length (pl_jobs p')"
  by (induction rule: pool_step.induct) auto

lemma run_never_shrinks: "(pool_step ext b env)\<^sup>*\<^sup>* p p' \<Longrightarrow> length (pl_jobs p) \<le> length (pl_jobs p')"
  by (induction rule: rtranclp_induct) (auto dest: jobs_never_shrink)

text \<open>The token is never withdrawn.\<close>

lemma cancelled_stays: "pool_step ext b env p p' \<Longrightarrow> pl_cancelled p \<Longrightarrow> pl_cancelled p'"
  by (erule pool_step.cases) auto

section \<open>Invariants of step relations\<close>

locale step_invariant =
  fixes step :: "'s \<Rightarrow> 's \<Rightarrow> bool" and initial :: "'s \<Rightarrow> bool" and good :: "'s \<Rightarrow> bool"
  assumes initially: "initial s \<Longrightarrow> good s"
    and preserved: "good s \<Longrightarrow> step s s' \<Longrightarrow> good s'"
begin

lemma always: "initial s \<Longrightarrow> step\<^sup>*\<^sup>* s s' \<Longrightarrow> good s'"
  by (rotate_tac, induction rule: rtranclp_induct) (auto intro: initially preserved)

end

section \<open>Lock discipline of a task\<close>

text \<open>Tasks that take the lock only when they do not hold it, and drop it only when they do.\<close>

inductive lock_ok :: "bool \<Rightarrow> ('w, 'e, 'a) task \<Rightarrow> bool" where
  lock_ok_Return [simp, intro]: "lock_ok h (Return r)"
| lock_ok_Await: "(\<And>w t w'. f w = Some (t, w') \<Longrightarrow> lock_ok h t) \<Longrightarrow> lock_ok h (Await f)"
| lock_ok_Acquire: "lock_ok True t \<Longrightarrow> lock_ok False (Acquire t)"
| lock_ok_Release: "lock_ok False t \<Longrightarrow> lock_ok True (Release t)"

inductive_simps lock_ok_Await_iff [simp]: "lock_ok h (Await f)"
inductive_simps lock_ok_Acquire_iff [simp]: "lock_ok h (Acquire t)"
inductive_simps lock_ok_Release_iff [simp]: "lock_ok h (Release t)"

text \<open>Tasks that never touch the lock.\<close>

inductive plain :: "('w, 'e, 'a) task \<Rightarrow> bool" where
  plain_Return [simp, intro]: "plain (Return r)"
| plain_Await: "(\<And>w t w'. f w = Some (t, w') \<Longrightarrow> plain t) \<Longrightarrow> plain (Await f)"

lemma lock_ok_tbind: "plain t \<Longrightarrow> (\<And>x. lock_ok h (k x)) \<Longrightarrow> lock_ok h (tbind t k)"
proof (induction rule: plain.induct)
  case (plain_Return r)
  then show ?case by (cases r) auto
qed auto

lemma plain_tbind: "plain t \<Longrightarrow> (\<And>x. plain (k x)) \<Longrightarrow> plain (tbind t k)"
proof (induction rule: plain.induct)
  case (plain_Return r)
  then show ?case by (cases r) auto
qed (auto intro!: plain_Await)

lemma plain_simps [simp]:
  "plain (tret x)" "plain (tfail e)" "plain (tlift r)" "plain (tcall conv m)" "plain (tread g)"
  "plain (texpect msg v)"
  by (auto simp: tret_def tfail_def tlift_def tcall_def tread_def texpect_def split: sum.splits option.splits
      intro!: plain_Await)

lemma plain_process_ops: "plain (process_ops_task ext b base_fee now i ops bt)"
proof (induction ops arbitrary: i bt)
  case (Cons op ops)
  have "plain (process_op_task ext b base_fee now i op bt)"
    by (auto simp: process_op_task_def check_prefund_task_def simulate_task_def Let_def split: prod.split
        intro!: plain_tbind)
  with Cons show ?case by (auto intro: plain_tbind)
qed simp

lemma plain_prepare: "plain (prepare_task ext b ops opts)"
  by (auto simp: prepare_task_def price_batch_task_def Let_def plain_process_ops intro!: plain_tbind split: prod.split)

lemma plain_sign: "plain (sign_task b pr nonce)"
  by (auto simp: sign_task_def intro!: plain_tbind)

lemma plain_await: "plain (await_receipt_task ext b pr hash)"
  by (auto simp: await_receipt_task_def Let_def intro!: plain_tbind split: option.split)

lemma lock_ok_build: "lock_ok False (build_task ext b ops opts)"
proof -
  have "lock_ok True (send_task ext b pr envelope)" for pr envelope
    unfolding send_task_def Let_def
    by (intro lock_ok_tbind plain_simps lock_ok_Release) (auto simp: plain_await tret_def intro!: lock_ok_tbind)
  then have "lock_ok False (finish_task ext b opts pr)" for pr
    by (auto simp: finish_task_def Let_def plain_sign tret_def intro!: lock_ok_tbind)
  then show ?thesis unfolding build_task_def by (intro lock_ok_tbind plain_prepare)
qed

section \<open>The lock in the pool\<close>

definition lock_inv :: "'w pool \<Rightarrow> bool" where
  "lock_inv p \<longleftrightarrow>
     (\<forall>i < length (pl_jobs p). \<forall>t. pl_jobs p ! i = Running t \<longrightarrow> lock_ok (pl_lock p = Some i) t)
     \<and> (\<forall>i. pl_lock p = Some i \<longrightarrow> i < length (pl_jobs p) \<and> (\<exists>t. pl_jobs p ! i = Running t))"

lemmas pool_simps = nth_list_update nth_append drop_guard_def less_Suc_eq awaits_def

lemma lock_inv_step:
  assumes "pool_step ext b env p p'" and "lock_inv p"
  shows "lock_inv p'"
  using assms(1)
proof cases
  case (start i ops opts)
  with assms(2) have "pl_lock p \<noteq> Some i" by (auto simp: lock_inv_def)
  with start assms(2) show ?thesis by (auto simp: lock_inv_def pool_simps lock_ok_build)
next
  case (answer i f t w')
  with assms(2) have "lock_ok (pl_lock p = Some i) (Await f)" unfolding lock_inv_def by blast
  then have "lock_ok (pl_lock p = Some i) t" using answer(5) by auto
  with answer assms(2) show ?thesis by (auto simp: lock_inv_def pool_simps)
qed (use assms(2) in \<open>auto simp: lock_inv_def pool_simps split: if_splits task.splits\<close>)

interpretation guarded: step_invariant "pool_step ext b env" "\<lambda>p. \<exists>w. p = idle_pool w" lock_inv
  for ext :: "'w externals" and b and env
  by unfold_locales (force simp: lock_inv_def idle_pool_def, rule lock_inv_step)

section \<open>A job alone in the pool\<close>

text \<open>
  A job whose calls are answered one after the other, while the others rest, ends as its task run
  alone does, with the lock free.
\<close>

lemma steps_trans: "r x y \<Longrightarrow> r\<^sup>*\<^sup>* y z \<Longrightarrow> r\<^sup>*\<^sup>* x z"
  by (rule converse_rtranclp_into_rtranclp)

lemma job_runs:
  assumes "run t (pl_world p) = Some (r, w')" and "lock_ok h t"
    and "i < length (pl_jobs p)" and "pl_jobs p ! i = Running t" and "\<not> pl_cancelled p"
    and "pl_lock p = (if h then Some i else None)"
  shows "(pool_step ext b env)\<^sup>*\<^sup>* p
           (p\<lparr>pl_world := w', pl_lock := None, pl_jobs := (pl_jobs p)[i := Finished r]\<rparr>)"
  using assms
proof (induction t arbitrary: p h)
  case (Return r')
  then have "pool_step ext b env p
      (p\<lparr>pl_lock := drop_guard i (pl_lock p), pl_jobs := (pl_jobs p)[i := Finished r']\<rparr>)"
    by (intro pool_step.finish)
  with Return show ?case by (auto simp: drop_guard_def split: if_splits)
next
  case (Await f)
  from Await.prems(1) obtain t w1 where f: "f (pl_world p) = Some (t, w1)" and run: "run t w1 = Some (r, w')"
    by (auto simp: run_Await split: option.splits)
  let ?p = "p\<lparr>pl_world := w1, pl_jobs := (pl_jobs p)[i := Running t]\<rparr>"
  have "pool_step ext b env p ?p" by (rule pool_step.answer [where i = i, OF Await.prems(3,4) may_go_live f]) (rule Await.prems(5))
  moreover have "(pool_step ext b env)\<^sup>*\<^sup>* ?p
      (?p\<lparr>pl_world := w', pl_lock := None, pl_jobs := (pl_jobs ?p)[i := Finished r]\<rparr>)"
    by (rule Await.IH [OF f, of ?p h]) (use Await.prems f run in \<open>auto split: if_splits\<close>)
  ultimately show ?case by (auto intro: steps_trans)
next
  case (Acquire t)
  let ?p = "p\<lparr>pl_lock := Some i, pl_jobs := (pl_jobs p)[i := Running t]\<rparr>"
  have "pool_step ext b env p ?p" using Acquire.prems by (intro pool_step.lock) auto
  moreover have "(pool_step ext b env)\<^sup>*\<^sup>* ?p
      (?p\<lparr>pl_world := w', pl_lock := None, pl_jobs := (pl_jobs ?p)[i := Finished r]\<rparr>)"
    by (rule Acquire.IH [of ?p True]) (use Acquire.prems in auto)
  ultimately show ?case by (auto intro: steps_trans)
next
  case (Release t)
  let ?p = "p\<lparr>pl_lock := drop_guard i (pl_lock p), pl_jobs := (pl_jobs p)[i := Running t]\<rparr>"
  have "pool_step ext b env p ?p" using Release.prems by (intro pool_step.unlock) auto
  moreover have "(pool_step ext b env)\<^sup>*\<^sup>* ?p
      (?p\<lparr>pl_world := w', pl_lock := None, pl_jobs := (pl_jobs ?p)[i := Finished r]\<rparr>)"
    by (rule Release.IH [of ?p False]) (use Release.prems in \<open>auto simp: drop_guard_def\<close>)
  ultimately show ?case by (auto intro: steps_trans)
qed

lemma queued_job_runs:
  assumes "i < length (pl_jobs p)" and "pl_jobs p ! i = Queued ops opts" and "\<not> pl_cancelled p"
    and "pl_lock p = None" and "build_inner ext b ops opts (pl_world p) = Some (r, w')"
  shows "(pool_step ext b env)\<^sup>*\<^sup>* p (p\<lparr>pl_world := w', pl_jobs := (pl_jobs p)[i := Finished r]\<rparr>)"
proof -
  let ?p = "p\<lparr>pl_jobs := (pl_jobs p)[i := Running (build_task ext b ops opts)]\<rparr>"
  have "pool_step ext b env p ?p" using assms by (intro pool_step.start)
  moreover have "(pool_step ext b env)\<^sup>*\<^sup>* ?p
      (?p\<lparr>pl_world := w', pl_lock := None, pl_jobs := (pl_jobs ?p)[i := Finished r]\<rparr>)"
    by (rule job_runs [where h = False and t = "build_task ext b ops opts"])
       (use assms in \<open>auto simp: run_build lock_ok_build\<close>)
  ultimately have "(pool_step ext b env)\<^sup>*\<^sup>* p
      (p\<lparr>pl_world := w', pl_lock := None, pl_jobs := (pl_jobs p)[i := Finished r]\<rparr>)"
    by (auto intro: steps_trans)
  with assms(4) show ?thesis by (cases p) auto
qed

end
