(* ===== verification/Nonce_Order.thy ===== *)
theory Nonce_Order
  imports Submit_Pool
begin

text \<open>
  Why the submit lock is enough: concurrent submits never broadcast the same nonce.  What the
  argument needs of the node is stated twice.  A node of the first kind, \<open>lawful_node\<close>, never lets
  its pending nonce fall and passes the nonce of every transaction it accepts, unless that nonce
  lies in the future: the nonces broadcast then increase.  A node of the second kind, \<open>fresh_node\<close>,
  may let its pending nonce fall, as the node of \<open>bundler_pipeline.rs\<close> does when the reservation of a
  transaction that was only signed is released, but does not offer a nonce again that it has accepted:
  the nonces broadcast are then distinct.  Both are instances of the rules of the locale
  \<open>nonce_rules\<close>, in which the argument is made once.
\<close>

section \<open>What is assumed of the node\<close>

text \<open>
  The calls of a build with respect to nonces: all but two are quiet in the sense of \<open>q\<close>, the nonce
  query draws a nonce that satisfies \<open>d\<close> where the node is good in the sense of \<open>g\<close>, and a broadcast
  is accepted in the sense of \<open>a\<close> or is quiet and answered by an error.
  The signer signs what it is given and the encoding of an envelope keeps its nonce.
\<close>

definition nonce_calls ::
  "'w externals \<Rightarrow> 'w Bundler \<Rightarrow> (bytes \<Rightarrow> nat) \<Rightarrow> ('w \<Rightarrow> 'w \<Rightarrow> bool) \<Rightarrow> ('w \<Rightarrow> bool) \<Rightarrow> (nat \<Rightarrow> 'w \<Rightarrow> bool)
    \<Rightarrow> (nat \<Rightarrow> 'w \<Rightarrow> 'w \<Rightarrow> bool) \<Rightarrow> bool" where
  "nonce_calls ext b nonce_of q g d a \<longleftrightarrow>
     (let pv = bd_provider b in
      (\<forall>w r w'. pv_base_fee pv w = Some (r, w') \<longrightarrow> q w w')
      \<and> (\<forall>w r w'. pv_max_priority_fee pv w = Some (r, w') \<longrightarrow> q w w')
      \<and> (\<forall>e c w r w'. pv_balance_of pv e c w = Some (r, w') \<longrightarrow> q w w')
      \<and> (\<forall>e c p w r w'. pv_simulate_validation pv e c p w = Some (r, w') \<longrightarrow> q w w')
      \<and> (\<forall>e p w r w'. pv_user_op_hash pv e p w = Some (r, w') \<longrightarrow> q w w')
      \<and> (\<forall>s e c w r w'. pv_estimate_handle_ops_gas pv s e c w = Some (r, w') \<longrightarrow> q w w')
      \<and> (\<forall>h t w r w'. pv_wait_for_receipt pv h t w = Some (r, w') \<longrightarrow> q w w')
      \<and> (\<forall>s e c w r w'. pv_try_call_for_revert pv s e c w = Some (r, w') \<longrightarrow> q w w')
      \<and> (\<forall>tx w r w'. sg_sign_eip1559 (bd_signer b) tx w = Some (r, w') \<longrightarrow> q w w')
      \<and> (\<forall>w r w'. pv_pending_nonce pv (sg_address (bd_signer b)) w = Some (r, w') \<longrightarrow>
            q w w' \<and> (\<forall>n. r = Inr n \<longrightarrow> g w' \<longrightarrow> d (unat n) w'))
      \<and> (\<forall>raw w r w'. pv_send_raw_transaction pv raw w = Some (r, w') \<longrightarrow>
            a (nonce_of raw) w w' \<or> (q w w' \<and> (\<exists>e. r = Inl e)))
      \<and> (\<forall>env. nonce_of (encoded_2718 (ext_consensus ext) env) = unat (tx_nonce (env_tx env)))
      \<and> signs_as_given (bd_signer b))"

text \<open>
  A node whose pending nonce never falls.  Queries change nothing but may see the pending nonce
  grow; the pending nonce is what the nonce query reports; a broadcast is accepted or leaves no
  trace, even when its answer is an error; a transaction with a future nonce may be accepted and
  wait there.
\<close>

definition quiet :: "('w \<Rightarrow> nat) \<Rightarrow> ('w \<Rightarrow> nat list) \<Rightarrow> 'w \<Rightarrow> 'w \<Rightarrow> bool" where
  "quiet pending sent w w' \<longleftrightarrow> pending w \<le> pending w' \<and> sent w' = sent w"

definition accepts :: "('w \<Rightarrow> nat) \<Rightarrow> ('w \<Rightarrow> nat list) \<Rightarrow> nat \<Rightarrow> 'w \<Rightarrow> 'w \<Rightarrow> bool" where
  "accepts pending sent n w w' \<longleftrightarrow> pending w \<le> pending w' \<and> (n \<le> pending w \<longrightarrow> n < pending w') \<and> sent w' = sent w @ [n]"

definition lawful_node ::
  "'w externals \<Rightarrow> 'w Bundler \<Rightarrow> ('w \<Rightarrow> nat) \<Rightarrow> ('w \<Rightarrow> nat list) \<Rightarrow> (bytes \<Rightarrow> nat) \<Rightarrow> bool" where
  "lawful_node ext b pending sent nonce_of \<longleftrightarrow>
     (let pv = bd_provider b; q = quiet pending sent in
      (\<forall>w r w'. pv_base_fee pv w = Some (r, w') \<longrightarrow> q w w')
      \<and> (\<forall>w r w'. pv_max_priority_fee pv w = Some (r, w') \<longrightarrow> q w w')
      \<and> (\<forall>e a w r w'. pv_balance_of pv e a w = Some (r, w') \<longrightarrow> q w w')
      \<and> (\<forall>e c p w r w'. pv_simulate_validation pv e c p w = Some (r, w') \<longrightarrow> q w w')
      \<and> (\<forall>e p w r w'. pv_user_op_hash pv e p w = Some (r, w') \<longrightarrow> q w w')
      \<and> (\<forall>s e d w r w'. pv_estimate_handle_ops_gas pv s e d w = Some (r, w') \<longrightarrow> q w w')
      \<and> (\<forall>h d w r w'. pv_wait_for_receipt pv h d w = Some (r, w') \<longrightarrow> q w w')
      \<and> (\<forall>s e d w r w'. pv_try_call_for_revert pv s e d w = Some (r, w') \<longrightarrow> q w w')
      \<and> (\<forall>tx w r w'. sg_sign_eip1559 (bd_signer b) tx w = Some (r, w') \<longrightarrow> q w w')
      \<and> (\<forall>w r w'. pv_pending_nonce pv (sg_address (bd_signer b)) w = Some (r, w') \<longrightarrow>
            q w w' \<and> (\<forall>n. r = Inr n \<longrightarrow> unat n = pending w'))
      \<and> (\<forall>raw w r w'. pv_send_raw_transaction pv raw w = Some (r, w') \<longrightarrow>
            accepts pending sent (nonce_of raw) w w' \<or> (q w w' \<and> (\<exists>e. r = Inl e)))
      \<and> (\<forall>env. nonce_of (encoded_2718 (ext_consensus ext) env) = unat (tx_nonce (env_tx env)))
      \<and> signs_as_given (bd_signer b))"

text \<open>
  A node whose pending nonce may fall.  In a consistent state, one that satisfies \<open>ok\<close>, the nonce
  query never offers the nonce of a transaction that has been accepted.  Calls and refused
  broadcasts keep the accepted transactions and the consistency, and so does the acceptance of a
  transaction whose nonce is not used yet.
\<close>

definition undisturbed :: "('w \<Rightarrow> bool) \<Rightarrow> ('w \<Rightarrow> nat list) \<Rightarrow> 'w \<Rightarrow> 'w \<Rightarrow> bool" where
  "undisturbed ok sent w w' \<longleftrightarrow> sent w' = sent w \<and> (ok w \<longrightarrow> ok w')"

definition takes_in :: "('w \<Rightarrow> bool) \<Rightarrow> ('w \<Rightarrow> nat list) \<Rightarrow> nat \<Rightarrow> 'w \<Rightarrow> 'w \<Rightarrow> bool" where
  "takes_in ok sent n w w' \<longleftrightarrow> sent w' = sent w @ [n] \<and> (ok w \<and> n \<notin> set (sent w) \<longrightarrow> ok w')"

definition fresh_node ::
  "'w externals \<Rightarrow> 'w Bundler \<Rightarrow> ('w \<Rightarrow> bool) \<Rightarrow> ('w \<Rightarrow> nat list) \<Rightarrow> (bytes \<Rightarrow> nat) \<Rightarrow> bool" where
  "fresh_node ext b ok sent nonce_of \<longleftrightarrow>
     nonce_calls ext b nonce_of (undisturbed ok sent) ok (\<lambda>n w. n \<notin> set (sent w)) (takes_in ok sent)"

section \<open>The discipline of a build\<close>

text \<open>
  Where a task stands with respect to the lock: without it, with it, with it and a nonce drawn
  from the node, with it and the nonce broadcast.
\<close>

datatype phase = Outside | Inside | Drew nat | Sent

inductive disciplined ::
  "('w \<Rightarrow> 'w \<Rightarrow> bool) \<Rightarrow> ('w \<Rightarrow> bool) \<Rightarrow> (nat \<Rightarrow> 'w \<Rightarrow> bool) \<Rightarrow> (nat \<Rightarrow> 'w \<Rightarrow> 'w \<Rightarrow> bool) \<Rightarrow> phase \<Rightarrow> ('w, 'e, 'a) task \<Rightarrow> bool"
  for q g d a where
  d_return [simp, intro]: "disciplined q g d a ph (Return r)"
| d_outside: "(\<And>w t w'. f w = Some (t, w') \<Longrightarrow> q w w' \<and> disciplined q g d a Outside t) \<Longrightarrow>
    disciplined q g d a Outside (Await f)"
| d_acquire: "disciplined q g d a Inside t \<Longrightarrow> disciplined q g d a Outside (Acquire t)"
| d_inside: "(\<And>w t w'. f w = Some (t, w') \<Longrightarrow>
      q w w' \<and> (disciplined q g d a Inside t \<or> (\<exists>n. (g w' \<longrightarrow> d n w') \<and> disciplined q g d a (Drew n) t))) \<Longrightarrow>
    disciplined q g d a Inside (Await f)"
| d_drew: "(\<And>w t w'. f w = Some (t, w') \<Longrightarrow>
      (q w w' \<and> disciplined q g d a (Drew n) t)
      \<or> (a n w w' \<and> disciplined q g d a Sent t)) \<Longrightarrow>
    disciplined q g d a (Drew n) (Await f)"
| d_release: "disciplined q g d a Outside t \<Longrightarrow> disciplined q g d a Sent (Release t)"

inductive_cases disciplined_AwaitE: "disciplined q g d a ph (Await f)"
inductive_cases disciplined_AcquireE: "disciplined q g d a ph (Acquire t)"
inductive_cases disciplined_ReleaseE: "disciplined q g d a ph (Release t)"

text \<open>Tasks all of whose calls are quiet and that leave the lock alone.\<close>

inductive quiet_task :: "('w \<Rightarrow> 'w \<Rightarrow> bool) \<Rightarrow> ('w, 'e, 'a) task \<Rightarrow> bool" for q where
  q_return [simp, intro]: "quiet_task q (Return r)"
| q_await: "(\<And>w t w'. f w = Some (t, w') \<Longrightarrow> q w w' \<and> quiet_task q t) \<Longrightarrow>
    quiet_task q (Await f)"

lemma quiet_tbind:
  "quiet_task q t \<Longrightarrow> (\<And>x. quiet_task q (k x)) \<Longrightarrow> quiet_task q (tbind t k)"
proof (induction rule: quiet_task.induct)
  case (q_return r)
  then show ?case by (cases r) auto
qed (auto intro!: q_await)

lemma quiet_then:
  "quiet_task q t \<Longrightarrow> (\<And>x. disciplined q g d a Outside (k x)) \<Longrightarrow>
     disciplined q g d a Outside (tbind t k)"
proof (induction rule: quiet_task.induct)
  case (q_return r)
  then show ?case by (cases r) auto
qed (auto intro!: d_outside)

lemma quiet_outside: "quiet_task q t \<Longrightarrow> disciplined q g d a Outside t"
  by (induction rule: quiet_task.induct) (auto intro!: d_outside)

text \<open>A call under the lock whose answer decides the rest.\<close>

definition on_answer :: "('f \<Rightarrow> 'e) \<Rightarrow> ('a \<Rightarrow> ('w, 'e, 'b) task) \<Rightarrow> 'f + 'a \<Rightarrow> ('w, 'e, 'b) task" where
  "on_answer conv k r = (case r of Inl e \<Rightarrow> Return (Fail (conv e)) | Inr x \<Rightarrow> k x)"

lemma on_answer_simps [simp]: "on_answer conv k (Inl e) = Return (Fail (conv e))" "on_answer conv k (Inr x) = k x"
  by (simp_all add: on_answer_def)

lemma tbind_tcall:
  "tbind (tcall conv m) k = Await (\<lambda>w. map_option (map_prod (on_answer conv k) id) (m w))"
proof -
  have "tbind (tlift (map_sum conv id r)) k = on_answer conv k r" for r
    by (cases r) (simp_all add: tlift_def tret_def tfail_def)
  then show ?thesis
    by (auto simp: tcall_def fun_eq_iff option.map_comp intro!: option.map_cong0)
qed

text \<open>
  The node is good; a job that does not hold the lock stands outside, and the nonce a lock holder
  has drawn is one it may use.
\<close>

definition stands ::
  "('w \<Rightarrow> 'w \<Rightarrow> bool) \<Rightarrow> ('w \<Rightarrow> bool) \<Rightarrow> (nat \<Rightarrow> 'w \<Rightarrow> bool) \<Rightarrow> (nat \<Rightarrow> 'w \<Rightarrow> 'w \<Rightarrow> bool) \<Rightarrow> 'w \<Rightarrow> bool \<Rightarrow> 'w job \<Rightarrow> bool" where
  "stands q g d a w holds j \<longleftrightarrow>
     (case j of
        Running t \<Rightarrow> (\<exists>ph. disciplined q g d a ph t \<and> (holds \<longleftrightarrow> ph \<noteq> Outside) \<and> (\<forall>n. ph = Drew n \<longrightarrow> d n w))
      | _ \<Rightarrow> \<not> holds)"

definition nonce_inv :: "('w \<Rightarrow> 'w \<Rightarrow> bool) \<Rightarrow> ('w \<Rightarrow> bool) \<Rightarrow> (nat \<Rightarrow> 'w \<Rightarrow> bool) \<Rightarrow> (nat \<Rightarrow> 'w \<Rightarrow> 'w \<Rightarrow> bool) \<Rightarrow> 'w pool \<Rightarrow> bool" where
  "nonce_inv q g d a p \<longleftrightarrow>
     g (pl_world p)
     \<and> (\<forall>i < length (pl_jobs p). stands q g d a (pl_world p) (pl_lock p = Some i) (pl_jobs p ! i))
     \<and> (\<forall>i. pl_lock p = Some i \<longrightarrow> i < length (pl_jobs p))"

section \<open>The rules of the argument\<close>

text \<open>
  Quiet calls keep a good node good, what has been sent, and the right to use a drawn nonce;
  accepting a drawn nonce keeps a good node good; and a good node has accepted no nonce twice.
\<close>

locale nonce_rules =
  fixes q :: "'w \<Rightarrow> 'w \<Rightarrow> bool" and g :: "'w \<Rightarrow> bool" and d :: "nat \<Rightarrow> 'w \<Rightarrow> bool"
    and a :: "nat \<Rightarrow> 'w \<Rightarrow> 'w \<Rightarrow> bool" and sent :: "'w \<Rightarrow> nat list"
  assumes quiet_same: "q w w"
    and good_quiet: "g w \<Longrightarrow> q w w' \<Longrightarrow> g w'"
    and drawn_quiet: "d n w \<Longrightarrow> q w w' \<Longrightarrow> d n w'"
    and good_accepts: "g w \<Longrightarrow> d n w \<Longrightarrow> a n w w' \<Longrightarrow> g w'"
    and sent_quiet: "q w w' \<Longrightarrow> sent w' = sent w"
    and sent_accepts: "a n w w' \<Longrightarrow> sent w' = sent w @ [n]"
    and good_distinct: "g w \<Longrightarrow> distinct (sent w)"
begin

lemma quiet_pure [simp]:
  "quiet_task q (tret x)" "quiet_task q (tfail e)" "quiet_task q (tlift r)"
  "quiet_task q (texpect msg v)" "quiet_task q (tread rd)"
  by (auto simp: tret_def tfail_def tlift_def texpect_def tread_def quiet_same split: sum.splits option.splits
      intro!: q_await)

lemma quiet_tcall:
  "(\<And>w r w'. m w = Some (r, w') \<Longrightarrow> q w w') \<Longrightarrow> quiet_task q (tcall conv m)"
  by (auto simp: tcall_def intro!: q_await)

lemma drew_tcall:
  assumes "\<And>w r w'. m w = Some (r, w') \<Longrightarrow> q w w'"
    and "\<And>w x w'. m w = Some (Inr x, w') \<Longrightarrow> disciplined q g d a (Drew n) (k x)"
  shows "disciplined q g d a (Drew n) (tbind (tcall conv m) k)"
  unfolding tbind_tcall
proof (rule d_drew, goal_cases)
  case (1 w t w')
  then obtain r where "m w = Some (r, w')" "t = on_answer conv k r" by auto
  with assms show ?case by (cases r) auto
qed

section \<open>Every build is disciplined\<close>

lemma calls_quiet:
  assumes "nonce_calls ext b nonce_of q g d a"
  shows "quiet_task q (tcall conv (pv_base_fee (bd_provider b)))"
    and "quiet_task q (tcall conv (pv_max_priority_fee (bd_provider b)))"
    and "quiet_task q (tcall conv (pv_balance_of (bd_provider b) e x))"
    and "quiet_task q (tcall conv2 (pv_simulate_validation (bd_provider b) e c packed))"
    and "quiet_task q (tcall conv (pv_user_op_hash (bd_provider b) e packed))"
    and "quiet_task q (tcall conv (pv_estimate_handle_ops_gas (bd_provider b) s e c))"
    and "quiet_task q (tcall conv (pv_wait_for_receipt (bd_provider b) h timeout))"
    and "quiet_task q (tcall conv (pv_try_call_for_revert (bd_provider b) s e c))"
    and "quiet_task q (tcall conv (pv_pending_nonce (bd_provider b) (sg_address (bd_signer b))))"
    and "quiet_task q (tcall conv3 (sg_sign_eip1559 (bd_signer b) tx))"
  using assms by (auto simp: nonce_calls_def Let_def intro!: quiet_tcall)

lemma quiet_prepare:
  assumes "nonce_calls ext b nonce_of q g d a"
  shows "quiet_task q (prepare_task ext b ops opts)"
proof -
  note q = calls_quiet [OF assms]
  have one: "quiet_task q (process_op_task ext b base_fee now i op bt)" for base_fee now i op bt
    by (auto simp: process_op_task_def check_prefund_task_def simulate_task_def Let_def q split: prod.split
        intro!: quiet_tbind)
  have all: "quiet_task q (process_ops_task ext b base_fee now i ops' bt)" for base_fee now i ops' bt
    by (induction ops' arbitrary: i bt) (auto intro: quiet_tbind one)
  show ?thesis
    by (auto simp: prepare_task_def price_batch_task_def Let_def q all intro!: quiet_tbind split: prod.split)
qed

lemma quiet_receipt:
  assumes "nonce_calls ext b nonce_of q g d a"
  shows "quiet_task q (await_receipt_task ext b pr hash)"
  by (auto simp: await_receipt_task_def Let_def calls_quiet [OF assms] split: option.split intro!: quiet_tbind)

lemma disciplined_send:
  assumes "nonce_calls ext b nonce_of q g d a"
    and "nonce_of (encoded_2718 (ext_consensus ext) envelope) = n"
  shows "disciplined q g d a (Drew n) (send_task ext b pr envelope)"
proof -
  let ?rest = "\<lambda>hash raw. tbind (await_receipt_task ext b pr hash) (\<lambda>_. tret (response (bd_cfg b) pr raw hash))"
  have rest: "disciplined q g d a Sent (Release (?rest hash raw))" for hash raw
    by (intro d_release quiet_outside quiet_tbind quiet_receipt [OF assms(1)] quiet_pure)
  show ?thesis
    unfolding send_task_def Let_def tbind_tcall
  proof (rule d_drew, goal_cases)
    case (1 w t w')
    then obtain r where r: "pv_send_raw_transaction (bd_provider b) (encoded_2718 (ext_consensus ext) envelope) w
          = Some (r, w')"
      and t: "t = on_answer ProviderFailed
                (\<lambda>_. Release (?rest (envelope_tx_hash (ext_consensus ext) envelope)
                               (encoded_2718 (ext_consensus ext) envelope))) r"
      by auto
    from assms r have "a n w w' \<or> (q w w' \<and> (\<exists>e. r = Inl e))"
      unfolding nonce_calls_def Let_def by blast
    then show ?case using rest t by (cases r) auto
  qed
qed

lemma disciplined_build:
  assumes "nonce_calls ext b nonce_of q g d a"
  shows "disciplined q g d a Outside (build_task ext b ops opts)"
proof -
  note laws = assms [unfolded nonce_calls_def Let_def]
  have signed: "disciplined q g d a (Drew (unat nonce)) (tbind (sign_task b pr nonce) (send_task ext b pr))"
    for pr nonce
  proof (cases "build_tx (bd_cfg b) pr nonce")
    case (Inl e)
    then show ?thesis by (simp add: sign_task_def tlift_def tfail_def)
  next
    case (Inr tx)
    have nonce: "tx_nonce tx = nonce" using Inr by (auto simp: build_tx_outcome split: if_splits)
    have "disciplined q g d a (Drew (unat nonce)) (tbind (tcall SignerFailed (sg_sign_eip1559 (bd_signer b) tx)) (send_task ext b pr))"
    proof (rule drew_tcall)
      fix w env w' assume "sg_sign_eip1559 (bd_signer b) tx w = Some (Inr env, w')"
      then have "env_tx env = tx" using laws unfolding signs_as_given_def by blast
      then show "disciplined q g d a (Drew (unat nonce)) (send_task ext b pr env)"
        using disciplined_send [OF assms] laws nonce by metis
    qed (use laws in blast)
    then show ?thesis by (simp add: sign_task_def Inr tlift_def tret_def)
  qed
  have drawn: "disciplined q g d a Inside
      (tbind (tcall ProviderFailed (pv_pending_nonce (bd_provider b) (sg_address (bd_signer b))))
        (\<lambda>nonce. tbind (sign_task b pr nonce) (send_task ext b pr)))" for pr
    unfolding tbind_tcall
  proof (rule d_inside, goal_cases)
    case (1 w t w')
    then obtain r where r: "pv_pending_nonce (bd_provider b) (sg_address (bd_signer b)) w = Some (r, w')"
      and t: "t = on_answer ProviderFailed (\<lambda>nonce. tbind (sign_task b pr nonce) (send_task ext b pr)) r" by auto
    with laws have "q w w'" "\<And>n. r = Inr n \<Longrightarrow> g w' \<longrightarrow> d (unat n) w'" by blast+
    with signed t show ?case by (cases r) auto
  qed
  have "disciplined q g d a Outside (finish_task ext b opts pr)" for pr
  proof (cases "opts_submit opts")
    case True
    then show ?thesis by (simp add: finish_task_def d_acquire drawn)
  next
    case False
    then show ?thesis
      by (auto simp: finish_task_def Let_def sign_task_def calls_quiet [OF assms] intro!: quiet_outside quiet_tbind)
  qed
  then show ?thesis unfolding build_task_def by (intro quiet_then quiet_prepare [OF assms])
qed

section \<open>The nonces of the pool\<close>

lemma stands_quiet: "stands q g d a w h j \<Longrightarrow> q w w' \<Longrightarrow> stands q g d a w' h j"
  by (auto simp: stands_def split: job.splits intro: drawn_quiet)

lemma stands_outside: "stands q g d a w False j \<Longrightarrow> stands q g d a w' False j"
  by (auto simp: stands_def split: job.splits)

lemma stands_ended [simp]: "stands q g d a w h (Finished r) \<longleftrightarrow> \<not> h" "stands q g d a w h (Queued ops opts) \<longleftrightarrow> \<not> h"
  by (simp_all add: stands_def)

text \<open>One job moves on.\<close>

lemma nonce_inv_update:
  assumes "nonce_inv q g d a p" and "i < length (pl_jobs p)"
    and "g w'" and "stands q g d a w' (lk = Some i) j"
    and "\<And>k. k \<noteq> i \<Longrightarrow> lk = Some k \<longleftrightarrow> pl_lock p = Some k"
    and "q (pl_world p) w' \<or> pl_lock p = Some i"
  shows "nonce_inv q g d a (p\<lparr>pl_world := w', pl_lock := lk, pl_jobs := (pl_jobs p)[i := j]\<rparr>)"
proof -
  have others: "stands q g d a w' (lk = Some k) (pl_jobs p ! k)" if "k \<noteq> i" "k < length (pl_jobs p)" for k
  proof -
    from assms(1) that have "stands q g d a (pl_world p) (pl_lock p = Some k) (pl_jobs p ! k)"
      by (simp add: nonce_inv_def)
    then have now: "stands q g d a (pl_world p) (lk = Some k) (pl_jobs p ! k)"
      by (simp only: assms(5) [OF that(1)])
    from assms(6) show ?thesis
    proof
      assume "q (pl_world p) w'"
      with now show ?thesis by (rule stands_quiet)
    next
      assume "pl_lock p = Some i"
      then have "(lk = Some k) = False" using assms(5) [OF that(1)] that(1) by simp
      with now show ?thesis using stands_outside by metis
    qed
  qed
  have "k < length (pl_jobs p)" if "lk = Some k" for k
    using that assms(1,2,5) by (cases "k = i") (auto simp: nonce_inv_def)
  with others assms(2,3,4) show ?thesis by (auto simp: nonce_inv_def nth_list_update)
qed

text \<open>A call of a job and where it leaves the world and the job.\<close>

lemma stands_await:
  assumes "stands q g d a w h (Running (Await f))" and "g w" and "f w = Some (t, w')"
  shows "g w' \<and> stands q g d a w' h (Running t) \<and> (q w w' \<or> h)"
proof -
  from assms(1) obtain ph where ph: "disciplined q g d a ph (Await f)" "h \<longleftrightarrow> ph \<noteq> Outside"
    and drawn: "\<And>n. ph = Drew n \<Longrightarrow> d n w"
    by (auto simp: stands_def)
  have quietly: ?thesis if "q w w'" and "disciplined q g d a ph' t" and "h \<longleftrightarrow> ph' \<noteq> Outside"
    and "\<And>n. ph' = Drew n \<Longrightarrow> g w' \<Longrightarrow> d n w'" for ph'
    using that good_quiet [OF assms(2) that(1)] by (auto simp: stands_def)
  from ph(1) show ?thesis
  proof (rule disciplined_AwaitE)
    assume "ph = Outside" and "\<And>w t w'. f w = Some (t, w') \<Longrightarrow> q w w' \<and> disciplined q g d a Outside t"
    then show ?thesis using ph(2) assms(3) by (intro quietly [of Outside]) auto
  next
    assume "ph = Inside" and "\<And>w t w'. f w = Some (t, w') \<Longrightarrow>
        q w w' \<and> (disciplined q g d a Inside t \<or> (\<exists>n. (g w' \<longrightarrow> d n w') \<and> disciplined q g d a (Drew n) t))"
    then consider "q w w'" "disciplined q g d a Inside t"
      | n where "q w w'" "g w' \<longrightarrow> d n w'" "disciplined q g d a (Drew n) t" using assms(3) by blast
    then show ?thesis
    proof cases
      case 1
      with ph(2) \<open>ph = Inside\<close> show ?thesis by (intro quietly [of Inside]) auto
    next
      case (2 n)
      with ph(2) \<open>ph = Inside\<close> show ?thesis by (intro quietly [of "Drew n"]) auto
    qed
  next
    fix n
    assume n: "ph = Drew n" and "\<And>w t w'. f w = Some (t, w') \<Longrightarrow>
        (q w w' \<and> disciplined q g d a (Drew n) t) \<or> (a n w w' \<and> disciplined q g d a Sent t)"
    then consider "q w w'" "disciplined q g d a (Drew n) t" | "a n w w'" "disciplined q g d a Sent t"
      using assms(3) by blast
    then show ?thesis
    proof cases
      case 1
      with n ph(2) drawn_quiet [OF drawn [OF n]] show ?thesis by (intro quietly [of "Drew n"]) auto
    next
      case 2
      with n ph(2) good_accepts [OF assms(2) drawn [OF n]] show ?thesis by (auto simp: stands_def)
    qed
  qed
qed

lemma nonce_inv_job:
  "nonce_inv q g d a p \<Longrightarrow> i < length (pl_jobs p) \<Longrightarrow>
     stands q g d a (pl_world p) (pl_lock p = Some i) (pl_jobs p ! i) \<and> g (pl_world p)"
  by (simp add: nonce_inv_def)

text \<open>A job ends, or moves on without a call.\<close>

lemma nonce_inv_end:
  assumes "nonce_inv q g d a p" and "i < length (pl_jobs p)"
  shows "nonce_inv q g d a (p\<lparr>pl_lock := drop_guard i (pl_lock p), pl_jobs := (pl_jobs p)[i := Finished r]\<rparr>)"
  using nonce_inv_update [OF assms, of "pl_world p" "drop_guard i (pl_lock p)" "Finished r"] nonce_inv_job [OF assms]
  by (simp add: drop_guard_iff quiet_same)

lemma nonce_inv_move:
  assumes "nonce_inv q g d a p" and "i < length (pl_jobs p)"
    and "stands q g d a (pl_world p) (lk = Some i) j"
    and "\<And>k. k \<noteq> i \<Longrightarrow> lk = Some k \<longleftrightarrow> pl_lock p = Some k"
  shows "nonce_inv q g d a (p\<lparr>pl_lock := lk, pl_jobs := (pl_jobs p)[i := j]\<rparr>)"
  using nonce_inv_update [OF assms(1,2), of "pl_world p" lk j] assms(3,4) nonce_inv_job [OF assms(1,2)]
  by (simp add: quiet_same)

lemma nonce_inv_step:
  assumes "nonce_calls ext b nonce_of q g d a" and "\<forall>w w'. env w w' \<longrightarrow> q w w'"
    and "nonce_inv q g d a p" and "pool_step ext b env p p'"
  shows "nonce_inv q g d a p'"
  using assms(4)
proof cases
  case (arrive ops opts)
  with assms(3) show ?thesis by (auto simp: nonce_inv_def nth_append less_Suc_eq)
next
  case (start i ops opts)
  from nonce_inv_job [OF assms(3) start(2)] start(3) have free: "pl_lock p \<noteq> Some i" by simp
  have "stands q g d a (pl_world p) False (Running (build_task ext b ops opts))"
    using disciplined_build [OF assms(1)] by (auto simp: stands_def)
  with nonce_inv_move [OF assms(3) start(2), of "pl_lock p" "Running (build_task ext b ops opts)"] free start(1)
  show ?thesis by simp
next
  case (refuse i ops opts)
  from nonce_inv_job [OF assms(3) refuse(2)] refuse(3) have free: "pl_lock p \<noteq> Some i" by simp
  with nonce_inv_move [OF assms(3) refuse(2), of "pl_lock p" "Finished (Fail Cancelled)"] refuse(1)
  show ?thesis by simp
next
  case (answer i f t w')
  from nonce_inv_job [OF assms(3) answer(2)] answer(3,5)
    stands_await [of "pl_world p" "pl_lock p = Some i" f t w']
  have "g w'" "stands q g d a w' (pl_lock p = Some i) (Running t)"
    "q (pl_world p) w' \<or> pl_lock p = Some i" by auto
  with nonce_inv_update [OF assms(3) answer(2), of w' "pl_lock p" "Running t"] answer(1) show ?thesis by simp
next
  case (lock i t)
  from nonce_inv_job [OF assms(3) lock(2)] lock(3,5) have "disciplined q g d a Outside (Acquire t)"
    by (auto simp: stands_def)
  then have "disciplined q g d a Inside t" by (rule disciplined_AcquireE)
  then have "stands q g d a (pl_world p) True (Running t)" unfolding stands_def by auto
  with nonce_inv_move [OF assms(3) lock(2), of "Some i" "Running t"] lock(1,5) show ?thesis by simp
next
  case (unlock i t)
  from nonce_inv_job [OF assms(3) unlock(2)] unlock(3) obtain ph where "disciplined q g d a ph (Release t)"
    by (auto simp: stands_def)
  then have "disciplined q g d a Outside t" by (rule disciplined_ReleaseE)
  then have "stands q g d a (pl_world p) False (Running t)" by (auto simp: stands_def)
  with nonce_inv_move [OF assms(3) unlock(2), of "drop_guard i (pl_lock p)" "Running t"] unlock(1)
  show ?thesis by (simp add: drop_guard_iff)
next
  case (finish i r)
  with nonce_inv_end [OF assms(3) finish(2)] show ?thesis by simp
next
  case cancel
  with assms(3) show ?thesis by (simp add: nonce_inv_def)
next
  case (abort i t)
  with nonce_inv_end [OF assms(3) abort(2)] show ?thesis by simp
next
  case (late i f t w')
  from nonce_inv_job [OF assms(3) late(2)] late(3,5)
    stands_await [of "pl_world p" "pl_lock p = Some i" f t w']
  have "g w'" "q (pl_world p) w' \<or> pl_lock p = Some i" by auto
  with nonce_inv_update [OF assms(3) late(2), of w' "drop_guard i (pl_lock p)" "Finished (Fail Cancelled)"] late(1)
  show ?thesis by (simp add: drop_guard_iff)
next
  case (outside w')
  with assms(2,3) have "q (pl_world p) w'" by blast
  with assms(3) outside(1) show ?thesis
    by (auto simp: nonce_inv_def intro: good_quiet stands_quiet)
qed

end

text \<open>The pool invariant, under the rules.\<close>

sublocale nonce_rules \<subseteq> ordered: step_invariant "pool_step ext b env" "\<lambda>p. \<exists>w. p = idle_pool w \<and> g w"
    "\<lambda>p. nonce_calls ext b nonce_of q g d a \<and> (\<forall>w w'. env w w' \<longrightarrow> q w w') \<longrightarrow> nonce_inv q g d a p"
  for ext :: "'w externals" and b env nonce_of
proof (unfold_locales, goal_cases)
  case (1 p)
  then show ?case by (auto simp: nonce_inv_def idle_pool_def)
next
  case (2 p p')
  then show ?case by (auto intro: nonce_inv_step)
qed

section \<open>A pending nonce that never falls\<close>

text \<open>The broadcast nonces increase and are below the pending one.\<close>

definition tidy :: "('w \<Rightarrow> nat) \<Rightarrow> ('w \<Rightarrow> nat list) \<Rightarrow> 'w \<Rightarrow> bool" where
  "tidy pending sent w \<longleftrightarrow> sorted_wrt (<) (sent w) \<and> (\<forall>m \<in> set (sent w). m < pending w)"

text \<open>A nonce that may be used is above all broadcast ones and not in the future.\<close>

definition usable :: "('w \<Rightarrow> nat) \<Rightarrow> ('w \<Rightarrow> nat list) \<Rightarrow> nat \<Rightarrow> 'w \<Rightarrow> bool" where
  "usable pending sent n w \<longleftrightarrow> n \<le> pending w \<and> (\<forall>m \<in> set (sent w). m < n)"

lemma quiet_refl: "quiet pending sent w w"
  by (simp add: quiet_def)

lemmas lawful_unfold = lawful_node_def Let_def

lemma lawful_calls:
  assumes "lawful_node ext b pending sent nonce_of"
  shows "nonce_calls ext b nonce_of (quiet pending sent) (tidy pending sent) (usable pending sent) (accepts pending sent)"
  using assms unfolding lawful_unfold nonce_calls_def by (auto simp: tidy_def usable_def)

interpretation rising: nonce_rules "quiet pending sent" "tidy pending sent" "usable pending sent" "accepts pending sent" sent
  for pending :: "'w \<Rightarrow> nat" and sent :: "'w \<Rightarrow> nat list"
  by unfold_locales
     (auto simp: quiet_def tidy_def usable_def accepts_def sorted_wrt_append strict_sorted_iff)

lemma reachable_tidy:
  assumes "lawful_node ext b pending sent nonce_of" and "\<forall>w w'. env w w' \<longrightarrow> quiet pending sent w w'"
    and "sent w = []" and "(pool_step ext b env)\<^sup>*\<^sup>* (idle_pool w) p"
  shows "tidy pending sent (pl_world p)"
proof -
  have "\<exists>v. idle_pool w = idle_pool v \<and> tidy pending sent v" using assms(3) by (auto simp: tidy_def)
  from rising.ordered.always [OF this assms(4), of nonce_of] lawful_calls [OF assms(1)] assms(2)
  show ?thesis by (simp add: nonce_inv_def)
qed

section \<open>A pending nonce that may fall\<close>

lemma fresh_calls:
  assumes "fresh_node ext b ok sent nonce_of"
  shows "nonce_calls ext b nonce_of (undisturbed ok sent) (\<lambda>w. ok w \<and> distinct (sent w))
           (\<lambda>n w. n \<notin> set (sent w)) (takes_in ok sent)"
  using assms by (auto simp: fresh_node_def nonce_calls_def Let_def)

interpretation released: nonce_rules "undisturbed ok sent" "\<lambda>w. ok w \<and> distinct (sent w)"
    "\<lambda>n w. n \<notin> set (sent w)" "takes_in ok sent" sent
  for ok :: "'w \<Rightarrow> bool" and sent :: "'w \<Rightarrow> nat list"
  by unfold_locales (auto simp: undisturbed_def takes_in_def)

end
