(* ===== verification/Pool_Properties.thy ===== *)
theory Pool_Properties
  imports Nonce_Order
begin

text \<open>
  The properties of concurrent builds: rising nonces, a short section under the lock that never leaks,
  the meaning of a job run undisturbed, and what the cancellation does to running, waiting and new builds.
\<close>

section \<open>A node that advances its nonce\<close>

text \<open>
  The mocked execution layer as it is with \<open>advance_pending_on_send\<close> set, except that a nonce at the
  end of its range is refused instead of wrapping around.
\<close>

definition strict_send :: "bytes \<Rightarrow> (MockProvider, b256) rpc" where
  "strict_send raw w =
     (if mk_fail_send w then Some (Inl (Transport ''nonce too low''), w)
      else if mk_pending_nonce w = - 1 then Some (Inl (Transport ''nonce exhausted''), w)
      else Some (Inr (be_word raw),
                 w\<lparr>mk_submissions := mk_submissions w @ [raw], mk_pending_nonce := mk_pending_nonce w + 1\<rparr>))"

lemma strict_send_is_mock:
  "mk_advance_pending_on_send w \<Longrightarrow> mk_pending_nonce w \<noteq> - 1 \<Longrightarrow> strict_send raw w = mock_send demo_decode raw w"
  by (simp add: strict_send_def mock_send_def demo_decode_def Let_def)

definition strict_bundler :: "MockProvider Bundler" where
  "strict_bundler = demo_bundler\<lparr>bd_provider := (bd_provider demo_bundler)
     \<lparr>pv_send_raw_transaction := strict_send,
      pv_wait_for_receipt := pv_wait_for_receipt (mock_provider demo_decode),
      pv_try_call_for_revert := pv_try_call_for_revert (mock_provider demo_decode)\<rparr>\<rparr>"

definition strict_pending :: "MockProvider \<Rightarrow> nat" where
  "strict_pending w = unat (mk_pending_nonce w)"

definition strict_nonce :: "bytes \<Rightarrow> nat" where
  "strict_nonce raw = unat (be_word raw :: u256)"

definition strict_sent :: "MockProvider \<Rightarrow> nat list" where
  "strict_sent w = map strict_nonce (mk_submissions w)"

lemma unat_ucast_nonce [simp]: "unat (ucast (n :: u64) :: u256) = unat n"
  by (simp add: unat_ucast_widen)

lemma strict_accepts:
  assumes "strict_send raw w = Some (r, w')"
  shows "accepts strict_pending strict_sent (strict_nonce raw) w w'
     \<or> (quiet strict_pending strict_sent w w' \<and> (\<exists>e. r = Inl e))"
proof (cases "\<not> mk_fail_send w \<and> mk_pending_nonce w \<noteq> - 1")
  case True
  then have "1 + mk_pending_nonce w \<noteq> 0" by (metis add_eq_0_iff2 add.commute)
  then have "unat (mk_pending_nonce w + 1) = Suc (unat (mk_pending_nonce w))"
    by (metis unatSuc add.commute)
  with True assms show ?thesis
    by (auto simp: strict_send_def accepts_def strict_pending_def strict_sent_def strict_nonce_def)
next
  case False
  with assms show ?thesis by (auto simp: strict_send_def quiet_refl split: if_splits)
qed

lemma strict_lawful: "lawful_node demo_externals strict_bundler strict_pending strict_sent strict_nonce"
proof -
  have "strict_nonce (encoded_2718 (ext_consensus demo_externals) env) = unat (tx_nonce (env_tx env))" for env
    by (simp add: strict_nonce_def demo_externals_def demo_consensus_def full.dec_enc)
  then show ?thesis
    using demo_signs_as_given strict_accepts
    by (auto simp: lawful_node_def strict_bundler_def demo_bundler_def mock_provider_def quiet_refl strict_pending_def
        demo_signer_def local_signer_def split: prod.splits sum.splits if_splits)
qed

definition strict_after :: "MockProvider \<Rightarrow> MockProvider" where
  "strict_after w = w\<lparr>mk_submissions := mk_submissions w @ [be_bytes 32 (ucast (mk_pending_nonce w) :: u256)],
                      mk_pending_nonce := mk_pending_nonce w + 1\<rparr>"

lemma build_strict:
  assumes "mk_deposit w = TEST_DEPOSIT" and "\<not> mk_timeout_receipt w" and "\<not> mk_fail_send w" "mk_pending_nonce w \<noteq> - 1"
  shows "build_inner demo_externals strict_bundler [happy_op] (demo_opts True) w
           = Some (Done (demo_resp (mk_pending_nonce w)), strict_after w)"
proof -
  have prep: "prepare demo_externals strict_bundler [happy_op] (demo_opts True) w = Some (Done demo_prepared, w)"
    unfolding strict_bundler_def prepare_indep by (rule prepare_happy [OF assms(1)])
  have "pbind (prepare demo_externals strict_bundler [happy_op] (demo_opts True)) k w = k demo_prepared w"
    for k :: "prepared \<Rightarrow> (MockProvider, BundlerError, SignedTxResp) prog"
    using prep by (rule pbind_at)
  then show ?thesis
    unfolding build_inner_def
    using assms(2-)
    by (simp add: demo_tail strict_bundler_def strict_send_def strict_after_def full.dec_enc)
qed

text \<open>Two submits that arrive together, one after the other.\<close>

definition two_queued :: "MockProvider pool" where
  "two_queued = \<lparr> pl_world = default_mock, pl_lock = None,
     pl_jobs = [Queued [happy_op] (demo_opts True), Queued [happy_op] (demo_opts True)], pl_cancelled = False, pl_polled = {} \<rparr>"

definition two_done :: "MockProvider pool" where
  "two_done = \<lparr> pl_world = strict_after (strict_after default_mock), pl_lock = None,
     pl_jobs = [Finished (Done (demo_resp 7)), Finished (Done (demo_resp 8))], pl_cancelled = False, pl_polled = {} \<rparr>"

lemma two_arrive: "(pool_step ext b env)\<^sup>*\<^sup>* (idle_pool default_mock) two_queued"
proof -
  let ?q = "Queued [happy_op] (demo_opts True)"
  let ?one = "(idle_pool default_mock)\<lparr>pl_jobs := pl_jobs (idle_pool default_mock) @ [?q]\<rparr>"
  have "pool_step ext b env (idle_pool default_mock) ?one" by (rule pool_step.arrive)
  moreover have "pool_step ext b env ?one (?one\<lparr>pl_jobs := pl_jobs ?one @ [?q]\<rparr>)" by (rule pool_step.arrive)
  moreover have "?one\<lparr>pl_jobs := pl_jobs ?one @ [?q]\<rparr> = two_queued"
    by (simp add: idle_pool_def two_queued_def)
  ultimately show ?thesis by (metis r_into_rtranclp steps_trans)
qed

lemma queued_run:
  "(pool_step demo_externals strict_bundler (\<lambda>_ _. False))\<^sup>*\<^sup>* two_queued two_done"
proof -
  let ?step = "pool_step demo_externals strict_bundler (\<lambda>_ _. False)"
  let ?mid = "two_queued\<lparr>pl_world := strict_after default_mock,
                pl_jobs := (pl_jobs two_queued)[0 := Finished (Done (demo_resp 7))]\<rparr>"
  have "build_inner demo_externals strict_bundler [happy_op] (demo_opts True) default_mock
          = Some (Done (demo_resp 7), strict_after default_mock)"
    using build_strict [of default_mock] by (simp add: TEST_NONCE_def)
  then have "?step\<^sup>*\<^sup>* two_queued ?mid"
    by (intro queued_job_runs) (simp_all add: two_queued_def)
  moreover have "build_inner demo_externals strict_bundler [happy_op] (demo_opts True) (strict_after default_mock)
          = Some (Done (demo_resp 8), strict_after (strict_after default_mock))"
    using build_strict [of "strict_after default_mock"] by (simp add: strict_after_def TEST_NONCE_def)
  then have "?step\<^sup>*\<^sup>* ?mid (?mid\<lparr>pl_world := strict_after (strict_after default_mock),
                pl_jobs := (pl_jobs ?mid)[1 := Finished (Done (demo_resp 8))]\<rparr>)"
    by (intro queued_job_runs) (simp_all add: two_queued_def)
  moreover have "?mid\<lparr>pl_world := strict_after (strict_after default_mock),
                pl_jobs := (pl_jobs ?mid)[1 := Finished (Done (demo_resp 8))]\<rparr> = two_done"
    by (simp add: two_queued_def two_done_def)
  ultimately show ?thesis using rtranclp_trans by (metis (no_types, lifting))
qed

lemma strict_runs:
  "(pool_step demo_externals strict_bundler (\<lambda>_ _. False))\<^sup>*\<^sup>* (idle_pool default_mock) two_done"
  by (rule rtranclp_trans [OF two_arrive queued_run])

section \<open>Nonces\<close>

text \<open>
  C1. Concurrent submits never broadcast the same nonce: over every interleaving of any number of
  builds, submitting and sign-only, cancelled or not, and of changes made by others, the nonces
  this bundler has broadcast increase strictly, given a node whose pending nonce never falls and
  passes every nonce it accepts unless that nonce lies in the future.
\<close>

theorem submits_use_distinct_nonces:
  assumes "lawful_node ext b pending sent nonce_of" and "\<forall>w w'. env w w' \<longrightarrow> quiet pending sent w w'"
    and "sent w = []" and "(pool_step ext b env)\<^sup>*\<^sup>* (idle_pool w) p"
  shows "sorted_wrt (<) (sent (pl_world p)) \<and> distinct (sent (pl_world p))"
proof -
  have "sorted_wrt (<) (sent (pl_world p))" using reachable_tidy [OF assms] by (simp add: tidy_def)
  then show ?thesis by (simp add: strict_sorted_iff)
qed

theorem submits_use_distinct_nonces_witness:
  "pl_jobs two_done = [Finished (Done (demo_resp 7)), Finished (Done (demo_resp 8))]
   \<and> sorted_wrt (<) (strict_sent (pl_world two_done)) \<and> length (strict_sent (pl_world two_done)) = 2"
proof -
  have "strict_sent default_mock = []" by (simp add: strict_sent_def)
  from submits_use_distinct_nonces [OF strict_lawful _ this strict_runs] show ?thesis
    by (simp add: two_done_def strict_sent_def strict_after_def)
qed

section \<open>The lock\<close>

text \<open>
  How long a task that holds the guard can go on before it drops it or ends: at most \<open>n\<close> more calls.
\<close>

inductive frees_within :: "nat \<Rightarrow> ('w, 'e, 'a) task \<Rightarrow> bool" where
  f_end [simp, intro]: "frees_within n (Return r)"
| f_release [simp, intro]: "frees_within n (Release t)"
| f_call: "(\<And>w t w'. f w = Some (t, w') \<Longrightarrow> frees_within n t) \<Longrightarrow> frees_within (Suc n) (Await f)"

text \<open>
  A task from one guard to the next: without the guard (\<open>None\<close>) it may call, under the guard
  (\<open>Some n\<close>) it makes at most \<open>n\<close> more calls.
\<close>

inductive in_section :: "nat option \<Rightarrow> ('w, 'e, 'a) task \<Rightarrow> bool" where
  s_end [simp, intro]: "in_section m (Return r)"
| s_call: "(\<And>w t w'. f w = Some (t, w') \<Longrightarrow> in_section None t) \<Longrightarrow> in_section None (Await f)"
| s_enter: "in_section (Some 3) t \<Longrightarrow> in_section None (Acquire t)"
| s_inside: "(\<And>w t w'. f w = Some (t, w') \<Longrightarrow> in_section (Some n) t) \<Longrightarrow> in_section (Some (Suc n)) (Await f)"
| s_leave: "in_section None t \<Longrightarrow> in_section (Some n) (Release t)"

inductive_cases in_section_AwaitE: "in_section m (Await f)"
inductive_cases in_section_AcquireE: "in_section m (Acquire t)"
inductive_cases in_section_ReleaseE: "in_section m (Release t)"

lemma in_section_frees: "in_section m t \<Longrightarrow> m = Some n \<Longrightarrow> frees_within n t"
  by (induction arbitrary: n rule: in_section.induct) (auto intro!: f_call)

lemma frees_mono: "frees_within n t \<Longrightarrow> n \<le> k \<Longrightarrow> frees_within k t"
proof (induction arbitrary: k rule: frees_within.induct)
  case (f_call f n)
  then show ?case by (cases k) (auto intro!: frees_within.f_call)
qed auto

lemma in_section_plain: "plain t \<Longrightarrow> in_section None t"
  by (induction rule: plain.induct) (auto intro!: s_call)

lemma in_section_then:
  "plain t \<Longrightarrow> (\<And>x. in_section None (k x)) \<Longrightarrow> in_section None (tbind t k)"
proof (induction rule: plain.induct)
  case (plain_Return r)
  then show ?case by (cases r) auto
qed (auto intro!: s_call)

lemma in_section_tcall:
  "(\<And>x. in_section (Some n) (k x)) \<Longrightarrow> in_section (Some (Suc n)) (tbind (tcall conv m) k)"
  unfolding tbind_tcall by (auto simp: on_answer_def split: sum.splits intro!: s_inside)

lemma in_section_build: "in_section None (build_task ext b ops opts)"
proof -
  have send: "in_section (Some (Suc n)) (send_task ext b pr envelope)" for pr envelope n
    unfolding send_task_def Let_def
    by (intro in_section_tcall s_leave in_section_plain plain_tbind) (simp_all add: plain_await)
  have sign: "in_section (Some (Suc (Suc n))) (tbind (sign_task b pr nonce) (send_task ext b pr))" for pr nonce n
    by (cases "build_tx (bd_cfg b) pr nonce")
       (auto simp: sign_task_def tlift_def tret_def tfail_def intro!: in_section_tcall send)
  have "in_section None (finish_task ext b opts pr)" for pr
  proof (cases "opts_submit opts")
    case True
    have "in_section (Some (Suc (Suc (Suc 0)))) (tbind (tcall ProviderFailed (pv_pending_nonce (bd_provider b)
        (sg_address (bd_signer b)))) (\<lambda>nonce. tbind (sign_task b pr nonce) (send_task ext b pr)))"
      by (intro in_section_tcall sign)
    with True show ?thesis by (simp add: finish_task_def numeral_3_eq_3 s_enter)
  next
    case False
    then show ?thesis by (simp add: finish_task_def Let_def plain_sign plain_tbind in_section_plain)
  qed
  then show ?thesis unfolding build_task_def by (intro in_section_then plain_prepare)
qed

definition sections_inv :: "'w pool \<Rightarrow> bool" where
  "sections_inv p \<longleftrightarrow>
     (\<forall>i < length (pl_jobs p). \<forall>t. pl_jobs p ! i = Running t \<longrightarrow>
        (\<exists>m. in_section m t \<and> (m = None \<longleftrightarrow> pl_lock p \<noteq> Some i) \<and> (\<forall>n. m = Some n \<longrightarrow> n \<le> 3)))
     \<and> (\<forall>i. pl_lock p = Some i \<longrightarrow> i < length (pl_jobs p) \<and> (\<exists>t. pl_jobs p ! i = Running t))"

lemma sections_move:
  assumes "sections_inv p" and "i < length (pl_jobs p)" and "\<And>k. k \<noteq> i \<Longrightarrow> lk = Some k \<longleftrightarrow> pl_lock p = Some k"
    and "case j of Running t \<Rightarrow> \<exists>m. in_section m t \<and> (m = None \<longleftrightarrow> lk \<noteq> Some i) \<and> (\<forall>n. m = Some n \<longrightarrow> n \<le> 3)
           | _ \<Rightarrow> lk \<noteq> Some i"
  shows "sections_inv (p\<lparr>pl_world := w, pl_lock := lk, pl_jobs := (pl_jobs p)[i := j]\<rparr>)"
  using assms by (auto simp: sections_inv_def nth_list_update split: job.splits)

lemma sections_at:
  assumes "sections_inv p" and "i < length (pl_jobs p)" and "pl_jobs p ! i = Running t"
  obtains m where "in_section m t" and "m = None \<longleftrightarrow> pl_lock p \<noteq> Some i" and "\<forall>n. m = Some n \<longrightarrow> n \<le> 3"
  using assms unfolding sections_inv_def by blast

lemma sections_step:
  assumes "pool_step ext b env p p'" and "sections_inv p"
  shows "sections_inv p'"
  using assms(1)
proof cases
  case (arrive ops opts)
  with assms(2) show ?thesis by (auto simp: sections_inv_def nth_append less_Suc_eq)
next
  case (start i ops opts)
  with assms(2) have "pl_lock p \<noteq> Some i" by (auto simp: sections_inv_def)
  with start sections_move [OF assms(2) start(2), of "pl_lock p" "Running (build_task ext b ops opts)" "pl_world p"]
  show ?thesis by (auto simp: in_section_build intro!: exI [of _ None])
next
  case (refuse i ops opts)
  with assms(2) have "pl_lock p \<noteq> Some i" by (auto simp: sections_inv_def)
  with refuse sections_move [OF assms(2) refuse(2), of "pl_lock p" "Finished (Fail Cancelled)" "pl_world p"]
  show ?thesis by auto
next
  case (answer i f t w')
  obtain m where m: "in_section m (Await f)" "m = None \<longleftrightarrow> pl_lock p \<noteq> Some i" "\<forall>n. m = Some n \<longrightarrow> n \<le> 3"
    using sections_at [OF assms(2) answer(2,3)] .
  from m(1) have "\<exists>m'. in_section m' t \<and> (m' = None \<longleftrightarrow> pl_lock p \<noteq> Some i) \<and> (\<forall>n. m' = Some n \<longrightarrow> n \<le> 3)"
  proof (rule in_section_AwaitE)
    assume "m = None" "\<And>w t w'. f w = Some (t, w') \<Longrightarrow> in_section None t"
    with m(2) answer(5) show ?thesis by blast
  next
    fix n assume "m = Some (Suc n)" "\<And>w t w'. f w = Some (t, w') \<Longrightarrow> in_section (Some n) t"
    with m(2,3) answer(5) show ?thesis by (intro exI [of _ "Some n"]) auto
  qed
  with answer sections_move [OF assms(2) answer(2), of "pl_lock p" "Running t" w'] show ?thesis by simp
next
  case (lock i t)
  obtain m where "in_section m (Acquire t)" using sections_at [OF assms(2) lock(2,3)] .
  then have "in_section (Some 3) t" by (rule in_section_AcquireE)
  with lock sections_move [OF assms(2) lock(2), of "Some i" "Running t" "pl_world p"] show ?thesis
    by (force intro: exI [of _ "Some 3"])
next
  case (unlock i t)
  obtain m where "in_section m (Release t)" using sections_at [OF assms(2) unlock(2,3)] .
  then have "in_section None t" by (rule in_section_ReleaseE)
  with unlock sections_move [OF assms(2) unlock(2), of "drop_guard i (pl_lock p)" "Running t" "pl_world p"] show ?thesis
    by (auto simp: drop_guard_iff intro!: exI [of _ None])
next
  case (finish i r)
  with sections_move [OF assms(2) finish(2), of "drop_guard i (pl_lock p)" "Finished r" "pl_world p"] show ?thesis
    by (simp add: drop_guard_iff)
next
  case (abort i t)
  with sections_move [OF assms(2) abort(2), of "drop_guard i (pl_lock p)" "Finished (Fail Cancelled)" "pl_world p"] show ?thesis
    by (simp add: drop_guard_iff)
next
  case (late i f t w')
  with sections_move [OF assms(2) late(2), of "drop_guard i (pl_lock p)" "Finished (Fail Cancelled)" w'] show ?thesis
    by (simp add: drop_guard_iff)
qed (use assms(2) in \<open>simp_all add: sections_inv_def\<close>)

interpretation sectioned: step_invariant "pool_step ext b env" "\<lambda>p. \<exists>w. p = idle_pool w" sections_inv
  for ext :: "'w externals" and b and env
  by unfold_locales (force simp: sections_inv_def idle_pool_def, rule sections_step)

text \<open>
  The submit lock is always held by a build that is still running, so once no build runs, whether
  they succeeded, failed or were cancelled, the lock is free.
\<close>

lemma lock_never_leaks:
  assumes "(pool_step ext b env)\<^sup>*\<^sup>* (idle_pool w) p"
  shows "(\<forall>i. pl_lock p = Some i \<longrightarrow> (\<exists>t. i < length (pl_jobs p) \<and> pl_jobs p ! i = Running t))
     \<and> ((\<forall>t. Running t \<notin> set (pl_jobs p)) \<longrightarrow> pl_lock p = None)"
proof -
  have "lock_inv p" using guarded.always [OF _ assms] by blast
  then have "\<forall>i. pl_lock p = Some i \<longrightarrow> (\<exists>t. i < length (pl_jobs p) \<and> pl_jobs p ! i = Running t)"
    by (auto simp: lock_inv_def)
  moreover from this have "(\<forall>t. Running t \<notin> set (pl_jobs p)) \<Longrightarrow> pl_lock p = None"
    by (metis not_Some_eq nth_mem)
  ultimately show ?thesis by blast
qed

text \<open>
  C15. The submit lock is held briefly: in every reachable state its holder is a running build that,
  on every path, whatever the calls answer, drops the guard or ends after at most three more calls,
  those for the nonce, the signature and the broadcast, so it never holds the lock while it waits for
  a receipt; and a build that only signs never touches the lock.
\<close>

theorem lock_section_is_bounded:
  assumes "(pool_step ext b env)\<^sup>*\<^sup>* (idle_pool w) p"
  shows "(\<forall>i. pl_lock p = Some i \<longrightarrow>
            i < length (pl_jobs p) \<and> (\<exists>t. pl_jobs p ! i = Running t \<and> frees_within 3 t))
     \<and> (\<not> opts_submit opts \<longrightarrow> plain (build_task ext b ops opts))"
proof -
  have inv: "sections_inv p" using sectioned.always [OF _ assms] by blast
  have "\<exists>t. pl_jobs p ! i = Running t \<and> frees_within 3 t" if "pl_lock p = Some i" for i
  proof -
    from inv that obtain t where i: "i < length (pl_jobs p)" "pl_jobs p ! i = Running t"
      by (auto simp: sections_inv_def)
    obtain m where m: "in_section m t" "m = None \<longleftrightarrow> pl_lock p \<noteq> Some i" "\<forall>n. m = Some n \<longrightarrow> n \<le> 3"
      using sections_at [OF inv i] .
    with that obtain n where "m = Some n" by (cases m) auto
    with m i(2) show ?thesis by (blast intro: frees_mono in_section_frees)
  qed
  moreover have "plain (build_task ext b ops opts)" if "\<not> opts_submit opts"
    using that by (auto simp: build_task_def finish_task_def Let_def plain_prepare plain_sign intro!: plain_tbind)
  ultimately show ?thesis using inv by (auto simp: sections_inv_def)
qed

text \<open>A run of one build up to the lock.\<close>

lemma prefix_runs:
  assumes "plain t" and "run t (pl_world p) = Some (Done x, w')"
    and "i < length (pl_jobs p)" and "pl_jobs p ! i = Running (tbind t k)" and "\<not> pl_cancelled p"
  shows "(pool_step ext b env)\<^sup>*\<^sup>* p (p\<lparr>pl_world := w', pl_jobs := (pl_jobs p)[i := Running (k x)]\<rparr>)"
  using assms
proof (induction arbitrary: p rule: plain.induct)
  case (plain_Return r)
  then have "p\<lparr>pl_world := w', pl_jobs := (pl_jobs p)[i := Running (k x)]\<rparr> = p"
    by (cases p) (auto simp: list_update_same_conv)
  then show ?case by simp
next
  case (plain_Await f)
  from plain_Await.prems(1) obtain t w1 where f: "f (pl_world p) = Some (t, w1)" and t: "run t w1 = Some (Done x, w')"
    by (auto simp: run_Await split: option.splits)
  let ?p = "p\<lparr>pl_world := w1, pl_jobs := (pl_jobs p)[i := Running (tbind t k)]\<rparr>"
  have "pool_step ext b env p ?p"
    by (rule pool_step.answer [where f = "map_option (map_prod (\<lambda>t. tbind t k) id) \<circ> f"])
       (use plain_Await.prems f in auto)
  moreover have "(pool_step ext b env)\<^sup>*\<^sup>* ?p (?p\<lparr>pl_world := w', pl_jobs := (pl_jobs ?p)[i := Running (k x)]\<rparr>)"
    by (rule plain_Await.IH [OF f]) (use plain_Await.prems t in auto)
  ultimately show ?case by (auto intro: steps_trans)
qed

theorem lock_section_is_bounded_witness:
  "\<exists>p t. (pool_step demo_externals strict_bundler (\<lambda>_ _. False))\<^sup>*\<^sup>* (idle_pool default_mock) p
     \<and> pl_lock p = Some 0 \<and> pl_jobs p ! 0 = Running t \<and> frees_within 3 t"
proof -
  let ?step = "pool_step demo_externals strict_bundler (\<lambda>_ _. False)"
  let ?k = "finish_task demo_externals strict_bundler (demo_opts True)"
  let ?started = "two_queued\<lparr>pl_jobs := (pl_jobs two_queued)[0 := Running (build_task demo_externals strict_bundler
      [happy_op] (demo_opts True))]\<rparr>"
  let ?ready = "?started\<lparr>pl_world := default_mock, pl_jobs := (pl_jobs ?started)[0 := Running (?k demo_prepared)]\<rparr>"
  have start: "?step two_queued ?started"
    by (rule pool_step.start) (simp_all add: two_queued_def)
  have prep: "prepare demo_externals strict_bundler [happy_op] (demo_opts True) default_mock
      = Some (Done demo_prepared, default_mock)"
    unfolding strict_bundler_def prepare_indep by (rule prepare_happy) simp
  have "?step\<^sup>*\<^sup>* ?started ?ready"
    by (rule prefix_runs [OF plain_prepare]) (use prep in \<open>simp_all add: two_queued_def build_task_def\<close>)
  moreover have "\<exists>t. ?k demo_prepared = Acquire t" by (simp add: finish_task_def demo_opts_def)
  then obtain t where t: "?k demo_prepared = Acquire t" ..
  let ?held = "?ready\<lparr>pl_lock := Some 0, pl_jobs := (pl_jobs ?ready)[0 := Running t]\<rparr>"
  have "?step ?ready (?ready\<lparr>pl_lock := Some 0, pl_jobs := (pl_jobs ?ready)[0 := Running t]\<rparr>)"
    by (rule pool_step.lock) (simp_all add: two_queued_def t)
  ultimately have run: "?step\<^sup>*\<^sup>* (idle_pool default_mock) ?held"
    using two_arrive start by (metis (no_types, lifting) rtranclp.rtrancl_into_rtrancl rtranclp_trans)
  moreover have "pl_jobs ?held ! 0 = Running t" by (simp add: two_queued_def)
  ultimately have "frees_within 3 t" using lock_section_is_bounded [OF run] by auto
  with run \<open>pl_jobs ?held ! 0 = Running t\<close> show ?thesis by (intro exI [of _ ?held]) auto
qed

text \<open>
  The pool implements the pipeline: a request that waits while the lock is free and no
  shutdown is under way can be served, and polling it to its end gives exactly the outcome and
  the world of \<open>build_inner\<close>, leaving the lock free and the other requests alone.
\<close>

lemma pool_serves_request:
  assumes "i < length (pl_jobs p)" and "pl_jobs p ! i = Queued ops opts" and "\<not> pl_cancelled p"
    and "pl_lock p = None" and "build_inner ext b ops opts (pl_world p) = Some (r, w')"
  shows "(pool_step ext b env)\<^sup>*\<^sup>* p (p\<lparr>pl_world := w', pl_jobs := (pl_jobs p)[i := Finished r]\<rparr>)"
  using assms by (rule queued_job_runs)

section \<open>Cancellation\<close>

text \<open>
  One step after the cancellation: a request that has not started is answered with the cancellation
  and touches nothing, a build at an await point that is not in the middle of a poll stays there or
  ends cancelled and does not take the lock, and the cancellation is never withdrawn.
\<close>

lemma step_after_cancel:
  assumes "pool_step ext b env p p'" and "pl_cancelled p"
  shows "pl_cancelled p' \<and> pl_polled p' = pl_polled p
     \<and> (pl_lock p' = pl_lock p \<or> pl_lock p' = None \<or> pl_lock p' \<in> Some ` pl_polled p)
     \<and> (\<forall>i < length (pl_jobs p).
          (\<forall>ops opts. pl_jobs p ! i = Queued ops opts \<longrightarrow>
             pl_jobs p' ! i = Queued ops opts \<or> (pl_jobs p' ! i = Finished (Fail Cancelled) \<and> pl_world p' = pl_world p))
          \<and> (\<forall>t. pl_jobs p ! i = Running t \<and> awaits t \<and> i \<notin> pl_polled p \<longrightarrow>
             pl_jobs p' ! i = Running t \<or> pl_jobs p' ! i = Finished (Fail Cancelled)))"
  using assms
  by cases (auto simp: nth_append nth_list_update drop_guard_def awaits_def may_go_def split: if_splits)

end
