(* ===== verification/Task_Outcomes.thy ===== *)
theory Task_Outcomes
  imports Pool_Properties
begin

text \<open>
  What a build can return under every interleaving.  Other tasks may change the world between any
  two await points, so the answers a task sees need not come from one sequential run; the outcomes
  below hold whatever the node answers at each point.
\<close>

section \<open>Outcomes of a task\<close>

inductive outcomes :: "(('e, 'a) flow \<Rightarrow> bool) \<Rightarrow> ('w, 'e, 'a) task \<Rightarrow> bool" for P where
  o_return: "P r \<Longrightarrow> outcomes P (Return r)"
| o_await: "(\<And>w t w'. f w = Some (t, w') \<Longrightarrow> outcomes P t) \<Longrightarrow> outcomes P (Await f)"
| o_acquire: "outcomes P t \<Longrightarrow> outcomes P (Acquire t)"
| o_release: "outcomes P t \<Longrightarrow> outcomes P (Release t)"

inductive_simps outcomes_Return_iff [simp]: "outcomes P (Return r)"
inductive_simps outcomes_Await_iff [simp]: "outcomes P (Await f)"
inductive_simps outcomes_Acquire_iff [simp]: "outcomes P (Acquire t)"
inductive_simps outcomes_Release_iff [simp]: "outcomes P (Release t)"

lemma outcomes_mono: "outcomes P t \<Longrightarrow> (\<And>r. P r \<Longrightarrow> Q r) \<Longrightarrow> outcomes Q t"
  by (induction rule: outcomes.induct) auto

text \<open>A task that may fail, never panics, and whose result satisfies a predicate.\<close>

definition result :: "('a \<Rightarrow> bool) \<Rightarrow> ('e, 'a) flow \<Rightarrow> bool" where
  "result Q r = (case r of Done x \<Rightarrow> Q x | Fail _ \<Rightarrow> True | Panic _ \<Rightarrow> False)"

lemma result_simps [simp]: "result Q (Done x) = Q x" "result Q (Fail e)" "\<not> result Q (Panic s)"
  by (simp_all add: result_def)

abbreviation yields :: "('a \<Rightarrow> bool) \<Rightarrow> ('w, 'e, 'a) task \<Rightarrow> bool" where
  "yields Q \<equiv> outcomes (result Q)"

lemma yields_tbind:
  "yields Q t \<Longrightarrow> (\<And>x. Q x \<Longrightarrow> yields R (k x)) \<Longrightarrow> yields R (tbind t k)"
proof (induction rule: outcomes.induct)
  case (o_return r)
  then show ?case by (cases r) auto
qed auto

lemma yields_pure [simp]:
  "yields Q (tret x) \<longleftrightarrow> Q x" "yields Q (tfail e)" "yields Q (tlift r) \<longleftrightarrow> (\<forall>x. r = Inr x \<longrightarrow> Q x)"
  "yields Q (texpect msg (Some x)) \<longleftrightarrow> Q x"
  by (auto simp: tret_def tfail_def tlift_def texpect_def split: sum.splits)

lemma yields_tcall: "yields (\<lambda>_. True) (tcall conv m)" "yields (\<lambda>_. True) (tread g)"
  by (auto simp: tcall_def tread_def)

lemma yields_any: "yields (\<lambda>_. True) t \<Longrightarrow> (\<And>x. yields R (k x)) \<Longrightarrow> yields R (tbind t k)"
  by (rule yields_tbind)

section \<open>Outcomes of a build\<close>

lemma yields_process_op:
  "yields (\<lambda>bt'. \<exists>p h. bt' = batch_push bt op p h) (process_op_task ext b base_fee now i op bt)"
proof -
  have prefund: "yields (\<lambda>_. True) (check_prefund_task ext b i op packed)" for packed
    by (auto simp: check_prefund_task_def Let_def intro!: yields_any yields_tcall split: prod.split)
  show ?thesis
    by (auto simp: process_op_task_def simulate_task_def intro!: yields_any yields_tcall prefund) blast
qed

definition runs_minima :: "batch \<Rightarrow> UserOpV07 list \<Rightarrow> batch \<Rightarrow> bool" where
  "runs_minima bt ops bt' \<longleftrightarrow>
     bt_min_user_tip bt' = foldl update_min (bt_min_user_tip bt) (map op_max_priority_fee_per_gas ops)
     \<and> bt_min_user_fee_cap bt' = foldl update_min (bt_min_user_fee_cap bt) (map op_max_fee_per_gas ops)"

lemma runs_minima_push: "runs_minima (batch_push bt op p h) ops = runs_minima bt (op # ops)"
  by (simp add: runs_minima_def batch_push_def fun_eq_iff)

lemma yields_process_ops: "yields (runs_minima bt ops) (process_ops_task ext b base_fee now i ops bt)"
proof (induction ops arbitrary: i bt)
  case Nil
  show ?case by (simp add: runs_minima_def)
next
  case (Cons op ops)
  have "yields (runs_minima bt (op # ops)) (process_ops_task ext b base_fee now (Suc i) ops bt')"
    if "\<exists>p h. bt' = batch_push bt op p h" for bt'
    using Cons [of bt' "Suc i"] that by (auto simp: runs_minima_push)
  then show ?case unfolding process_ops_task.simps by (rule yields_tbind [OF yields_process_op])
qed

definition fees_within :: "UserOpV07 list \<Rightarrow> u256 \<Rightarrow> u256 \<Rightarrow> bool" where
  "fees_within ops cap tip \<longleftrightarrow>
     (\<forall>op \<in> set ops. cap \<le> op_max_fee_per_gas op \<and> tip \<le> op_max_priority_fee_per_gas op)"

lemma yields_price:
  assumes "runs_minima empty_batch ops bt" and "ops \<noteq> []"
  shows "yields (\<lambda>pr. fees_within ops (pr_outer_fee_cap pr) (pr_outer_tip pr))
           (price_batch_task ext b base_fee suggested bt)"
proof -
  have tip: "bt_min_user_tip bt = Some (Min (op_max_priority_fee_per_gas ` set ops))"
    and cap: "bt_min_user_fee_cap bt = Some (Min (op_max_fee_per_gas ` set ops))"
    using assms by (simp_all add: runs_minima_def empty_batch_def foldl_update_min)
  show ?thesis
    unfolding price_batch_task_def Let_def tip cap
    by (rule yields_any [OF yields_tcall(1)],
        rule yields_tbind [where Q = "\<lambda>x. x = Min (op_max_priority_fee_per_gas ` set ops)"], simp,
        rule yields_tbind [where Q = "\<lambda>x. x = Min (op_max_fee_per_gas ` set ops)"], simp,
        rule yields_tbind [where Q = "\<lambda>(t, c). fees_within ops c t"])
       (auto simp: choose_outer_fees_ok_iff fees_within_def intro: min.coboundedI2)
qed

lemma yields_prepare:
  "yields (\<lambda>pr. fees_within ops (pr_outer_fee_cap pr) (pr_outer_tip pr)) (prepare_task ext b ops opts)"
proof (cases "ops = []")
  case True
  then show ?thesis by (simp add: prepare_task_def check_request_def tlift_def tfail_def)
next
  case False
  then show ?thesis
    unfolding prepare_task_def
    by (intro yields_any yields_tcall yields_tbind [OF yields_process_ops] yields_price) auto
qed

lemma yields_build:
  "yields (\<lambda>resp. fees_within ops (resp_max_fee_per_gas resp) (resp_max_priority_fee_per_gas resp))
     (build_task ext b ops opts)"
proof -
  have receipt: "yields (\<lambda>_. True) (await_receipt_task ext b pr hash)" for pr hash
    by (auto simp: await_receipt_task_def Let_def intro!: yields_any yields_tcall split: option.split)
  have sign: "yields (\<lambda>_. True) (sign_task b pr nonce)" for pr nonce
    by (auto simp: sign_task_def intro!: yields_any yields_tcall)
  have "yields (\<lambda>resp. fees_within ops (resp_max_fee_per_gas resp) (resp_max_priority_fee_per_gas resp))
      (finish_task ext b opts pr)" if "fees_within ops (pr_outer_fee_cap pr) (pr_outer_tip pr)" for pr
    using that
    by (auto simp: finish_task_def send_task_def Let_def response_def intro!: yields_any yields_tcall receipt sign)
  then show ?thesis unfolding build_task_def by (rule yields_tbind [OF yields_prepare])
qed

text \<open>
  C9. The fee promise survives concurrency: whatever other builds and the network do between its
  await points, a build never panics and never returns a transaction whose fee cap or tip is above
  what some user of its batch signed.
\<close>

theorem interleaved_build_respects_fees:
  "outcomes (\<lambda>r. case r of
       Done resp \<Rightarrow> \<forall>op \<in> set ops. resp_max_fee_per_gas resp \<le> op_max_fee_per_gas op
                       \<and> resp_max_priority_fee_per_gas resp \<le> op_max_priority_fee_per_gas op
     | Fail e \<Rightarrow> True
     | Panic s \<Rightarrow> False) (build_task ext b ops opts)"
  using yields_build unfolding result_def fees_within_def .

theorem interleaved_build_respects_fees_witness:
  "run (build_task demo_externals demo_bundler [happy_op] (demo_opts True)) default_mock
     = Some (Done (demo_resp TEST_NONCE), demo_sent default_mock)
   \<and> outcomes (\<lambda>r. case r of
        Done resp \<Rightarrow> resp_max_fee_per_gas resp \<le> 5000000000 \<and> resp_max_priority_fee_per_gas resp \<le> 2000000000
      | Fail e \<Rightarrow> True
      | Panic s \<Rightarrow> False) (build_task demo_externals demo_bundler [happy_op] (demo_opts True))"
proof
  have caps: "op_max_fee_per_gas happy_op = 5000000000" "op_max_priority_fee_per_gas happy_op = 2000000000"
    by (simp_all add: happy_op_def)
  show "run (build_task demo_externals demo_bundler [happy_op] (demo_opts True)) default_mock
          = Some (Done (demo_resp TEST_NONCE), demo_sent default_mock)"
    by (simp add: run_build build_default_submit)
  show "outcomes (\<lambda>r. case r of
        Done resp \<Rightarrow> resp_max_fee_per_gas resp \<le> 5000000000 \<and> resp_max_priority_fee_per_gas resp \<le> 2000000000
      | Fail e \<Rightarrow> True
      | Panic s \<Rightarrow> False) (build_task demo_externals demo_bundler [happy_op] (demo_opts True))"
    by (rule outcomes_mono [OF interleaved_build_respects_fees [where ops = "[happy_op]"]])
       (simp add: caps split: flow.splits)
qed

section \<open>Builds in the pool\<close>

lemma build_never_panics_interleaved: "yields (\<lambda>_. True) (build_task ext b ops opts)"
  by (rule outcomes_mono [OF yields_build]) (auto simp: result_def split: flow.splits)

definition calm :: "'w job \<Rightarrow> bool" where
  "calm j = (case j of Queued _ _ \<Rightarrow> True | Running t \<Rightarrow> yields (\<lambda>_. True) t | Finished r \<Rightarrow> result (\<lambda>_. True) r)"

lemma calm_simps [simp]:
  "calm (Queued ops opts)" "calm (Running t) = yields (\<lambda>_. True) t" "calm (Finished r) = result (\<lambda>_. True) r"
  by (simp_all add: calm_def)

lemma calm_step:
  assumes "pool_step ext b env p p'" and "\<forall>j \<in> set (pl_jobs p). calm j"
  shows "\<forall>j \<in> set (pl_jobs p'). calm j"
proof -
  have job: "calm (pl_jobs p ! i)" if "i < length (pl_jobs p)" for i using assms(2) that by simp
  have upd: "\<forall>j \<in> set ((pl_jobs p)[i := j']). calm j" if "calm j'" for i j'
    using assms(2) that set_update_subset_insert [of "pl_jobs p" i j'] by auto
  have "calm (Running (build_task ext b ops opts))" for ops opts
    by (simp add: build_never_panics_interleaved)
  note started = upd [OF this]
  have "calm (Finished (Fail Cancelled))" by simp
  note ended = upd [OF this]
  from assms(1) show ?thesis
  proof cases
    case (answer i f t w')
    then have "calm (Running t)" using job [of i] by auto
    from upd [OF this] show ?thesis using answer(1) by simp
  next
    case (lock i t)
    then have "calm (Running t)" using job [of i] by simp
    from upd [OF this] show ?thesis using lock(1) by simp
  next
    case (unlock i t)
    then have "calm (Running t)" using job [of i] by simp
    from upd [OF this] show ?thesis using unlock(1) by simp
  next
    case (finish i r)
    then have "calm (Finished r)" using job [of i] by simp
    from upd [OF this] show ?thesis using finish(1) by simp
  qed (use assms(2) started ended in auto)
qed

interpretation calm_pool: step_invariant "pool_step ext b env" "\<lambda>p. \<exists>w. p = idle_pool w" "\<lambda>p. \<forall>j \<in> set (pl_jobs p). calm j"
  for ext :: "'w externals" and b env
proof (unfold_locales, goal_cases)
  case (1 p)
  then show ?case by (auto simp: idle_pool_def)
next
  case (2 p p')
  then show ?case using calm_step by metis
qed

end
