(* ===== verification/Alloy_Provider.thy ===== *)
theory Alloy_Provider
  imports Provider
begin

text \<open>
  \<open>AlloyProvider\<close> of \<open>crates/bundler/src/provider.rs\<close>: the production implementation of
  \<open>EthProvider\<close> over alloy's \<open>RootProvider\<close>.  The node, the contract bindings, the ABI coders and
  the clock are code outside the repository and form the parameter record \<open>RootProvider\<close>; a call
  that never comes back is \<open>None\<close>.  The receipt wait polls in a loop with exponential backoff: it
  is shown to return, within a bounded number of polls, whenever the node answers and the clock
  advances.
\<close>

section \<open>The node behind the provider\<close>

text \<open>What the code looks at of alloy's errors, blocks, receipts and requests.\<close>

record error_payload =
  ep_as_revert_data :: "bytes option"

record rpc_error =
  re_to_string :: string
  re_as_error_resp :: "error_payload option"

record block =
  blk_base_fee_per_gas :: "u64 option"

record receipt =
  rc_block_number :: "u64 option"
  rc_status :: bool

record TransactionRequest =
  tr_from :: "address option"
  tr_to :: "address option"
  tr_input :: "bytes option"

definition default_request :: TransactionRequest where
  "default_request = \<lparr> tr_from = None, tr_to = None, tr_input = None \<rparr>"

record AccountOverride =
  ao_code :: "bytes option"

type_synonym StateOverride = "address \<rightharpoonup> AccountOverride"

type_synonym ('w, 'a) node_call = "'w \<Rightarrow> ((rpc_error + 'a) \<times> 'w) option"

record 'w RootProvider =
  rp_get_chain_id :: "('w, u64) node_call"
  rp_get_latest_block :: "('w, block option) node_call"
  rp_get_max_priority_fee_per_gas :: "('w, u128) node_call"
  rp_get_pending_transaction_count :: "address \<Rightarrow> ('w, u64) node_call"
  rp_get_balance :: "address \<Rightarrow> ('w, u256) node_call"
  rp_get_code_at :: "address \<Rightarrow> ('w, bytes) node_call"
  rp_balanceOf :: "address \<Rightarrow> address \<Rightarrow> ('w, u256) node_call"
  rp_getUserOpHash :: "address \<Rightarrow> PackedUserOperation \<Rightarrow> ('w, b256) node_call"
  rp_estimate_gas :: "TransactionRequest \<Rightarrow> ('w, u64) node_call"
  rp_send_raw_transaction :: "bytes \<Rightarrow> ('w, b256) node_call"
  rp_get_transaction_receipt :: "b256 \<Rightarrow> ('w, receipt option) node_call"
  rp_call :: "TransactionRequest \<Rightarrow> StateOverride \<Rightarrow> ('w, bytes) node_call"
  rp_simulateValidation_abi_encode :: "PackedUserOperation \<Rightarrow> bytes"
  rp_simulateValidation_abi_decode_returns :: "bytes \<Rightarrow> string + ValidationResult"
  rp_now :: "'w \<Rightarrow> duration"
  rp_sleep :: "duration \<Rightarrow> 'w \<Rightarrow> 'w option"

section \<open>Construction and single calls\<close>

text \<open>
  \<open>AlloyProvider::new\<close>: the URL parser and the HTTP client are the arguments \<open>parse_url\<close> and
  \<open>new_http\<close>.
\<close>

definition alloy_new :: "(string \<Rightarrow> string + 'u) \<Rightarrow> ('u \<Rightarrow> 'w RootProvider) \<Rightarrow> string \<Rightarrow> ProviderError + 'w RootProvider" where
  "alloy_new parse_url new_http rpc_url =
     (case parse_url rpc_url of Inl e \<Rightarrow> Inl (Transport e) | Inr url \<Rightarrow> Inr (new_http url))"

text \<open>The \<open>Debug\<close> form shows neither the URL nor the client.\<close>

definition debug_AlloyProvider :: "'w RootProvider \<Rightarrow> string" where
  "debug_AlloyProvider self = ''AlloyProvider { .. }''"

text \<open>\<open>.await.map_err(|e| ProviderError::Transport(e.to_string()))\<close>.\<close>

definition transport :: "('w, 'a) node_call \<Rightarrow> ('w, 'a) rpc" where
  "transport m w = map_option (map_prod (map_sum (\<lambda>e. Transport (re_to_string e)) id) id) (m w)"

text \<open>A call followed by a pure conversion of its answer.\<close>

definition rpc_then :: "('w, 'a) rpc \<Rightarrow> ('a \<Rightarrow> ProviderError + 'b) \<Rightarrow> ('w, 'b) rpc" where
  "rpc_then m f w = map_option (\<lambda>(r, w'). (rbind r f, w')) (m w)"

definition alloy_chain_id :: "'w RootProvider \<Rightarrow> ('w, u64) rpc" where
  "alloy_chain_id rp = transport (rp_get_chain_id rp)"

definition alloy_base_fee :: "'w RootProvider \<Rightarrow> ('w, u256) rpc" where
  "alloy_base_fee rp =
     rpc_then (transport (rp_get_latest_block rp)) (\<lambda>block.
       case block of
         None \<Rightarrow> Inl (Transport ''latest block missing'')
       | Some blk \<Rightarrow> Inr (ucast (case blk_base_fee_per_gas blk of Some fee \<Rightarrow> fee | None \<Rightarrow> 0)))"

definition alloy_max_priority_fee :: "'w RootProvider \<Rightarrow> ('w, u256) rpc" where
  "alloy_max_priority_fee rp =
     rpc_then (transport (rp_get_max_priority_fee_per_gas rp)) (\<lambda>tip. Inr (ucast tip))"

definition alloy_pending_nonce :: "'w RootProvider \<Rightarrow> address \<Rightarrow> ('w, u64) rpc" where
  "alloy_pending_nonce rp addr = transport (rp_get_pending_transaction_count rp addr)"

definition alloy_balance :: "'w RootProvider \<Rightarrow> address \<Rightarrow> ('w, u256) rpc" where
  "alloy_balance rp addr = transport (rp_get_balance rp addr)"

definition alloy_get_code :: "'w RootProvider \<Rightarrow> address \<Rightarrow> ('w, bytes) rpc" where
  "alloy_get_code rp addr = transport (rp_get_code_at rp addr)"

definition alloy_balance_of :: "'w RootProvider \<Rightarrow> address \<Rightarrow> address \<Rightarrow> ('w, u256) rpc" where
  "alloy_balance_of rp entrypoint account = transport (rp_balanceOf rp entrypoint account)"

definition alloy_user_op_hash :: "'w RootProvider \<Rightarrow> address \<Rightarrow> PackedUserOperation \<Rightarrow> ('w, b256) rpc" where
  "alloy_user_op_hash rp entrypoint op = transport (rp_getUserOpHash rp entrypoint op)"

definition alloy_estimate_handle_ops_gas :: "'w RootProvider \<Rightarrow> address \<Rightarrow> address \<Rightarrow> bytes \<Rightarrow> ('w, u64) rpc" where
  "alloy_estimate_handle_ops_gas rp sender entrypoint call_data =
     transport (rp_estimate_gas rp
       (default_request\<lparr>tr_from := Some sender, tr_to := Some entrypoint, tr_input := Some call_data\<rparr>))"

definition alloy_send_raw_transaction :: "'w RootProvider \<Rightarrow> bytes \<Rightarrow> ('w, b256) rpc" where
  "alloy_send_raw_transaction rp raw = transport (rp_send_raw_transaction rp raw)"

definition alloy_try_call_for_revert :: "'w RootProvider \<Rightarrow> address \<Rightarrow> address \<Rightarrow> bytes \<Rightarrow> ('w, bytes option) rpc" where
  "alloy_try_call_for_revert rp sender dest call_data w =
     map_option (\<lambda>(r, w').
       (case r of
          Inr _ \<Rightarrow> Inr None
        | Inl err \<Rightarrow> Inr (Option.bind (re_as_error_resp err) ep_as_revert_data), w'))
     (rp_call rp
        (default_request\<lparr>tr_from := Some sender, tr_to := Some dest, tr_input := Some call_data\<rparr>) Map.empty w)"

definition alloy_simulate_validation ::
  "'w RootProvider \<Rightarrow> address \<Rightarrow> bytes \<Rightarrow> PackedUserOperation \<Rightarrow> ('w, ValidationResult) rpc" where
  "alloy_simulate_validation rp entrypoint simulations_code op =
     (let data = rp_simulateValidation_abi_encode rp op;
          overrides = [entrypoint \<mapsto> \<lparr> ao_code = Some simulations_code \<rparr>];
          tx = default_request\<lparr>tr_to := Some entrypoint, tr_input := Some data\<rparr>
      in rpc_then (transport (rp_call rp tx overrides)) (\<lambda>result.
           if result = [] then Inl EmptyCall
           else map_sum Decode id (rp_simulateValidation_abi_decode_returns rp result)))"

section \<open>The receipt wait\<close>

definition receipt_info :: "b256 \<Rightarrow> receipt \<Rightarrow> ReceiptInfo" where
  "receipt_info hash r =
     \<lparr> rcpt_tx_hash = hash,
       rcpt_block_number = (case rc_block_number r of Some n \<Rightarrow> n | None \<Rightarrow> 0),
       rcpt_success = rc_status r \<rparr>"

definition next_backoff :: "duration \<Rightarrow> duration" where
  "next_backoff backoff = min (backoff * 2) (from_secs 2)"

text \<open>The loop has no bound of its own: \<open>None\<close> when a call or a sleep never returns.\<close>

partial_function (option) poll_receipt ::
  "'w RootProvider \<Rightarrow> b256 \<Rightarrow> duration \<Rightarrow> duration \<Rightarrow> ('w, ReceiptInfo option) rpc" where
  "poll_receipt rp hash deadline backoff w =
     Option.bind (transport (rp_get_transaction_receipt rp hash) w) (\<lambda>(answer, w1).
       case answer of
         Inl e \<Rightarrow> Some (Inl e, w1)
       | Inr (Some r) \<Rightarrow> Some (Inr (Some (receipt_info hash r)), w1)
       | Inr None \<Rightarrow>
           (let now = rp_now rp w1 in
            if now \<ge> deadline then Some (Inr None, w1)
            else Option.bind (rp_sleep rp (min backoff (deadline - now)) w1) (\<lambda>w2.
                   poll_receipt rp hash deadline (next_backoff backoff) w2)))"

definition alloy_wait_for_receipt :: "'w RootProvider \<Rightarrow> b256 \<Rightarrow> duration \<Rightarrow> ('w, ReceiptInfo option) rpc" where
  "alloy_wait_for_receipt rp hash timeout w =
     poll_receipt rp hash (rp_now rp w + timeout) (from_millis 200) w"

definition alloy_provider :: "'w RootProvider \<Rightarrow> 'w EthProvider" where
  "alloy_provider rp =
     \<lparr> pv_chain_id = alloy_chain_id rp,
       pv_base_fee = alloy_base_fee rp,
       pv_max_priority_fee = alloy_max_priority_fee rp,
       pv_pending_nonce = alloy_pending_nonce rp,
       pv_balance = alloy_balance rp,
       pv_get_code = alloy_get_code rp,
       pv_balance_of = alloy_balance_of rp,
       pv_user_op_hash = alloy_user_op_hash rp,
       pv_estimate_handle_ops_gas = alloy_estimate_handle_ops_gas rp,
       pv_send_raw_transaction = alloy_send_raw_transaction rp,
       pv_wait_for_receipt = alloy_wait_for_receipt rp,
       pv_try_call_for_revert = alloy_try_call_for_revert rp,
       pv_simulate_validation = alloy_simulate_validation rp \<rparr>"

section \<open>How many polls a wait can take\<close>

text \<open>
  The polls of a wait in the slowest case, from the time left and the current backoff: every
  sleep takes exactly as long as asked and no receipt comes.
\<close>

function max_polls :: "duration \<Rightarrow> duration \<Rightarrow> nat" where
  "max_polls left backoff =
     (if left = 0 \<or> backoff = 0 then 1 else Suc (max_polls (left - min backoff left) (next_backoff backoff)))"
  by auto
termination
  by (relation "measure fst") auto

declare max_polls.simps [simp del]

lemma next_backoff_pos [simp]: "0 < backoff \<Longrightarrow> 0 < next_backoff backoff"
  by (simp add: next_backoff_def from_secs_def)

lemma max_polls_30s: "max_polls (from_secs 30) (from_millis 200) = 19"
  by (simp add: max_polls.simps next_backoff_def from_secs_def from_millis_def)

section \<open>The receipt wait returns\<close>

text \<open>
  What the wait needs of the node and the runtime: the receipt call comes back and time does not
  run backwards over it, and a sleep lasts at least as long as asked.
\<close>

definition timely :: "'w RootProvider \<Rightarrow> b256 \<Rightarrow> bool" where
  "timely rp hash \<longleftrightarrow>
     (\<forall>w. \<exists>r w1. rp_get_transaction_receipt rp hash w = Some (r, w1) \<and> rp_now rp w \<le> rp_now rp w1)
     \<and> (\<forall>d w. \<exists>w1. rp_sleep rp d w = Some w1 \<and> rp_now rp w + d \<le> rp_now rp w1)"

text \<open>A count of the receipt calls made so far.\<close>

definition counts_polls :: "'w RootProvider \<Rightarrow> b256 \<Rightarrow> ('w \<Rightarrow> nat) \<Rightarrow> bool" where
  "counts_polls rp hash polls \<longleftrightarrow>
     (\<forall>w r w1. rp_get_transaction_receipt rp hash w = Some (r, w1) \<longrightarrow> polls w1 = Suc (polls w))
     \<and> (\<forall>d w w1. rp_sleep rp d w = Some w1 \<longrightarrow> polls w1 = polls w)"

lemma poll_receipt_at:
  assumes "rp_get_transaction_receipt rp hash w = Some (r, w1)"
  shows "poll_receipt rp hash deadline backoff w =
     (case r of
        Inl e \<Rightarrow> Some (Inl (Transport (re_to_string e)), w1)
      | Inr (Some rc) \<Rightarrow> Some (Inr (Some (receipt_info hash rc)), w1)
      | Inr None \<Rightarrow>
          if rp_now rp w1 \<ge> deadline then Some (Inr None, w1)
          else Option.bind (rp_sleep rp (min backoff (deadline - rp_now rp w1)) w1)
                 (poll_receipt rp hash deadline (next_backoff backoff)))"
  by (subst poll_receipt.simps)
     (simp add: transport_def assms Let_def split: sum.splits option.splits)

lemma poll_receipt_returns:
  assumes "timely rp hash" and "0 < backoff" and "deadline \<le> rp_now rp w + left"
  shows "\<exists>r w'. poll_receipt rp hash deadline backoff w = Some (r, w')
     \<and> (counts_polls rp hash polls \<longrightarrow> polls w' \<le> polls w + max_polls left backoff)"
  using assms(2,3)
proof (induction left backoff arbitrary: w rule: max_polls.induct)
  case (1 left backoff)
  from assms(1) obtain r w1 where r: "rp_get_transaction_receipt rp hash w = Some (r, w1)"
    and mono: "rp_now rp w \<le> rp_now rp w1" unfolding timely_def by blast
  have one: "counts_polls rp hash polls \<Longrightarrow> polls w1 = Suc (polls w)"
    using r unfolding counts_polls_def by blast
  show ?case
  proof (cases "r = Inr None \<and> rp_now rp w1 < deadline")
    case False
    then have "\<exists>x. poll_receipt rp hash deadline backoff w = Some (x, w1)"
      by (auto simp: poll_receipt_at [OF r] not_less split: sum.splits option.splits)
    moreover have "1 \<le> max_polls left backoff" by (simp add: max_polls.simps)
    ultimately show ?thesis using one by fastforce
  next
    case True
    let ?d = "min backoff (deadline - rp_now rp w1)"
    from assms(1) obtain w2 where w2: "rp_sleep rp ?d w1 = Some w2" "rp_now rp w1 + ?d \<le> rp_now rp w2"
      unfolding timely_def by blast
    have left: "left \<noteq> 0" using True mono 1(3) by linarith
    have rest: "deadline \<le> rp_now rp w2 + (left - min backoff left)"
      using w2(2) True mono 1(3) by linarith
    from 1(1) [OF _ next_backoff_pos [OF 1(2)] rest] left 1(2) obtain x w' where
      "poll_receipt rp hash deadline (next_backoff backoff) w2 = Some (x, w')"
      and "counts_polls rp hash polls \<Longrightarrow>
             polls w' \<le> polls w2 + max_polls (left - min backoff left) (next_backoff backoff)"
      by auto
    moreover have "counts_polls rp hash polls \<Longrightarrow> polls w2 = polls w1"
      using w2(1) unfolding counts_polls_def by blast
    ultimately show ?thesis
      using True left 1(2) one w2(1) by (auto simp: poll_receipt_at [OF r] max_polls.simps [of left])
  qed
qed

text \<open>The answer of the node that ended a wait, and what the wait made of it.\<close>

definition ended_by :: "'w RootProvider \<Rightarrow> b256 \<Rightarrow> duration \<Rightarrow> (ProviderError + ReceiptInfo option) \<times> 'w \<Rightarrow> bool" where
  "ended_by rp hash deadline res \<longleftrightarrow>
     (\<exists>v answer. rp_get_transaction_receipt rp hash v = Some (answer, snd res)
        \<and> (case answer of
             Inl e \<Rightarrow> fst res = Inl (Transport (re_to_string e))
           | Inr (Some rc) \<Rightarrow> fst res = Inr (Some (receipt_info hash rc))
           | Inr None \<Rightarrow> fst res = Inr None \<and> deadline \<le> rp_now rp (snd res)))"

lemma poll_receipt_result:
  "poll_receipt rp hash deadline backoff w = Some res \<Longrightarrow> ended_by rp hash deadline res"
proof (induction rule: poll_receipt.raw_induct [rotated 1, consumes 1, case_names step])
  case (step poll rp hash deadline backoff w res)
  from step(2) obtain answer w1 where answer: "rp_get_transaction_receipt rp hash w = Some (answer, w1)"
    by (auto simp: transport_def bind_eq_Some_conv)
  show ?case
  proof (cases "answer = Inr None \<and> rp_now rp w1 < deadline")
    case True
    with step(2) answer obtain w2 where "poll rp hash deadline (next_backoff backoff) w2 = Some res"
      by (auto simp: transport_def bind_eq_Some_conv Let_def)
    then show ?thesis by (rule step(1))
  next
    case False
    with step(2) answer show ?thesis
      unfolding ended_by_def
      by (intro exI [of _ w] exI [of _ answer])
         (auto simp: transport_def Let_def not_less split: sum.splits option.splits)
  qed
qed

lemma ended_by_receipt:
  assumes "ended_by rp hash deadline (Inr (Some info), w')"
  shows "\<exists>v rc. rp_get_transaction_receipt rp hash v = Some (Inr (Some rc), w') \<and> info = receipt_info hash rc"
proof -
  from assms obtain v answer where v: "rp_get_transaction_receipt rp hash v = Some (answer, w')"
    and a: "case answer of
              Inl e \<Rightarrow> False
            | Inr (Some rc) \<Rightarrow> info = receipt_info hash rc
            | Inr None \<Rightarrow> False"
    unfolding ended_by_def
    by (elim exE conjE) (rule that, simp, simp split: sum.splits option.splits)
  from a obtain rc where "answer = Inr (Some rc)" "info = receipt_info hash rc"
    by (cases answer; cases "projr answer") auto
  with v show ?thesis by blast
qed

end
