(* ===== verification/Alloy_Properties.thy ===== *)
theory Alloy_Properties
  imports Alloy_Provider Fee_Policy
begin

text \<open>
  What the production provider guarantees, alone and under the build pipeline: the receipt wait
  ends and reports only what the node said, the simulation overrides exactly the EntryPoint's
  code, and a build over a node whose calls come back always comes back itself.
\<close>

section \<open>A node for the examples\<close>

text \<open>
  A node with a clock, a count of the receipt calls and the time the transaction is mined.  Every
  receipt call takes a millisecond.
\<close>

record demo_node =
  dn_clock :: duration
  dn_polls :: nat
  dn_mined_at :: duration

definition demo_answer :: "'a \<Rightarrow> (demo_node, 'a) node_call" where
  "demo_answer x w = Some (Inr x, w)"

definition demo_root :: "demo_node RootProvider" where
  "demo_root =
     \<lparr> rp_get_chain_id = demo_answer 31337,
       rp_get_latest_block = demo_answer (Some \<lparr> blk_base_fee_per_gas = Some 1000000000 \<rparr>),
       rp_get_max_priority_fee_per_gas = demo_answer 1000000000,
       rp_get_pending_transaction_count = (\<lambda>_. demo_answer 7),
       rp_get_balance = (\<lambda>_. demo_answer 1000000000000000000),
       rp_get_code_at = (\<lambda>_. demo_answer [0x60]),
       rp_balanceOf = (\<lambda>_ _. demo_answer 1000000000000000000),
       rp_getUserOpHash = (\<lambda>_ _. demo_answer 5),
       rp_estimate_gas = (\<lambda>_. demo_answer 250000),
       rp_send_raw_transaction = (\<lambda>raw. demo_answer (be_word raw)),
       rp_get_transaction_receipt = (\<lambda>_ w.
          let w1 = w\<lparr>dn_clock := dn_clock w + from_millis 1, dn_polls := Suc (dn_polls w)\<rparr> in
          Some (Inr (if dn_mined_at w \<le> dn_clock w
                     then Some \<lparr> rc_block_number = Some 9, rc_status = True \<rparr> else None), w1)),
       rp_call = (\<lambda>tx overrides. demo_answer (if overrides = Map.empty then [] else [1])),
       rp_simulateValidation_abi_encode = (\<lambda>op. pk_callData op),
       rp_simulateValidation_abi_decode_returns = (\<lambda>bs. Inr mock_validation),
       rp_now = dn_clock,
       rp_sleep = (\<lambda>d w. Some (w\<lparr>dn_clock := dn_clock w + d\<rparr>)) \<rparr>"

lemma demo_root_timely: "timely demo_root hash"
  by (auto simp: timely_def demo_root_def Let_def)

lemma demo_root_counts: "counts_polls demo_root hash dn_polls"
  by (auto simp: counts_polls_def demo_root_def Let_def)

section \<open>The receipt wait\<close>

text \<open>
  C13. The receipt wait of a submitted bundle ends: if receipt calls come back, time does not run
  backwards and sleeps last as long as asked, it returns after at most 19 polls of the node.
\<close>

theorem receipt_wait_terminates:
  assumes "timely rp hash"
  shows "\<exists>r w'. alloy_wait_for_receipt rp hash RECEIPT_TIMEOUT w = Some (r, w')
     \<and> (\<forall>polls. counts_polls rp hash polls \<longrightarrow> polls w' \<le> polls w + 19)"
proof -
  have pos: "0 < from_millis 200" by (simp add: from_millis_def)
  have bound: "\<exists>r w'. alloy_wait_for_receipt rp hash RECEIPT_TIMEOUT w = Some (r, w')
     \<and> (counts_polls rp hash polls \<longrightarrow> polls w' \<le> polls w + 19)" for polls
    using poll_receipt_returns [OF assms pos, of "rp_now rp w + from_secs 30" w "from_secs 30" polls]
    by (simp add: alloy_wait_for_receipt_def RECEIPT_TIMEOUT_def max_polls_30s)
  from bound obtain r w' where r: "alloy_wait_for_receipt rp hash RECEIPT_TIMEOUT w = Some (r, w')" by blast
  with bound show ?thesis by (intro exI [of _ r] exI [of _ w']) auto
qed

theorem receipt_wait_terminates_witness:
  "\<exists>r w'. alloy_wait_for_receipt demo_root 7 RECEIPT_TIMEOUT
            \<lparr> dn_clock = 0, dn_polls = 0, dn_mined_at = from_secs 60 \<rparr> = Some (r, w') \<and> dn_polls w' \<le> 19"
proof -
  let ?w = "\<lparr> dn_clock = 0, dn_polls = 0, dn_mined_at = from_secs 60 \<rparr>"
  from receipt_wait_terminates [OF demo_root_timely, of 7 ?w] obtain r w' where
    "alloy_wait_for_receipt demo_root 7 RECEIPT_TIMEOUT ?w = Some (r, w')" "dn_polls w' \<le> dn_polls ?w + 19"
    using demo_root_counts by blast
  then show ?thesis by auto
qed

text \<open>
  C27. The wait reports what the node last said: a receipt for the awaited hash with the node's
  status, an error of the node, or nothing, and nothing only once the full timeout has passed.
\<close>

theorem receipt_wait_sound:
  assumes "alloy_wait_for_receipt rp hash timeout w = Some (r, w')"
  shows "\<exists>v answer. rp_get_transaction_receipt rp hash v = Some (answer, w')
     \<and> (case answer of
          Inl e \<Rightarrow> r = Inl (Transport (re_to_string e))
        | Inr None \<Rightarrow> r = Inr None \<and> rp_now rp w + timeout \<le> rp_now rp w'
        | Inr (Some rc) \<Rightarrow> \<exists>info. r = Inr (Some info) \<and> rcpt_tx_hash info = hash
                              \<and> rcpt_success info = rc_status rc)"
proof -
  from assms have "ended_by rp hash (rp_now rp w + timeout) (r, w')"
    unfolding alloy_wait_for_receipt_def by (rule poll_receipt_result)
  then obtain v answer where "rp_get_transaction_receipt rp hash v = Some (answer, w')"
    and "case answer of
           Inl e \<Rightarrow> r = Inl (Transport (re_to_string e))
         | Inr (Some rc) \<Rightarrow> r = Inr (Some (receipt_info hash rc))
         | Inr None \<Rightarrow> r = Inr None \<and> rp_now rp w + timeout \<le> rp_now rp w'"
    unfolding ended_by_def fst_conv snd_conv by blast
  then show ?thesis
    by (intro exI [of _ v] exI [of _ answer]) (auto simp: receipt_info_def split: sum.splits option.splits)
qed

lemma demo_wait_mined:
  "alloy_wait_for_receipt demo_root 7 (from_secs 1) \<lparr> dn_clock = 0, dn_polls = 0, dn_mined_at = from_millis 100 \<rparr>
     = Some (Inr (Some \<lparr> rcpt_tx_hash = 7, rcpt_block_number = 9, rcpt_success = True \<rparr>),
             \<lparr> dn_clock = from_millis 202, dn_polls = 2, dn_mined_at = from_millis 100 \<rparr>)"
  by (simp add: alloy_wait_for_receipt_def poll_receipt.simps transport_def demo_root_def from_millis_def
      from_secs_def receipt_info_def)

theorem receipt_wait_sound_witness:
  "\<exists>v rc. rp_get_transaction_receipt demo_root 7 v
            = Some (Inr (Some rc), \<lparr> dn_clock = from_millis 202, dn_polls = 2, dn_mined_at = from_millis 100 \<rparr>)
     \<and> rc_status rc"
proof -
  from receipt_wait_sound [OF demo_wait_mined] obtain v answer where
    v: "rp_get_transaction_receipt demo_root 7 v
          = Some (answer, \<lparr> dn_clock = from_millis 202, dn_polls = 2, dn_mined_at = from_millis 100 \<rparr>)"
    and a: "case answer of
              Inl e \<Rightarrow> Inr (Some \<lparr> rcpt_tx_hash = 7, rcpt_block_number = 9, rcpt_success = True \<rparr>)
                         = Inl (Transport (re_to_string e))
            | Inr None \<Rightarrow> False
            | Inr (Some rc) \<Rightarrow> rc_status rc"
    by (elim exE conjE) (rule that, assumption, simp split: sum.splits option.splits)
  from a obtain rc where "answer = Inr (Some rc)" "rc_status rc"
    by (cases answer; cases "projr answer") auto
  with v show ?thesis by blast
qed

section \<open>Simulation and replay\<close>

text \<open>
  The simulation runs \<open>simulateValidation\<close> of the operation at the EntryPoint's address with
  its code, and no other account, overridden; an empty answer and an undecodable one are errors
  of their own, so a result is always a decoded answer of the node.
\<close>

lemma simulation_call:
  "alloy_simulate_validation rp entrypoint code op w =
     map_option (\<lambda>(r, w').
       (case r of
          Inl e \<Rightarrow> Inl (Transport (re_to_string e))
        | Inr result \<Rightarrow>
            if result = [] then Inl EmptyCall
            else (case rp_simulateValidation_abi_decode_returns rp result of
                    Inl e \<Rightarrow> Inl (Decode e) | Inr v \<Rightarrow> Inr v), w'))
     (rp_call rp \<lparr> tr_from = None, tr_to = Some entrypoint,
                   tr_input = Some (rp_simulateValidation_abi_encode rp op) \<rparr>
        (\<lambda>a. if a = entrypoint then Some \<lparr> ao_code = Some code \<rparr> else None) w)"
proof -
  have one: "(\<lambda>a. if a = entrypoint then Some \<lparr> ao_code = Some code \<rparr> else None) = [entrypoint \<mapsto> \<lparr> ao_code = Some code \<rparr>]"
    by auto
  show ?thesis
    unfolding one alloy_simulate_validation_def rpc_then_def transport_def default_request_def
    by (auto simp: Let_def option.map_comp comp_def split: sum.splits intro!: option.map_cong0)
qed

section \<open>Builds over a responsive node\<close>

text \<open>Every call of a provider comes back, with an answer or an error.\<close>

definition responsive :: "'w EthProvider \<Rightarrow> bool" where
  "responsive pv \<longleftrightarrow>
     (\<forall>w. pv_base_fee pv w \<noteq> None \<and> pv_max_priority_fee pv w \<noteq> None)
     \<and> (\<forall>a w. pv_pending_nonce pv a w \<noteq> None)
     \<and> (\<forall>e a w. pv_balance_of pv e a w \<noteq> None)
     \<and> (\<forall>e p w. pv_user_op_hash pv e p w \<noteq> None)
     \<and> (\<forall>s e d w. pv_estimate_handle_ops_gas pv s e d w \<noteq> None)
     \<and> (\<forall>raw w. pv_send_raw_transaction pv raw w \<noteq> None)
     \<and> (\<forall>h w. pv_wait_for_receipt pv h RECEIPT_TIMEOUT w \<noteq> None)
     \<and> (\<forall>s e d w. pv_try_call_for_revert pv s e d w \<noteq> None)
     \<and> (\<forall>e c p w. pv_simulate_validation pv e c p w \<noteq> None)"

text \<open>Programs that come back from every world.\<close>

definition returns :: "('w, 'e, 'a) prog \<Rightarrow> bool" where
  "returns m \<longleftrightarrow> (\<forall>w. m w \<noteq> None)"

lemma returns_pret [simp]: "returns (pret x)" by (simp add: returns_def pret_def)
lemma returns_pfail [simp]: "returns (pfail e)" by (simp add: returns_def pfail_def)
lemma returns_ppanic [simp]: "returns (ppanic s)" by (simp add: returns_def ppanic_def)
lemma returns_plift [simp]: "returns (plift r)" by (cases r) simp_all

lemma returns_pbind [intro]: "returns m \<Longrightarrow> (\<And>x. returns (k x)) \<Longrightarrow> returns (pbind m k)"
  by (auto simp: returns_def pbind_def split: option.splits flow.splits)

lemma returns_pcall: "(\<And>w. m w \<noteq> None) \<Longrightarrow> returns (pcall conv m)"
  by (auto simp: returns_def pcall_def split: option.splits)

lemma returns_pmap_err: "returns m \<Longrightarrow> returns (pmap_err conv m)"
  by (simp add: returns_def pmap_err_def)

lemma simulate_returns: "responsive pv \<Longrightarrow> returns (simulate pv e c p now)"
  unfolding simulate_def by (intro returns_pbind returns_pcall) (auto simp: responsive_def Let_def)

lemma process_ops_returns:
  assumes "responsive (bd_provider b)"
  shows "returns (process_ops ext b base_fee now i ops bt)"
proof (induction ops arbitrary: i bt)
  case (Cons op ops)
  have prefund: "returns (check_prefund ext b j op p)" for j p
    unfolding check_prefund_def
    by (intro returns_pbind returns_plift) (use assms in \<open>auto simp: responsive_def Let_def
        intro!: returns_pcall split: prod.split\<close>)
  have "returns (process_op ext b base_fee now i op bt)"
    unfolding process_op_def
    using assms prefund simulate_returns [OF assms]
    by (intro returns_pbind returns_plift returns_pmap_err returns_pcall returns_pret)
       (auto simp: responsive_def)
  with Cons show ?case by (auto simp: returns_pbind)
qed simp

lemma prepare_returns:
  assumes "responsive (bd_provider b)"
  shows "returns (prepare ext b ops opts)"
proof -
  have "returns (price_batch ext b base_fee suggested bt)" for base_fee suggested bt
    unfolding price_batch_def Let_def pexpect_def
    by (intro returns_pbind returns_plift returns_pcall)
       (use assms in \<open>auto simp: responsive_def split: option.split prod.split\<close>)
  moreover have "returns (\<lambda>w. pret (unix_now (ext_system_time ext w)) w)"
    by (simp add: returns_def pret_def)
  ultimately show ?thesis
    unfolding prepare_def
    using assms process_ops_returns [OF assms]
    by (intro returns_pbind returns_plift returns_pcall) (auto simp: responsive_def)
qed

lemma build_inner_returns:
  assumes "responsive (bd_provider b)" and "\<forall>tx w. sg_sign_eip1559 (bd_signer b) tx w \<noteq> None"
  shows "returns (build_inner ext b ops opts)"
proof -
  have "returns (await_receipt ext b pr hash)" for pr hash
    unfolding await_receipt_def Let_def
    by (intro returns_pbind returns_pcall)
       (use assms(1) in \<open>auto simp: responsive_def intro!: returns_pcall split: option.split\<close>)
  moreover have "returns (sign_at_nonce b pr nonce)" for pr nonce
    unfolding sign_at_nonce_def by (intro returns_pbind returns_plift returns_pcall) (use assms(2) in blast)
  ultimately show ?thesis
    unfolding build_inner_def Let_def
    using assms(1) prepare_returns [OF assms(1)]
    by (intro returns_pbind returns_pcall) (auto simp: responsive_def intro!: returns_pcall)
qed

text \<open>
  What a build needs of the node: every call comes back, and receipt polling is timely.
\<close>

definition node_responds :: "'w RootProvider \<Rightarrow> bool" where
  "node_responds rp \<longleftrightarrow>
     (\<forall>w. rp_get_latest_block rp w \<noteq> None \<and> rp_get_max_priority_fee_per_gas rp w \<noteq> None)
     \<and> (\<forall>a w. rp_get_pending_transaction_count rp a w \<noteq> None)
     \<and> (\<forall>e a w. rp_balanceOf rp e a w \<noteq> None)
     \<and> (\<forall>e p w. rp_getUserOpHash rp e p w \<noteq> None)
     \<and> (\<forall>tx w. rp_estimate_gas rp tx w \<noteq> None)
     \<and> (\<forall>raw w. rp_send_raw_transaction rp raw w \<noteq> None)
     \<and> (\<forall>tx ov w. rp_call rp tx ov w \<noteq> None)
     \<and> (\<forall>hash. timely rp hash)"

lemma alloy_responsive:
  assumes "node_responds rp"
  shows "responsive (alloy_provider rp)"
proof -
  have "alloy_wait_for_receipt rp h RECEIPT_TIMEOUT w \<noteq> None" for h w
  proof -
    have "timely rp h" "0 < from_millis 200" using assms by (simp_all add: node_responds_def from_millis_def)
    from poll_receipt_returns [OF this, of "rp_now rp w + RECEIPT_TIMEOUT" w RECEIPT_TIMEOUT "\<lambda>_. 0"]
    show ?thesis by (auto simp: alloy_wait_for_receipt_def)
  qed
  with assms show ?thesis
    by (simp add: responsive_def node_responds_def alloy_provider_def alloy_base_fee_def alloy_max_priority_fee_def
        alloy_pending_nonce_def alloy_balance_of_def alloy_user_op_hash_def alloy_estimate_handle_ops_gas_def
        alloy_send_raw_transaction_def alloy_try_call_for_revert_def alloy_simulate_validation_def rpc_then_def
        transport_def Let_def)
qed

text \<open>
  C20. A build over the production provider with a local signer ends in a response or an error
  value, never in a panic and never without an answer, whenever the node's calls come back.
\<close>

theorem production_build_ends:
  assumes "node_responds rp" and "bd_provider b = alloy_provider rp" and "bd_signer b = local_signer keys ls"
  shows "\<exists>r w'. build_inner ext b ops opts w = Some (r, w') \<and> ((\<exists>resp. r = Done resp) \<or> (\<exists>e. r = Fail e))"
proof -
  have "\<forall>tx w. sg_sign_eip1559 (bd_signer b) tx w \<noteq> None"
    unfolding assms(3) using local_signer_completes by (metis option.distinct(1))
  then have "build_inner ext b ops opts w \<noteq> None"
    using build_inner_returns [of b ext ops opts] alloy_responsive [OF assms(1)] assms(2)
    by (auto simp: returns_def)
  then obtain r w' where r: "build_inner ext b ops opts w = Some (r, w')" by auto
  with build_inner_no_panic [of ext b ops opts w] show ?thesis by (cases r) auto
qed

lemma demo_root_responds: "node_responds demo_root"
  using demo_root_timely by (auto simp: node_responds_def) (auto simp: demo_root_def demo_answer_def)

theorem production_build_ends_witness:
  "\<exists>r w'. build_inner
     \<lparr> ext_formats = demo_formats, ext_abi_errors = demo_abi_errors, ext_consensus = demo_consensus,
       ext_handleOps_abi_encode = (\<lambda>c. []), ext_system_time = (\<lambda>w. int (dn_clock w)) \<rparr>
     \<lparr> bd_cfg = test_config, bd_provider = alloy_provider demo_root,
       bd_signer = local_signer demo_keys \<lparr> ls_inner = 3 \<rparr>, bd_simulations_code = [0x60] \<rparr>
     [happy_op] (demo_opts True) \<lparr> dn_clock = 0, dn_polls = 0, dn_mined_at = 5 \<rparr> = Some (r, w')
     \<and> ((\<exists>resp. r = Done resp) \<or> (\<exists>e. r = Fail e))"
  by (rule production_build_ends [OF demo_root_responds]) simp_all

end
