(* ===== verification/Service.thy ===== *)
theory Service
  imports Task_Outcomes Alloy_Properties
begin

text \<open>
  The service around the pipeline: the JSON-RPC handler of \<open>rpc.rs\<close>, the discovery methods of
  \<open>discovery.rs\<close>, the startup probe of \<open>startup.rs\<close> and the wiring of \<open>main.rs\<close> up to the point
  where the server is bound.  \<open>Startup_Log\<close> adds the log and the CORS layer.
\<close>

section \<open>JSON-RPC handler\<close>

record ErrorObject =
  eo_code :: int
  eo_message :: string
  eo_data :: "json option"

text \<open>The reply to an outcome of the build; \<open>None\<close> when the handler itself would panic.\<close>

definition rpc_reply :: "formats \<Rightarrow> (BundlerError, SignedTxResp) flow \<Rightarrow> (ErrorObject + SignedTxResp) option" where
  "rpc_reply fm outcome =
     (case outcome of
        Done resp \<Rightarrow> Some (Inr resp)
      | Fail e \<Rightarrow>
          (case classify fm e of
             Some (code, data) \<Rightarrow>
               Some (Inl \<lparr> eo_code = code, eo_message = display_BundlerError fm e, eo_data = Some data \<rparr>)
           | None \<Rightarrow> None)
      | Panic _ \<Rightarrow> None)"

text \<open>The handler holds the bundler; its \<open>Debug\<close> form does not show it.\<close>

record 'w BundlerRpc =
  br_inner :: "'w Bundler"

definition bundler_rpc_new :: "'w Bundler \<Rightarrow> 'w BundlerRpc" where
  "bundler_rpc_new inner = \<lparr> br_inner = inner \<rparr>"

definition debug_BundlerRpc :: "'w BundlerRpc \<Rightarrow> string" where
  "debug_BundlerRpc self = ''BundlerRpc { .. }''"

section \<open>Discovery\<close>

record DiscoveryRpc =
  ds_chain_id :: u64
  ds_entrypoint :: address
  ds_client_version :: string

text \<open>The package version is fixed at build time: the argument \<open>version\<close>.\<close>

definition discovery_new :: "string \<Rightarrow> u64 \<Rightarrow> address \<Rightarrow> DiscoveryRpc" where
  "discovery_new version chain_id entrypoint =
     \<lparr> ds_chain_id = chain_id, ds_entrypoint = entrypoint, ds_client_version = ''ethera-bundler/v'' @ version \<rparr>"

definition discovery_chain_id :: "DiscoveryRpc \<Rightarrow> string" where
  "discovery_chain_id self = ''0x'' @ hex_string (unat (ds_chain_id self))"

definition supported_entry_points :: "DiscoveryRpc \<Rightarrow> address list" where
  "supported_entry_points self = [ds_entrypoint self]"

definition client_version :: "DiscoveryRpc \<Rightarrow> string" where
  "client_version self = ds_client_version self"

section \<open>Startup probe\<close>

definition ONE_ETH_WEI :: u128 where
  "ONE_ETH_WEI = 1000000000000000000"

text \<open>An \<open>anyhow\<close> error: the messages of its chain, the outermost context first.\<close>

type_synonym anyhow = "string list"

datatype log_event =
    ChainIdOk u64
  | EntryPointCodeOk address nat
  | BalanceLow address u256
  | BalanceOk address u256

definition probe ::
  "(address \<Rightarrow> string) \<Rightarrow> 'w EthProvider \<Rightarrow> u64 \<Rightarrow> address \<Rightarrow> address \<Rightarrow> ('w, anyhow, log_event list) prog" where
  "probe display_address provider chain_id entrypoint sequencer =
     pbind (pcall (\<lambda>e. [''eth_chainId probe failed'', display_ProviderError e]) (pv_chain_id provider)) (\<lambda>actual_chain_id.
     if actual_chain_id \<noteq> chain_id
     then pfail [''chain id mismatch: config='' @ dec_string (unat chain_id) @ '', rpc='' @ dec_string (unat actual_chain_id)
                 @ '' - bundler would sign txs the chain rejects'']
     else
     pbind (pcall (\<lambda>e. [''eth_getCode(entrypoint) probe failed'', display_ProviderError e])
              (pv_get_code provider entrypoint)) (\<lambda>code.
     if code = []
     then pfail [''EntryPoint '' @ display_address entrypoint @ '' has no code on chain '' @ dec_string (unat chain_id)]
     else
     pbind (pcall (\<lambda>e. [''eth_getBalance(sequencer) probe failed'', display_ProviderError e])
              (pv_balance provider sequencer)) (\<lambda>balance.
     let floor = ucast ONE_ETH_WEI in
     pret [ChainIdOk chain_id, EntryPointCodeOk entrypoint (length code),
           if balance < floor then BalanceLow sequencer balance else BalanceOk sequencer balance])))"

lemma probe_Done_iff:
  "probe display_address pv chain_id entrypoint sequencer w = Some (Done events, w') \<longleftrightarrow>
     (\<exists>code balance w1 w2.
        pv_chain_id pv w = Some (Inr chain_id, w1) \<and> pv_get_code pv entrypoint w1 = Some (Inr code, w2) \<and> code \<noteq> []
        \<and> pv_balance pv sequencer w2 = Some (Inr balance, w')
        \<and> events = [ChainIdOk chain_id, EntryPointCodeOk entrypoint (length code),
                    if unat balance < 10 ^ 18 then BalanceLow sequencer balance else BalanceOk sequencer balance])"
proof -
  have "balance < ucast ONE_ETH_WEI \<longleftrightarrow> unat balance < 10 ^ 18" for balance :: u256
    by (simp add: ONE_ETH_WEI_def word_less_nat_alt)
  then show ?thesis
    unfolding probe_def Let_def
    by (simp add: prog_simps if_prog_Done_iff split del: if_split) blast
qed

section \<open>The binary\<close>

text \<open>What \<open>main\<close> hands to the server.\<close>

record 'w service =
  sv_bundler :: "'w Bundler"
  sv_discovery :: DiscoveryRpc

definition main_service ::
  "(string \<Rightarrow> string + 'u) \<Rightarrow> ('u \<Rightarrow> 'w RootProvider) \<Rightarrow> 'k PrivateKeySigner \<Rightarrow> (address \<Rightarrow> string)
     \<Rightarrow> formats \<Rightarrow> bytes \<Rightarrow> string \<Rightarrow> BundlerConfig \<Rightarrow> ('w, anyhow, 'w service) prog" where
  "main_service parse_url new_http keys display_address fm runtime version cfg =
     pbind (plift (map_sum (\<lambda>e. [''failed to construct execution-layer RPC provider'', display_ProviderError e])
              alloy_provider (alloy_new parse_url new_http (cfg_exec_rpc_url cfg)))) (\<lambda>provider.
     pbind (plift (map_sum (\<lambda>e. [''failed to load sequencer key'', display_SignerError e])
              (local_signer keys) (local_signer_from_key keys (cfg_sequencer_key cfg)))) (\<lambda>signer.
     pbind (pmap_err (\<lambda>e. ''startup probe failed'' # e)
              (probe display_address provider (cfg_chain_id cfg) (cfg_entrypoint_address cfg) (sg_address signer))) (\<lambda>_.
     pbind (plift (map_sum (\<lambda>e. [''failed to construct bundler'', display_BundlerError fm e]) id
              (bundler_with_cancellation runtime cfg provider signer))) (\<lambda>bundler.
     pret \<lparr> sv_bundler = bundler,
            sv_discovery = discovery_new version (cfg_chain_id cfg) (cfg_entrypoint_address cfg) \<rparr>))))"

section \<open>Properties\<close>

text \<open>The reply to an error.\<close>

lemma error_reply:
  "\<exists>obj data reason. rpc_reply fm (Fail e) = Some (Inl obj)
     \<and> eo_code obj \<in> {-32602, -32603, -32500, -32501, -32503, -32521}
     \<and> eo_message obj = display_BundlerError fm e
     \<and> eo_data obj = Some data \<and> json_get data ''reason'' = Some (JStr reason)"
proof -
  obtain c d reason where "classify fm e = Some (c, d)" "json_get d ''reason'' = Some (JStr reason)"
    "c \<in> {-32602, -32603, -32500, -32501, -32503, -32521}"
    using bundler_class.classified [of fm e] by (auto simp: code_defs)
  then show ?thesis by (simp add: rpc_reply_def)
qed

text \<open>
  C11. Every request is answered: in every reachable state of the pool each build that has ended
  has a reply, the response of the build or an error object with one of the declared codes, the
  rendered error as its message and a payload that states a reason.
\<close>

theorem every_build_is_answered:
  assumes "(pool_step ext b env)\<^sup>*\<^sup>* (idle_pool w) p" and "Finished r \<in> set (pl_jobs p)"
  shows "(\<exists>resp. r = Done resp \<and> rpc_reply fm r = Some (Inr resp))
     \<or> (\<exists>e obj data reason. r = Fail e \<and> rpc_reply fm r = Some (Inl obj)
          \<and> eo_code obj \<in> {-32602, -32603, -32500, -32501, -32503, -32521}
          \<and> eo_message obj = display_BundlerError fm e
          \<and> eo_data obj = Some data \<and> json_get data ''reason'' = Some (JStr reason))"
proof -
  have "\<forall>j \<in> set (pl_jobs p). calm j" using calm_pool.always [OF _ assms(1)] by blast
  then have "result (\<lambda>_. True) r" using assms(2) by fastforce
  then consider resp where "r = Done resp" | e where "r = Fail e" by (cases r) auto
  then show ?thesis
  proof cases
    case 1
    then show ?thesis by (simp add: rpc_reply_def)
  next
    case 2
    with error_reply [of fm e] show ?thesis by blast
  qed
qed

theorem every_build_is_answered_witness:
  "rpc_reply demo_formats (Done (demo_resp 7)) = Some (Inr (demo_resp 7))"
  using every_build_is_answered [OF strict_runs, of "Done (demo_resp 7)" demo_formats]
  by (simp add: two_done_def)

text \<open>
  \<open>eth_chainId\<close> is well formed and exact: the prefix and the hexadecimal digits of the chain
  id, no leading zero unless the id is zero, and reading the digits back gives the id.
\<close>

lemma chain_id_wellformed:
  "\<exists>digits. discovery_chain_id (discovery_new version chain_id entrypoint) = ''0x'' @ digits
     \<and> radix_value 16 digits = unat chain_id
     \<and> (chain_id \<noteq> 0 \<longrightarrow> hd digits \<noteq> CHR ''0'')"
proof -
  have "chain_id \<noteq> 0 \<Longrightarrow> 0 < unat chain_id" by (simp add: unat_gt_0)
  then have "chain_id \<noteq> 0 \<Longrightarrow> hd (hex_string (unat chain_id)) \<noteq> CHR ''0''"
    by (intro radix_string_no_leading_zero) auto
  then show ?thesis
    by (intro exI [of _ "hex_string (unat chain_id)"])
       (simp add: discovery_chain_id_def discovery_new_def radix_value_string)
qed

end
