(* ===== verification/Lifecycle.thy ===== *)
theory Lifecycle
  imports Service
begin

text \<open>
  The process of \<open>bin/ethera-bundler/src/main.rs\<close> from start to exit: the set-up of
  \<open>main_service\<close>, the method table of the server, the bound listener, the requests it serves, the
  interrupt, and the wait for the server to stop.  \<open>RpcModule::merge\<close> and the listener belong to
  jsonrpsee and are parameters; the interrupt and the end of the server are steps.
\<close>

section \<open>The method table\<close>

text \<open>The names that \<open>#[rpc(namespace)]\<close> and \<open>#[method(name)]\<close> give.\<close>

definition namespaced :: "string \<Rightarrow> string \<Rightarrow> string" where
  "namespaced ns name = ns @ ''_'' @ name"

definition EtheraBundlerApi :: "string list" where
  "EtheraBundlerApi = map (namespaced ''ethera'') [''buildSignedUserOpsTx'']"

definition EthDiscoveryApi :: "string list" where
  "EthDiscoveryApi = map (namespaced ''eth'') [''chainId'', ''supportedEntryPoints'']"

definition Web3DiscoveryApi :: "string list" where
  "Web3DiscoveryApi = map (namespaced ''web3'') [''clientVersion'']"

lemmas api_names = EtheraBundlerApi_def EthDiscoveryApi_def Web3DiscoveryApi_def namespaced_def

text \<open>
  jsonrpsee's part: merging two modules, and binding the listener with its address rendered for
  the error.
\<close>

record 'w host =
  merge :: "string list \<Rightarrow> string list \<Rightarrow> string + string list"
  bind_listener :: "string \<Rightarrow> 'w \<Rightarrow> ((string + unit) \<times> 'w) option"

definition register_methods :: "'w host \<Rightarrow> anyhow + string list" where
  "register_methods h =
     rbind (map_sum (\<lambda>e. [''failed to merge eth discovery rpc'', e]) id
              (merge h EtheraBundlerApi EthDiscoveryApi)) (\<lambda>m.
     map_sum (\<lambda>e. [''failed to merge web3 discovery rpc'', e]) id (merge h m Web3DiscoveryApi))"

definition main_setup ::
  "'w host \<Rightarrow> BundlerConfig \<Rightarrow> ('w, anyhow, 'w service) prog \<Rightarrow> ('w, anyhow, 'w service \<times> string list) prog" where
  "main_setup h cfg service =
     pbind service (\<lambda>svc.
     pbind (plift (register_methods h)) (\<lambda>module.
     pbind (pcall (\<lambda>e. [''failed to bind JSON-RPC server on '' @ cfg_listen_addr cfg, e])
              (bind_listener h (cfg_listen_addr cfg))) (\<lambda>_.
     pret (svc, module))))"

section \<open>The process\<close>

datatype 'w process =
    Booting 'w
  | Serving "'w service" "'w pool"
  | Stopping "'w service" "'w pool"
  | Exited "anyhow + unit"

definition drained :: "'w pool \<Rightarrow> bool" where
  "drained p \<longleftrightarrow> list_all (\<lambda>j. case j of Finished _ \<Rightarrow> True | _ \<Rightarrow> False) (pl_jobs p)"

text \<open>
  While the server runs its builds step as the pool does.  An interrupt cancels the token, whatever
  builds are in the middle of a poll then, and stops the server; that the server has stopped once the
  requests it accepted are answered (\<open>drained\<close>) is what jsonrpsee documents of \<open>ServerHandle::stopped\<close>.
  A failing interrupt handler ends the process without either.
\<close>

inductive main_step ::
  "'w externals \<Rightarrow> ('w \<Rightarrow> 'w \<Rightarrow> bool) \<Rightarrow> ('w, anyhow, 'w service \<times> string list) prog \<Rightarrow> 'w process \<Rightarrow> 'w process \<Rightarrow> bool"
  for ext :: "'w externals" and env :: "'w \<Rightarrow> 'w \<Rightarrow> bool" and booting :: "('w, anyhow, 'w service \<times> string list) prog" where
  boot: "booting w = Some (Done (svc, module), w') \<Longrightarrow>
    main_step ext env booting (Booting w) (Serving svc (idle_pool w'))"
| boot_failed: "booting w = Some (Fail e, w') \<Longrightarrow>
    main_step ext env booting (Booting w) (Exited (Inl e))"
| serve: "pool_step ext (sv_bundler svc) env p p' \<Longrightarrow> \<not> pl_cancelled p' \<Longrightarrow>
    main_step ext env booting (Serving svc p) (Serving svc p')"
| interrupt: "polled \<subseteq> {..<length (pl_jobs p)} \<Longrightarrow>
    main_step ext env booting (Serving svc p) (Stopping svc (p\<lparr>pl_cancelled := True, pl_polled := polled\<rparr>))"
| interrupt_failed: "main_step ext env booting (Serving svc p) (Exited (Inl [''ctrl_c handler failed'', e]))"
| drain: "pool_step ext (sv_bundler svc) env p p' \<Longrightarrow>
    main_step ext env booting (Stopping svc p) (Stopping svc p')"
| stopped: "drained p \<Longrightarrow> main_step ext env booting (Stopping svc p) (Exited (Inr ()))"

section \<open>The process runs a pool\<close>

definition process_inv ::
  "'w externals \<Rightarrow> ('w \<Rightarrow> 'w \<Rightarrow> bool) \<Rightarrow> ('w, anyhow, 'w service \<times> string list) prog \<Rightarrow> 'w process \<Rightarrow> bool" where
  "process_inv ext env booting s \<longleftrightarrow>
     (\<forall>svc p. s = Serving svc p \<or> s = Stopping svc p \<longrightarrow>
        (\<exists>w module w'. booting w = Some (Done (svc, module), w')
           \<and> (pool_step ext (sv_bundler svc) env)\<^sup>*\<^sup>* (idle_pool w') p)
        \<and> pl_cancelled p = (s = Stopping svc p))"

lemma process_inv_step:
  assumes "process_inv ext env booting s" and "main_step ext env booting s s'"
  shows "process_inv ext env booting s'"
  using assms(2)
proof cases
  case (boot w svc module w')
  then show ?thesis by (auto simp: process_inv_def idle_pool_def)
next
  case (serve svc p p')
  with assms(1) show ?thesis unfolding process_inv_def by (auto intro: rtranclp.rtrancl_into_rtrancl)
next
  case (interrupt polled p svc)
  with assms(1) have "\<not> pl_cancelled p" by (simp add: process_inv_def)
  then have "pool_step ext (sv_bundler svc) env p (p\<lparr>pl_cancelled := True, pl_polled := polled\<rparr>)"
    using interrupt(3) by (rule pool_step.cancel)
  with interrupt assms(1) show ?thesis unfolding process_inv_def by (auto intro: rtranclp.rtrancl_into_rtrancl)
next
  case (drain svc p p')
  with assms(1) cancelled_stays [OF drain(3)] show ?thesis unfolding process_inv_def
    by (auto intro: rtranclp.rtrancl_into_rtrancl)
qed (simp_all add: process_inv_def)

interpretation process: step_invariant "main_step ext env booting" "\<lambda>s. \<exists>w. s = Booting w" "process_inv ext env booting"
  for ext :: "'w externals" and env booting
proof (unfold_locales, goal_cases)
  case (1 s)
  then show ?case by (auto simp: process_inv_def)
next
  case (2 s s')
  then show ?case by (rule process_inv_step)
qed

section \<open>Draining\<close>

text \<open>A job that ends without any call being answered, while the others rest.\<close>

definition ends_alone :: "'w externals \<Rightarrow> 'w Bundler \<Rightarrow> ('w \<Rightarrow> 'w \<Rightarrow> bool) \<Rightarrow> 'w pool \<Rightarrow> nat
    \<Rightarrow> (BundlerError, SignedTxResp) flow \<Rightarrow> bool" where
  "ends_alone ext b env p i r \<longleftrightarrow>
     (\<exists>p'. (pool_step ext b env)\<^sup>*\<^sup>* p p' \<and> pl_jobs p' = (pl_jobs p)[i := Finished r]
        \<and> pl_world p' = pl_world p \<and> pl_cancelled p' = pl_cancelled p)"

text \<open>How a job may end once the token is cancelled.\<close>

definition closes :: "'w job \<Rightarrow> (BundlerError, SignedTxResp) flow \<Rightarrow> bool" where
  "closes j r = (case j of
      Queued _ _ \<Rightarrow> r = Fail Cancelled
    | Running t \<Rightarrow> awaits t \<longrightarrow> r = Fail Cancelled
    | Finished r' \<Rightarrow> r = r')"

lemma closes_simps [simp]:
  "closes (Queued ops opts) r \<longleftrightarrow> r = Fail Cancelled"
  "closes (Running t) r \<longleftrightarrow> (awaits t \<longrightarrow> r = Fail Cancelled)"
  "closes (Finished r') r \<longleftrightarrow> r = r'"
  by (simp_all add: closes_def)

lemma ends_now:
  assumes "pool_step ext b env p p'" and "pl_jobs p' = (pl_jobs p)[i := Finished r]"
    and "pl_world p' = pl_world p" and "pl_cancelled p' = pl_cancelled p"
  shows "ends_alone ext b env p i r"
  using assms unfolding ends_alone_def by blast

lemma task_ends:
  assumes "i < length (pl_jobs p)" and "pl_jobs p ! i = Running t" and "pl_cancelled p"
  shows "\<exists>r. ends_alone ext b env p i r \<and> (awaits t \<longrightarrow> r = Fail Cancelled)"
  using assms
proof (induction t arbitrary: p)
  case (Return r)
  then have "ends_alone ext b env p i r" by (intro ends_now [OF pool_step.finish]) simp_all
  then show ?case by (auto simp: awaits_def)
next
  case (Release t)
  let ?p = "p\<lparr>pl_lock := drop_guard i (pl_lock p), pl_jobs := (pl_jobs p)[i := Running t]\<rparr>"
  have "pool_step ext b env p ?p" using Release.prems by (intro pool_step.unlock)
  moreover obtain r where "ends_alone ext b env ?p i r"
    using Release.IH [of ?p] Release.prems by auto
  ultimately have "ends_alone ext b env p i r"
    unfolding ends_alone_def by (auto intro: steps_trans)
  then show ?case by (auto simp: awaits_def)
next
  case (Await f)
  have "awaits (Await f)" by (simp add: awaits_def)
  from ends_now [OF pool_step.abort [OF Await.prems(1,2) this Await.prems(3)], of i "Fail Cancelled"]
  have "ends_alone ext b env p i (Fail Cancelled)" by simp
  then show ?case by blast
next
  case (Acquire t)
  have "awaits (Acquire t)" by (simp add: awaits_def)
  from ends_now [OF pool_step.abort [OF Acquire.prems(1,2) this Acquire.prems(3)], of i "Fail Cancelled"]
  have "ends_alone ext b env p i (Fail Cancelled)" by simp
  then show ?case by blast
qed

lemma job_ends:
  assumes "i < length (pl_jobs p)" and "pl_cancelled p"
  shows "\<exists>r. ends_alone ext b env p i r \<and> closes (pl_jobs p ! i) r"
proof (cases "pl_jobs p ! i")
  case (Queued ops opts)
  then have "ends_alone ext b env p i (Fail Cancelled)"
    using assms by (intro ends_now [OF pool_step.refuse]) simp_all
  with Queued show ?thesis by simp
next
  case (Running t)
  with task_ends [OF assms(1) Running assms(2)] show ?thesis by simp
next
  case (Finished r)
  then have "(pl_jobs p)[i := Finished r] = pl_jobs p" using assms(1) by (metis list_update_id)
  then have "ends_alone ext b env p i r" unfolding ends_alone_def by auto
  with Finished show ?thesis by simp
qed

lemma drains_upto:
  assumes "pl_cancelled p" and "k \<le> length (pl_jobs p)"
  shows "\<exists>p' rs. (pool_step ext b env)\<^sup>*\<^sup>* p p' \<and> pl_world p' = pl_world p \<and> pl_cancelled p'
     \<and> list_all2 closes (take k (pl_jobs p)) rs \<and> pl_jobs p' = map Finished rs @ drop k (pl_jobs p)"
  using assms(2)
proof (induction k)
  case 0
  then show ?case using assms(1) by (intro exI [of _ p] exI [of _ "[]"]) simp
next
  case (Suc k)
  then obtain p' rs where IH: "(pool_step ext b env)\<^sup>*\<^sup>* p p'" "pl_world p' = pl_world p" "pl_cancelled p'"
    "list_all2 closes (take k (pl_jobs p)) rs" and jobs: "pl_jobs p' = map Finished rs @ drop k (pl_jobs p)"
    by auto
  have len: "length rs = k" using IH(4) Suc.prems by (auto dest: list_all2_lengthD)
  have at: "drop k (pl_jobs p) = pl_jobs p ! k # drop (Suc k) (pl_jobs p)" using Suc.prems by (simp add: Cons_nth_drop_Suc)
  obtain r p'' where end_: "(pool_step ext b env)\<^sup>*\<^sup>* p' p''" "pl_jobs p'' = (pl_jobs p')[k := Finished r]"
    "pl_world p'' = pl_world p'" "pl_cancelled p''" "closes (pl_jobs p ! k) r"
    using job_ends [of k p' ext b env] IH(3) by (auto simp: jobs at len nth_append ends_alone_def)
  have "pl_jobs p'' = map Finished (rs @ [r]) @ drop (Suc k) (pl_jobs p)"
    using end_(2) by (simp add: jobs at len list_update_append)
  moreover have "list_all2 closes (take (Suc k) (pl_jobs p)) (rs @ [r])"
    using IH(4) end_(5) Suc.prems by (simp add: take_Suc_conv_app_nth list_all2_appendI)
  ultimately show ?case
    using IH(1,2) end_(1,3,4) by (intro exI [of _ p''] exI [of _ "rs @ [r]"]) (auto intro: rtranclp_trans)
qed

lemma drain_steps:
  "(pool_step ext (sv_bundler svc) env)\<^sup>*\<^sup>* p p' \<Longrightarrow> (main_step ext env booting)\<^sup>*\<^sup>* (Stopping svc p) (Stopping svc p')"
  by (induction rule: rtranclp_induct) (auto intro: rtranclp.rtrancl_into_rtrancl main_step.drain)

section \<open>Properties\<close>

text \<open>What is assumed of jsonrpsee: modules with disjoint method names merge.\<close>

definition lawful_merge :: "'w host \<Rightarrow> bool" where
  "lawful_merge h \<longleftrightarrow> (\<forall>ms ns. set ms \<inter> set ns = {} \<longrightarrow> merge h ms ns = Inr (ms @ ns))"

text \<open>
  The set-up exposes the four documented methods and no others: the names of the three
  interfaces do not clash, so once the service is built only the listener can fail, and the
  failure names the configured address.
\<close>

lemma setup_exposes_methods:
  assumes "lawful_merge h" and "service w = Some (Done svc, w1)"
  shows "main_setup h cfg service w
     = (case bind_listener h (cfg_listen_addr cfg) w1 of
          None \<Rightarrow> None
        | Some (Inl e, w2) \<Rightarrow> Some (Fail [''failed to bind JSON-RPC server on '' @ cfg_listen_addr cfg, e], w2)
        | Some (Inr _, w2) \<Rightarrow> Some (Done (svc, [''ethera_buildSignedUserOpsTx'', ''eth_chainId'',
             ''eth_supportedEntryPoints'', ''web3_clientVersion'']), w2))"
proof -
  have "merge h EtheraBundlerApi EthDiscoveryApi = Inr (EtheraBundlerApi @ EthDiscoveryApi)"
    "merge h (EtheraBundlerApi @ EthDiscoveryApi) Web3DiscoveryApi
       = Inr ((EtheraBundlerApi @ EthDiscoveryApi) @ Web3DiscoveryApi)"
    using assms(1) by (auto simp: lawful_merge_def api_names)
  then have "register_methods h = Inr ((EtheraBundlerApi @ EthDiscoveryApi) @ Web3DiscoveryApi)"
    by (simp add: register_methods_def)
  with assms(2) show ?thesis
    by (simp add: main_setup_def prog_eval api_names split: option.split sum.split)
qed

text \<open>
  The process serves requests only after a successful set-up, and what it then does is a run
  of the pool over the bundler of that set-up, not cancelled before the interrupt and cancelled
  from then on.
\<close>

lemma process_runs_the_pool:
  assumes "(main_step ext env booting)\<^sup>*\<^sup>* (Booting w) s" and "s = Serving svc p \<or> s = Stopping svc p"
  shows "(\<exists>v module v'. booting v = Some (Done (svc, module), v')
            \<and> (pool_step ext (sv_bundler svc) env)\<^sup>*\<^sup>* (idle_pool v') p)
     \<and> (pl_cancelled p \<longleftrightarrow> s = Stopping svc p)"
  using process.always [OF _ assms(1)] assms(2) unfolding process_inv_def by blast

text \<open>
  C14. Shutdown always completes: after the interrupt the process can exit cleanly from every state
  it can be in, without any call being answered, however many requests are waiting, running or
  wedged; requests that were answered keep their answer, the others are answered with the
  cancellation unless they had passed their last await point, and the submit lock is free.
\<close>

theorem shutdown_completes:
  assumes "(main_step ext env booting)\<^sup>*\<^sup>* (Booting w) (Stopping svc p)"
  shows "\<exists>p' rs. (main_step ext env booting)\<^sup>*\<^sup>* (Stopping svc p) (Stopping svc p')
     \<and> main_step ext env booting (Stopping svc p') (Exited (Inr ()))
     \<and> pl_world p' = pl_world p \<and> pl_lock p' = None
     \<and> pl_jobs p' = map Finished rs \<and> list_all2 closes (pl_jobs p) rs"
proof -
  have inv: "process_inv ext env booting (Stopping svc p)" using process.always [OF _ assms] by blast
  then obtain v where c: "pl_cancelled p" and reach: "(pool_step ext (sv_bundler svc) env)\<^sup>*\<^sup>* (idle_pool v) p"
    by (auto simp: process_inv_def)
  obtain p' rs where p': "(pool_step ext (sv_bundler svc) env)\<^sup>*\<^sup>* p p'" "pl_world p' = pl_world p"
    "list_all2 closes (pl_jobs p) rs" "pl_jobs p' = map Finished rs"
    using drains_upto [OF c order_refl, of ext "sv_bundler svc" env] by auto
  have "lock_inv p'" using guarded.always [OF _ rtranclp_trans [OF reach p'(1)]] by blast
  then have "pl_lock p' = None" using p'(4) by (cases "pl_lock p'") (auto simp: lock_inv_def)
  moreover have "drained p'" using p'(4) by (simp add: drained_def list_all_iff)
  ultimately show ?thesis using p' drain_steps main_step.stopped by blast
qed


section \<open>A wedged service\<close>

text \<open>A node whose base fee never comes back, and a build that waits for it at the interrupt.\<close>

definition wedged_bundler :: "MockProvider Bundler" where
  "wedged_bundler = demo_bundler\<lparr>bd_provider := (bd_provider demo_bundler)\<lparr>pv_base_fee := \<lambda>_. None\<rparr>\<rparr>"

definition wedged_service :: "MockProvider service" where
  "wedged_service = \<lparr> sv_bundler = wedged_bundler, sv_discovery = discovery_new ''0.1.0'' TEST_CHAIN_ID ENTRYPOINT_V07 \<rparr>"

definition demo_host :: "'w host" where
  "demo_host = \<lparr> merge = (\<lambda>ms ns. if set ms \<inter> set ns = {} then Inr (ms @ ns) else Inl ''already registered''),
     bind_listener = (\<lambda>addr w. if addr = [] then Some (Inl ''no address'', w) else Some (Inr (), w)) \<rparr>"

definition wedged_boot :: "(MockProvider, anyhow, MockProvider service \<times> string list) prog" where
  "wedged_boot = main_setup demo_host test_config (pret wedged_service)"

abbreviation wedged_job :: "MockProvider job" where
  "wedged_job \<equiv> Running (build_task demo_externals wedged_bundler [happy_op] (demo_opts True))"

definition wedged_pool :: "MockProvider pool" where
  "wedged_pool = \<lparr> pl_world = default_mock, pl_lock = None, pl_jobs = [wedged_job], pl_cancelled = True, pl_polled = {} \<rparr>"

lemma demo_host_lawful: "lawful_merge demo_host"
  by (simp add: lawful_merge_def demo_host_def)

lemma wedged_boots: "\<exists>methods. wedged_boot default_mock = Some (Done (wedged_service, methods), default_mock)"
  by (simp add: wedged_boot_def main_setup_def register_methods_def demo_host_def api_names test_config_def prog_eval)

lemma wedged_awaits: "awaits (build_task demo_externals wedged_bundler [happy_op] (demo_opts True))"
  by (simp add: build_task_def prepare_task_def check_request_def wedged_bundler_def demo_bundler_def demo_opts_def
      test_config_def tlift_def tret_def tcall_def awaits_def)

lemma wedged_reached:
  "(main_step demo_externals (\<lambda>_ _. False) wedged_boot)\<^sup>*\<^sup>* (Booting default_mock) (Stopping wedged_service wedged_pool)"
proof -
  let ?step = "main_step demo_externals (\<lambda>_ _. False) wedged_boot"
  let ?idle = "idle_pool default_mock"
  let ?queued = "?idle\<lparr>pl_jobs := pl_jobs ?idle @ [Queued [happy_op] (demo_opts True)]\<rparr>"
  let ?busy = "?queued\<lparr>pl_jobs := (pl_jobs ?queued)[0 := Running (build_task demo_externals
                (sv_bundler wedged_service) [happy_op] (demo_opts True))]\<rparr>"
  have s1: "?step (Booting default_mock) (Serving wedged_service ?idle)"
    using wedged_boots by (auto intro: main_step.boot)
  have s2: "?step (Serving wedged_service ?idle) (Serving wedged_service ?queued)"
    by (rule main_step.serve [OF pool_step.arrive]) (simp add: idle_pool_def)
  have s3: "?step (Serving wedged_service ?queued) (Serving wedged_service ?busy)"
    by (rule main_step.serve [OF pool_step.start]) (simp_all add: idle_pool_def)
  have s4: "?step (Serving wedged_service ?busy) (Stopping wedged_service (?busy\<lparr>pl_cancelled := True, pl_polled := {}\<rparr>))"
    by (rule main_step.interrupt) simp
  have eq: "?busy\<lparr>pl_cancelled := True, pl_polled := {}\<rparr> = wedged_pool"
    by (simp add: idle_pool_def wedged_pool_def wedged_service_def)
  show ?thesis
    by (rule steps_trans [of ?step, OF s1], rule steps_trans [of ?step, OF s2], rule steps_trans [of ?step, OF s3],
        rule r_into_rtranclp [of ?step], rule s4 [unfolded eq])
qed

theorem shutdown_completes_witness:
  "build_inner demo_externals wedged_bundler [happy_op] (demo_opts True) default_mock = None
   \<and> (\<exists>p'. (main_step demo_externals (\<lambda>_ _. False) wedged_boot)\<^sup>*\<^sup>* (Stopping wedged_service wedged_pool)
            (Stopping wedged_service p')
        \<and> pl_jobs p' = [Finished (Fail Cancelled)])"
proof
  show "build_inner demo_externals wedged_bundler [happy_op] (demo_opts True) default_mock = None"
    by (simp add: build_inner_def prepare_def check_request_def wedged_bundler_def demo_bundler_def demo_opts_def
        test_config_def) (simp add: pbind_def pcall_def)
  obtain p' rs where p': "(main_step demo_externals (\<lambda>_ _. False) wedged_boot)\<^sup>*\<^sup>* (Stopping wedged_service wedged_pool)
      (Stopping wedged_service p')" "pl_jobs p' = map Finished rs" "list_all2 closes (pl_jobs wedged_pool) rs"
    using shutdown_completes [OF wedged_reached] by blast
  from p'(3) wedged_awaits have "rs = [Fail Cancelled]" by (auto simp: wedged_pool_def list_all2_Cons1)
  with p' show "\<exists>p'. (main_step demo_externals (\<lambda>_ _. False) wedged_boot)\<^sup>*\<^sup>* (Stopping wedged_service wedged_pool)
            (Stopping wedged_service p')
        \<and> pl_jobs p' = [Finished (Fail Cancelled)]" by auto
qed

end
