(* ===== verification/Cli_Config.thy ===== *)
theory Cli_Config
  imports Wire_Types "HOL-Library.Monad_Syntax"
begin

text \<open>
  \<open>BundlerConfig::parse\<close>: the flags, environment variables and defaults that the attributes of
  \<open>crates/bundler/src/config.rs\<close> declare, and the configuration built from the texts clap finds for
  them; a value that is missing or cannot be parsed ends the process with a usage error, here
  \<open>None\<close>.  A typed default is rendered and parsed like any other value.  How clap finds the text of an
  argument is a parameter, \<open>resolve\<close>, and so is how alloy and the standard library parse single values.
\<close>

section \<open>Arguments\<close>

record cli_arg =
  arg_long :: string
  arg_env :: string
  arg_default :: "string option"

record cli_sources =
  given_flag :: "string \<Rightarrow> string option"
  env_var :: "string \<Rightarrow> string option"

record value_parsers =
  parse_socket_addr :: "string \<Rightarrow> string option"
  parse_u64 :: "string \<Rightarrow> u64 option"
  parse_address :: "string \<Rightarrow> address option"
  parse_b256 :: "string \<Rightarrow> b256 option"
  parse_usize :: "string \<Rightarrow> usize option"
  parse_u256 :: "string \<Rightarrow> u256 option"
  parse_u32 :: "string \<Rightarrow> u32 option"
  show_address :: "address \<Rightarrow> string"

text \<open>
  What clap documents of an argument with a flag, an environment variable and a default: the flag
  beats the variable, and the variable beats the default.
\<close>

fun first_given :: "'a option list \<Rightarrow> 'a option" where
  "first_given [] = None"
| "first_given (Some x # xs) = Some x"
| "first_given (None # xs) = first_given xs"

definition clap_resolves :: "cli_sources \<Rightarrow> (cli_arg \<Rightarrow> string option) \<Rightarrow> bool" where
  "clap_resolves src resolve \<longleftrightarrow>
     (\<forall>a. resolve a = first_given [given_flag src (arg_long a), env_var src (arg_env a), arg_default a])"

section \<open>BundlerConfig\<close>

definition listen_addr_arg :: cli_arg where
  "listen_addr_arg = \<lparr> arg_long = ''listen-addr'', arg_env = ''ETHERA_BUNDLER_LISTEN_ADDR'',
     arg_default = Some ''0.0.0.0:8082'' \<rparr>"

definition chain_id_arg :: cli_arg where
  "chain_id_arg = \<lparr> arg_long = ''chain-id'', arg_env = ''ETHERA_BUNDLER_CHAIN_ID'', arg_default = None \<rparr>"

definition exec_rpc_url_arg :: cli_arg where
  "exec_rpc_url_arg = \<lparr> arg_long = ''exec-rpc-url'', arg_env = ''ETHERA_BUNDLER_EXEC_RPC_URL'', arg_default = None \<rparr>"

definition entrypoint_address_arg :: "value_parsers \<Rightarrow> cli_arg" where
  "entrypoint_address_arg pa = \<lparr> arg_long = ''entrypoint-address'', arg_env = ''ETHERA_BUNDLER_ENTRYPOINT_ADDRESS'',
     arg_default = Some (show_address pa ENTRYPOINT_V07) \<rparr>"

definition sequencer_key_arg :: cli_arg where
  "sequencer_key_arg = \<lparr> arg_long = ''sequencer-key'', arg_env = ''ETHERA_BUNDLER_SEQUENCER_KEY'', arg_default = None \<rparr>"

definition max_batch_size_arg :: cli_arg where
  "max_batch_size_arg = \<lparr> arg_long = ''max-batch-size'', arg_env = ''ETHERA_BUNDLER_MAX_BATCH_SIZE'',
     arg_default = Some (dec_string 10) \<rparr>"

definition min_priority_fee_wei_arg :: cli_arg where
  "min_priority_fee_wei_arg = \<lparr> arg_long = ''min-priority-fee-wei'', arg_env = ''ETHERA_BUNDLER_MIN_PRIORITY_FEE_WEI'',
     arg_default = Some (dec_string (unat (1000000 :: u256))) \<rparr>"

definition gas_margin_pct_arg :: cli_arg where
  "gas_margin_pct_arg = \<lparr> arg_long = ''gas-margin-pct'', arg_env = ''ETHERA_BUNDLER_GAS_MARGIN_PCT'',
     arg_default = Some (dec_string 10) \<rparr>"

definition parse_config :: "value_parsers \<Rightarrow> (cli_arg \<Rightarrow> string option) \<Rightarrow> BundlerConfig option" where
  "parse_config pa resolve = do {
     listen_addr \<leftarrow> Option.bind (resolve listen_addr_arg) (parse_socket_addr pa);
     chain_id \<leftarrow> Option.bind (resolve chain_id_arg) (parse_u64 pa);
     exec_rpc_url \<leftarrow> resolve exec_rpc_url_arg;
     entrypoint_address \<leftarrow> Option.bind (resolve (entrypoint_address_arg pa)) (parse_address pa);
     sequencer_key \<leftarrow> Option.bind (resolve sequencer_key_arg) (parse_b256 pa);
     max_batch_size \<leftarrow> Option.bind (resolve max_batch_size_arg) (parse_usize pa);
     min_priority_fee_wei \<leftarrow> Option.bind (resolve min_priority_fee_wei_arg) (parse_u256 pa);
     gas_margin_pct \<leftarrow> Option.bind (resolve gas_margin_pct_arg) (parse_u32 pa);
     Some \<lparr> cfg_listen_addr = listen_addr, cfg_chain_id = chain_id, cfg_exec_rpc_url = exec_rpc_url,
            cfg_entrypoint_address = entrypoint_address, cfg_sequencer_key = sequencer_key,
            cfg_max_batch_size = max_batch_size, cfg_min_priority_fee_wei = min_priority_fee_wei,
            cfg_gas_margin_pct = gas_margin_pct \<rparr>
   }"

definition config_args :: "value_parsers \<Rightarrow> cli_arg list" where
  "config_args pa = [listen_addr_arg, chain_id_arg, exec_rpc_url_arg, entrypoint_address_arg pa, sequencer_key_arg,
     max_batch_size_arg, min_priority_fee_wei_arg, gas_margin_pct_arg]"

lemmas arg_defs = listen_addr_arg_def chain_id_arg_def exec_rpc_url_arg_def entrypoint_address_arg_def
  sequencer_key_arg_def max_batch_size_arg_def min_priority_fee_wei_arg_def gas_margin_pct_arg_def

section \<open>What the operator gets\<close>

text \<open>No two values share a flag or a variable.\<close>

lemma config_args_distinct:
  "distinct (map arg_long (config_args pa))" "distinct (map arg_env (config_args pa))"
  by (simp_all add: config_args_def arg_defs)

text \<open>The parsers read the rendered defaults back.\<close>

definition reads_defaults :: "value_parsers \<Rightarrow> bool" where
  "reads_defaults pa \<longleftrightarrow>
     parse_socket_addr pa ''0.0.0.0:8082'' = Some ''0.0.0.0:8082''
     \<and> parse_address pa (show_address pa ENTRYPOINT_V07) = Some ENTRYPOINT_V07
     \<and> (\<forall>n < 2 ^ 64. parse_usize pa (dec_string n) = Some n)
     \<and> (\<forall>n < 2 ^ 32. parse_u32 pa (dec_string n) = Some (of_nat n))
     \<and> (\<forall>n < 2 ^ 256. parse_u256 pa (dec_string n) = Some (of_nat n))"

text \<open>The parts of a name: its flag has dashes, its variable has capitals.\<close>

definition dashed :: "string \<Rightarrow> string" where
  "dashed = map (\<lambda>c. if c = CHR ''_'' then CHR ''-'' else c)"

definition capitals :: "string \<Rightarrow> string" where
  "capitals = map (\<lambda>c. case map_of (zip ''abcdefghijklmnopqrstuvwxyz'' ''ABCDEFGHIJKLMNOPQRSTUVWXYZ'') c of
      Some d \<Rightarrow> d | None \<Rightarrow> c)"

lemma config_arg_names:
  "map arg_long (config_args pa) = map dashed [''listen_addr'', ''chain_id'', ''exec_rpc_url'', ''entrypoint_address'',
       ''sequencer_key'', ''max_batch_size'', ''min_priority_fee_wei'', ''gas_margin_pct'']"
  "map arg_env (config_args pa) = map (\<lambda>f. ''ETHERA_BUNDLER_'' @ capitals f) [''listen_addr'', ''chain_id'',
       ''exec_rpc_url'', ''entrypoint_address'', ''sequencer_key'', ''max_batch_size'', ''min_priority_fee_wei'', ''gas_margin_pct'']"
  by (simp_all add: config_args_def arg_defs dashed_def capitals_def)

lemma parse_config_iff:
  "parse_config pa resolve = Some cfg \<longleftrightarrow>
     Option.bind (resolve listen_addr_arg) (parse_socket_addr pa) = Some (cfg_listen_addr cfg)
   \<and> Option.bind (resolve chain_id_arg) (parse_u64 pa) = Some (cfg_chain_id cfg)
   \<and> resolve exec_rpc_url_arg = Some (cfg_exec_rpc_url cfg)
   \<and> Option.bind (resolve (entrypoint_address_arg pa)) (parse_address pa) = Some (cfg_entrypoint_address cfg)
   \<and> Option.bind (resolve sequencer_key_arg) (parse_b256 pa) = Some (cfg_sequencer_key cfg)
   \<and> Option.bind (resolve max_batch_size_arg) (parse_usize pa) = Some (cfg_max_batch_size cfg)
   \<and> Option.bind (resolve min_priority_fee_wei_arg) (parse_u256 pa) = Some (cfg_min_priority_fee_wei cfg)
   \<and> Option.bind (resolve gas_margin_pct_arg) (parse_u32 pa) = Some (cfg_gas_margin_pct cfg)"
  by (cases cfg) (auto simp: parse_config_def bind_eq_Some_conv)

text \<open>
  The value of an argument read in its type: the parsed text of the flag, else of the variable, else a
  typed default, when there is one.
\<close>

definition typed_value ::
  "cli_sources \<Rightarrow> string \<Rightarrow> string \<Rightarrow> (string \<Rightarrow> 'a option) \<Rightarrow> 'a option \<Rightarrow> 'a option" where
  "typed_value src flag var parse dflt =
     (case given_flag src flag of Some v \<Rightarrow> parse v
      | None \<Rightarrow> (case env_var src var of Some v \<Rightarrow> parse v | None \<Rightarrow> dflt))"

lemma resolved_value:
  assumes "clap_resolves src resolve"
  shows "Option.bind (resolve a) parse = typed_value src (arg_long a) (arg_env a) parse (Option.bind (arg_default a) parse)"
  using assms by (cases "arg_default a") (auto simp: clap_resolves_def typed_value_def split: option.split)

text \<open>
  C35. The configuration is resolved as the source declares it, for all eight values: each is the parsed text of its
  flag, else of its environment variable, else its default, given clap's documented precedence; a
  chain id, a node and a key have no default; the defaults are those of \<open>config.rs\<close>, among them a
  minimum priority fee of 1000000 wei and the canonical v0.7 EntryPoint; and the flag and the
  variable of a value are its field name with dashes and its field name in capitals behind \<open>ETHERA_BUNDLER_\<close>.
\<close>

theorem configuration_resolves:
  assumes "reads_defaults pa" and "clap_resolves src resolve"
  shows "(parse_config pa resolve = Some cfg \<longleftrightarrow>
      typed_value src ''listen-addr'' ''ETHERA_BUNDLER_LISTEN_ADDR'' (parse_socket_addr pa) (Some ''0.0.0.0:8082'')
        = Some (cfg_listen_addr cfg)
    \<and> typed_value src ''chain-id'' ''ETHERA_BUNDLER_CHAIN_ID'' (parse_u64 pa) None = Some (cfg_chain_id cfg)
    \<and> typed_value src ''exec-rpc-url'' ''ETHERA_BUNDLER_EXEC_RPC_URL'' Some None = Some (cfg_exec_rpc_url cfg)
    \<and> typed_value src ''entrypoint-address'' ''ETHERA_BUNDLER_ENTRYPOINT_ADDRESS'' (parse_address pa) (Some ENTRYPOINT_V07)
        = Some (cfg_entrypoint_address cfg)
    \<and> typed_value src ''sequencer-key'' ''ETHERA_BUNDLER_SEQUENCER_KEY'' (parse_b256 pa) None = Some (cfg_sequencer_key cfg)
    \<and> typed_value src ''max-batch-size'' ''ETHERA_BUNDLER_MAX_BATCH_SIZE'' (parse_usize pa) (Some 10)
        = Some (cfg_max_batch_size cfg)
    \<and> typed_value src ''min-priority-fee-wei'' ''ETHERA_BUNDLER_MIN_PRIORITY_FEE_WEI'' (parse_u256 pa) (Some 1000000)
        = Some (cfg_min_priority_fee_wei cfg)
    \<and> typed_value src ''gas-margin-pct'' ''ETHERA_BUNDLER_GAS_MARGIN_PCT'' (parse_u32 pa) (Some 10)
        = Some (cfg_gas_margin_pct cfg))
   \<and> (\<forall>a \<in> set (config_args pa). \<exists>field. arg_long a = dashed field \<and> arg_env a = ''ETHERA_BUNDLER_'' @ capitals field)"
proof
  have d: "parse_usize pa (dec_string 10) = Some 10" "parse_u32 pa (dec_string 10) = Some 10"
    "parse_u256 pa (dec_string 1000000) = Some 1000000" "parse_socket_addr pa ''0.0.0.0:8082'' = Some ''0.0.0.0:8082''"
    "parse_address pa (show_address pa ENTRYPOINT_V07) = Some ENTRYPOINT_V07"
    using assms(1) by (simp_all add: reads_defaults_def)
  note typed = resolved_value [OF assms(2)]
  have url: "resolve exec_rpc_url_arg = Option.bind (resolve exec_rpc_url_arg) Some" by simp
  show "parse_config pa resolve = Some cfg \<longleftrightarrow>
      typed_value src ''listen-addr'' ''ETHERA_BUNDLER_LISTEN_ADDR'' (parse_socket_addr pa) (Some ''0.0.0.0:8082'')
        = Some (cfg_listen_addr cfg)
    \<and> typed_value src ''chain-id'' ''ETHERA_BUNDLER_CHAIN_ID'' (parse_u64 pa) None = Some (cfg_chain_id cfg)
    \<and> typed_value src ''exec-rpc-url'' ''ETHERA_BUNDLER_EXEC_RPC_URL'' Some None = Some (cfg_exec_rpc_url cfg)
    \<and> typed_value src ''entrypoint-address'' ''ETHERA_BUNDLER_ENTRYPOINT_ADDRESS'' (parse_address pa) (Some ENTRYPOINT_V07)
        = Some (cfg_entrypoint_address cfg)
    \<and> typed_value src ''sequencer-key'' ''ETHERA_BUNDLER_SEQUENCER_KEY'' (parse_b256 pa) None = Some (cfg_sequencer_key cfg)
    \<and> typed_value src ''max-batch-size'' ''ETHERA_BUNDLER_MAX_BATCH_SIZE'' (parse_usize pa) (Some 10)
        = Some (cfg_max_batch_size cfg)
    \<and> typed_value src ''min-priority-fee-wei'' ''ETHERA_BUNDLER_MIN_PRIORITY_FEE_WEI'' (parse_u256 pa) (Some 1000000)
        = Some (cfg_min_priority_fee_wei cfg)
    \<and> typed_value src ''gas-margin-pct'' ''ETHERA_BUNDLER_GAS_MARGIN_PCT'' (parse_u32 pa) (Some 10)
        = Some (cfg_gas_margin_pct cfg)"
    unfolding parse_config_iff by (subst url) (simp only: typed, simp add: arg_defs d)
  show "\<forall>a \<in> set (config_args pa). \<exists>field. arg_long a = dashed field \<and> arg_env a = ''ETHERA_BUNDLER_'' @ capitals field"
    using config_arg_names [of pa] unfolding config_args_def by simp blast
qed

text \<open>Parsers that read numbers in their own base.\<close>

definition demo_parsers :: value_parsers where
  "demo_parsers =
     \<lparr> parse_socket_addr = Some, parse_u64 = (\<lambda>s. Some (of_nat (radix_value 10 s))),
       parse_address = (\<lambda>s. Some (of_nat (radix_value 16 s))), parse_b256 = (\<lambda>s. Some (of_nat (radix_value 16 s))),
       parse_usize = (\<lambda>s. Some (radix_value 10 s)), parse_u256 = (\<lambda>s. Some (of_nat (radix_value 10 s))),
       parse_u32 = (\<lambda>s. Some (of_nat (radix_value 10 s))), show_address = (\<lambda>a. hex_string (unat a)) \<rparr>"

definition demo_sources :: cli_sources where
  "demo_sources =
     \<lparr> given_flag = [''chain-id'' \<mapsto> ''77777'', ''sequencer-key'' \<mapsto> ''a1''],
       env_var = [''ETHERA_BUNDLER_CHAIN_ID'' \<mapsto> ''1'', ''ETHERA_BUNDLER_EXEC_RPC_URL'' \<mapsto> ''http://localhost:8545''] \<rparr>"

lemma demo_reads_defaults: "reads_defaults demo_parsers"
  by (simp add: reads_defaults_def demo_parsers_def radix_value_string)

definition demo_resolve :: "cli_arg \<Rightarrow> string option" where
  "demo_resolve a = first_given [given_flag demo_sources (arg_long a), env_var demo_sources (arg_env a), arg_default a]"

lemma demo_resolves: "clap_resolves demo_sources demo_resolve"
  by (simp add: clap_resolves_def demo_resolve_def)

theorem configuration_resolves_witness:
  "parse_config demo_parsers demo_resolve = Some (default_config 77777 ''http://localhost:8545'' 0xa1)"
proof -
  have "of_nat (radix_value 10 ''77777'') = (77777 :: u64)" "of_nat (radix_value 16 ''a1'') = (0xa1 :: b256)"
    by (simp_all add: radix_value_def digit_value_def of_char_def)
  then show ?thesis
    using configuration_resolves [OF demo_reads_defaults demo_resolves, of "default_config 77777 ''http://localhost:8545'' 0xa1"]
    by (simp add: typed_value_def demo_sources_def demo_parsers_def default_config_def)
qed

end
