(* ===== verification/Startup_Log.thy ===== *)
theory Startup_Log
  imports Lifecycle Cli_Config
begin

text \<open>
  The start of \<open>bin/ethera-bundler/src/main.rs\<close> with its log: the filter, the configuration from the
  command line, and every event in the place where \<open>main\<close> and \<open>startup.rs\<close> emit it, also on the
  paths that fail.  Without its log this is the set-up that \<open>Lifecycle\<close> runs.
\<close>

section \<open>Events\<close>

datatype log_line =
    Starting u64 address string string
  | SignerLoaded address
  | Probed log_event
  | ServerListening string

type_synonym 'w logged = "'w \<times> log_line list"

definition info :: "log_line \<Rightarrow> ('w logged, 'e, unit) prog" where
  "info line = (\<lambda>(w, lines). Some (Done (), (w, lines @ [line])))"

text \<open>A program that logs nothing.\<close>

definition silent :: "('w, 'e, 'a) prog \<Rightarrow> ('w logged, 'e, 'a) prog" where
  "silent m = (\<lambda>(w, lines). map_option (\<lambda>(r, w'). (r, (w', lines))) (m w))"

text \<open>
  \<open>EnvFilter::try_from_default_env\<close> reads \<open>RUST_LOG\<close>; unset or malformed, the filter is \<open>info\<close>.  The
  filter itself belongs to \<open>tracing_subscriber\<close>.
\<close>

definition log_filter :: "(string \<Rightarrow> 'f option) \<Rightarrow> (string \<Rightarrow> 'f) \<Rightarrow> (string \<Rightarrow> string option) \<Rightarrow> 'f" where
  "log_filter try_new new_filter env =
     (case Option.bind (env ''RUST_LOG'') try_new of Some f \<Rightarrow> f | None \<Rightarrow> new_filter ''info'')"

section \<open>The HTTP layer\<close>

text \<open>What a CORS layer of \<open>tower_http\<close> lets through.\<close>

datatype 'a allowed = Any | Only "'a list"

record CorsLayer =
  allow_methods :: "string allowed"
  allow_headers :: "string allowed"
  allow_origin :: "string allowed"

definition main_cors :: CorsLayer where
  "main_cors = \<lparr> allow_methods = Any, allow_headers = Any, allow_origin = Any \<rparr>"

fun allows :: "'a allowed \<Rightarrow> 'a \<Rightarrow> bool" where
  "allows Any x = True"
| "allows (Only xs) x = (x \<in> set xs)"

text \<open>A browser may call the service from any origin.\<close>

lemma main_cors_permissive:
  "allows (allow_origin main_cors) origin" "allows (allow_methods main_cors) meth" "allows (allow_headers main_cors) header"
  by (simp_all add: main_cors_def)

section \<open>The start\<close>

definition probe_logged ::
  "(address \<Rightarrow> string) \<Rightarrow> 'w EthProvider \<Rightarrow> u64 \<Rightarrow> address \<Rightarrow> address \<Rightarrow> ('w logged, anyhow, unit) prog" where
  "probe_logged display_address provider chain_id entrypoint sequencer =
     pbind (silent (pcall (\<lambda>e. [''eth_chainId probe failed'', display_ProviderError e]) (pv_chain_id provider))) (\<lambda>actual_chain_id.
     if actual_chain_id \<noteq> chain_id
     then pfail [''chain id mismatch: config='' @ dec_string (unat chain_id) @ '', rpc='' @ dec_string (unat actual_chain_id)
                 @ '' - bundler would sign txs the chain rejects'']
     else
     pbind (info (Probed (ChainIdOk chain_id))) (\<lambda>_.
     pbind (silent (pcall (\<lambda>e. [''eth_getCode(entrypoint) probe failed'', display_ProviderError e])
              (pv_get_code provider entrypoint))) (\<lambda>code.
     if code = []
     then pfail [''EntryPoint '' @ display_address entrypoint @ '' has no code on chain '' @ dec_string (unat chain_id)]
     else
     pbind (info (Probed (EntryPointCodeOk entrypoint (length code)))) (\<lambda>_.
     pbind (silent (pcall (\<lambda>e. [''eth_getBalance(sequencer) probe failed'', display_ProviderError e])
              (pv_balance provider sequencer))) (\<lambda>balance.
     let floor = ucast ONE_ETH_WEI in
     if balance < floor then info (Probed (BalanceLow sequencer balance))
     else info (Probed (BalanceOk sequencer balance)))))))"

definition main_logged ::
  "(string \<Rightarrow> string + 'u) \<Rightarrow> ('u \<Rightarrow> 'w RootProvider) \<Rightarrow> 'k PrivateKeySigner \<Rightarrow> (address \<Rightarrow> string)
     \<Rightarrow> formats \<Rightarrow> bytes \<Rightarrow> string \<Rightarrow> 'w host \<Rightarrow> BundlerConfig \<Rightarrow> ('w logged, anyhow, 'w service \<times> string list) prog" where
  "main_logged parse_url new_http keys display_address fm runtime version h cfg =
     pbind (info (Starting (cfg_chain_id cfg) (cfg_entrypoint_address cfg) (cfg_exec_rpc_url cfg) (cfg_listen_addr cfg))) (\<lambda>_.
     pbind (plift (map_sum (\<lambda>e. [''failed to construct execution-layer RPC provider'', display_ProviderError e])
              alloy_provider (alloy_new parse_url new_http (cfg_exec_rpc_url cfg)))) (\<lambda>provider.
     pbind (plift (map_sum (\<lambda>e. [''failed to load sequencer key'', display_SignerError e])
              (local_signer keys) (local_signer_from_key keys (cfg_sequencer_key cfg)))) (\<lambda>signer.
     pbind (info (SignerLoaded (sg_address signer))) (\<lambda>_.
     pbind (pmap_err (\<lambda>e. ''startup probe failed'' # e)
              (probe_logged display_address provider (cfg_chain_id cfg) (cfg_entrypoint_address cfg) (sg_address signer))) (\<lambda>_.
     pbind (plift (map_sum (\<lambda>e. [''failed to construct bundler'', display_BundlerError fm e]) id
              (bundler_with_cancellation runtime cfg provider signer))) (\<lambda>bundler.
     let discovery = discovery_new version (cfg_chain_id cfg) (cfg_entrypoint_address cfg) in
     pbind (plift (register_methods h)) (\<lambda>module.
     pbind (silent (pcall (\<lambda>e. [''failed to bind JSON-RPC server on '' @ cfg_listen_addr cfg, e])
              (bind_listener h (cfg_listen_addr cfg)))) (\<lambda>_.
     pbind (info (ServerListening (cfg_listen_addr cfg))) (\<lambda>_.
     pret (\<lparr> sv_bundler = bundler, sv_discovery = discovery \<rparr>, module))))))))))"

text \<open>The start from the command line; \<open>None\<close> is clap's usage error.\<close>

definition main_start ::
  "value_parsers \<Rightarrow> (cli_arg \<Rightarrow> string option) \<Rightarrow> (BundlerConfig \<Rightarrow> ('w logged, anyhow, 'w service \<times> string list) prog)
     \<Rightarrow> ('w logged, anyhow, 'w service \<times> string list) prog option" where
  "main_start pa resolve boot = map_option boot (parse_config pa resolve)"

section \<open>The log aside\<close>

definition erases :: "('w logged, 'e, 'a) prog \<Rightarrow> ('w, 'e, 'a) prog \<Rightarrow> bool" where
  "erases m' m \<longleftrightarrow> (\<forall>w lines. map_option (\<lambda>(r, w', _). (r, w')) (m' (w, lines)) = m w)"

lemma erases_at: "erases m' m \<Longrightarrow> m w = map_option (\<lambda>(r, w', _). (r, w')) (m' (w, lines))"
  by (simp add: erases_def)

lemma erases_bind:
  assumes "erases m' m" and "\<And>x. erases (k' x) (k x)"
  shows "erases (pbind m' k') (pbind m k)"
  unfolding erases_def
proof (intro allI)
  fix w lines
  have "m w = map_option (\<lambda>(r, w', _). (r, w')) (m' (w, lines))" by (rule erases_at [OF assms(1)])
  then show "map_option (\<lambda>(r, w', _). (r, w')) (pbind m' k' (w, lines)) = pbind m k w"
    using assms(2) by (auto simp: pbind_def erases_def split: option.splits flow.splits)
qed

lemma erases_info: "erases (k ()) m \<Longrightarrow> erases (pbind (info line) k) m"
  by (auto simp: erases_def info_def pbind_def)

lemma erases_leaf:
  "erases (silent m) m" "erases (plift r) (plift r)" "erases (pret x) (pret x)" "erases (pfail e) (pfail e)"
  "erases (info line) (pret ())"
  by (auto simp: erases_def silent_def option.map_comp comp_def case_prod_unfold plift_def pret_def pfail_def info_def
      option.map_ident split: sum.splits)

lemma erases_map_err:
  assumes "erases m' m"
  shows "erases (pmap_err f m') (pmap_err f m)"
  unfolding erases_def
proof (intro allI)
  fix w lines
  have "m w = map_option (\<lambda>(r, w', _). (r, w')) (m' (w, lines))" by (rule erases_at [OF assms])
  then show "map_option (\<lambda>(r, w', _). (r, w')) (pmap_err f m' (w, lines)) = pmap_err f m w"
    by (simp add: pmap_err_def option.map_comp comp_def case_prod_unfold)
qed

lemma pbind_if: "pbind (if c then m1 else m2) k = (if c then pbind m1 k else pbind m2 k)"
  by simp

lemma erases_if: "(c \<Longrightarrow> erases m1' m1) \<Longrightarrow> (\<not> c \<Longrightarrow> erases m2' m2) \<Longrightarrow>
    erases (if c then m1' else m2') (if c then m1 else m2)"
  by simp

lemma erases_either: "erases m1 m \<Longrightarrow> erases m2 m \<Longrightarrow> erases (if c then m1 else m2) m"
  by simp

lemma probe_erased:
  "erases (probe_logged display_address pv chain_id entrypoint sequencer)
     (pbind (probe display_address pv chain_id entrypoint sequencer) (\<lambda>_. pret ()))"
  unfolding probe_logged_def probe_def pbind_assoc Let_def pbind_if pbind_simps
  by (rule erases_bind [OF erases_leaf(1)], rule erases_if, rule erases_leaf, rule erases_info,
      rule erases_bind [OF erases_leaf(1)], rule erases_if, rule erases_leaf, rule erases_info,
      rule erases_bind [OF erases_leaf(1)], rule erases_either; rule erases_leaf)

lemma probe_then_erased:
  assumes "erases k' k"
  shows "erases (pbind (pmap_err f (probe_logged display_address pv chain_id entrypoint sequencer)) (\<lambda>_. k'))
     (pbind (pmap_err f (probe display_address pv chain_id entrypoint sequencer)) (\<lambda>_. k))"
proof -
  let ?p = "probe display_address pv chain_id entrypoint sequencer"
  have "pbind (pmap_err f (pbind ?p (\<lambda>_. pret ()))) (\<lambda>_. k) = pbind (pmap_err f ?p) (\<lambda>_. k)"
    by (auto simp: fun_eq_iff pbind_def pmap_err_def pret_def split: option.splits flow.splits)
  then show ?thesis using erases_bind [OF erases_map_err [OF probe_erased] assms] by metis
qed

text \<open>The start with its log does what the set-up of \<open>Lifecycle\<close> does.\<close>

lemma main_erased:
  "erases (main_logged parse_url new_http keys display_address fm runtime version h cfg)
     (main_setup h cfg (main_service parse_url new_http keys display_address fm runtime version cfg))"
  unfolding main_logged_def main_setup_def main_service_def pbind_assoc Let_def pbind_simps
  by (intro erases_info erases_bind [OF erases_leaf(2)] probe_then_erased erases_bind [OF erases_leaf(1)] erases_leaf(3))

section \<open>What is logged\<close>

lemma silent_Done_iff [prog_simps]:
  "silent m (w, lines) = Some (r, s) \<longleftrightarrow> (\<exists>w'. m w = Some (r, w') \<and> s = (w', lines))"
  by (auto simp: silent_def)

lemma info_iff [prog_simps]: "info line (w, lines) = Some (r, s) \<longleftrightarrow> r = Done () \<and> s = (w, lines @ [line])"
  by (auto simp: info_def)

lemma probe_log:
  assumes "probe_logged display_address pv chain_id entrypoint sequencer (w, lines) = Some (Done (), s)"
  shows "\<exists>events w'. probe display_address pv chain_id entrypoint sequencer w = Some (Done events, w')
     \<and> s = (w', lines @ map Probed events)"
  using assms unfolding probe_logged_def probe_def Let_def
  by (auto simp: prog_simps if_prog_Done_iff split: if_splits) (auto simp: pret_def)

text \<open>A server that listens has logged its whole start, and nothing after it.\<close>

lemma started_log:
  assumes "main_logged parse_url new_http keys display_address fm runtime version h cfg (w, []) = Some (Done (svc, module), (w', lines))"
  shows "\<exists>events. lines = [Starting (cfg_chain_id cfg) (cfg_entrypoint_address cfg) (cfg_exec_rpc_url cfg) (cfg_listen_addr cfg),
        SignerLoaded (sg_address (bd_signer (sv_bundler svc)))] @ map Probed events @ [ServerListening (cfg_listen_addr cfg)]"
  using assms unfolding main_logged_def Let_def bundler_with_cancellation_def
  by (auto simp: prog_simps dest!: probe_log)

section \<open>The key and the log\<close>

text \<open>
  What shows of a start: whether and how it ends, with the error that \<open>main\<close> prints when it fails,
  and the world and the log it leaves.  The service it returns is not shown.
\<close>

definition shown :: "(('e, 'a) flow \<times> 's) option \<Rightarrow> (('e, unit) flow \<times> 's) option" where
  "shown = map_option (map_prod (map_flow id (\<lambda>_. ())) id)"

definition alike :: "('w, 'e, 'a) prog \<Rightarrow> ('w, 'e, 'a) prog \<Rightarrow> bool" where
  "alike m1 m2 \<longleftrightarrow> (\<forall>s. shown (m1 s) = shown (m2 s))"

lemma shown_log: "map_option (snd \<circ> snd) (shown r) = map_option (snd \<circ> snd) r"
  by (auto simp: shown_def option.map_comp comp_def)

lemma alike_then: "(\<And>x. alike (k1 x) (k2 x)) \<Longrightarrow> alike (pbind m k1) (pbind m k2)"
  by (auto simp: alike_def pbind_def split: option.splits flow.splits)

lemma alike_leaf: "alike m m" "alike (pret x) (pret y)"
  by (simp_all add: alike_def pret_def shown_def)

text \<open>
  C24. The start reveals nothing of the sequencer key but its address, or why it is refused: two
  keys with the same address, or two that the signer library refuses with the same message, end the
  start in the same way on every path, with the same error when it fails, the same log and the same
  node behind.
\<close>

theorem startup_log_hides_key:
  fixes s :: "'w logged"
  assumes "map_sum id (pks_address keys) (pks_from_bytes keys k1) = map_sum id (pks_address keys) (pks_from_bytes keys k2)"
  shows "shown (main_logged parse_url new_http keys display_address fm runtime version h (cfg\<lparr>cfg_sequencer_key := k1\<rparr>) s)
     = shown (main_logged parse_url new_http keys display_address fm runtime version h (cfg\<lparr>cfg_sequencer_key := k2\<rparr>) s)"
proof -
  have start: "alike (pbind (plift (map_sum f (local_signer keys) (local_signer_from_key keys k1))) m1)
      (pbind (plift (map_sum f (local_signer keys) (local_signer_from_key keys k2))) m2)"
    if "\<And>s1 s2 :: 'w Signer. sg_address s1 = sg_address s2 \<Longrightarrow> alike (m1 s1) (m2 s2)"
    for f :: "SignerError \<Rightarrow> anyhow" and m1 m2 :: "'w Signer \<Rightarrow> ('w logged, anyhow, 'w service \<times> string list) prog"
    using assms that
    by (cases "pks_from_bytes keys k1"; cases "pks_from_bytes keys k2")
       (auto simp: local_signer_from_key_def local_signer_def alike_leaf)
  have "alike (main_logged parse_url new_http keys display_address fm runtime version h (cfg\<lparr>cfg_sequencer_key := k1\<rparr>))
     (main_logged parse_url new_http keys display_address fm runtime version h (cfg\<lparr>cfg_sequencer_key := k2\<rparr>))"
    unfolding main_logged_def bundler_with_cancellation_def Let_def map_sum.simps plift_simps pbind_simps
    by (simp, intro alike_then start) (auto intro!: alike_then alike_leaf)
  then show ?thesis by (simp only: alike_def)
qed

lemma demo_start_log:
  "map_option (snd \<circ> snd) (main_logged Inr (\<lambda>_. demo_root) demo_keys (\<lambda>a. hex_string (unat a)) demo_formats [0x60] ''0.1.0''
       demo_host (test_config\<lparr>cfg_sequencer_key := 3\<rparr>) (w, []))
     = Some [Starting 31337 ENTRYPOINT_V07 ''http://localhost:0/unused'' ''127.0.0.1:0'', SignerLoaded 3,
         Probed (ChainIdOk 31337), Probed (EntryPointCodeOk ENTRYPOINT_V07 1), Probed (BalanceOk 3 1000000000000000000),
         ServerListening ''127.0.0.1:0'']"
proof -
  have methods: "\<exists>module. register_methods (demo_host :: demo_node host) = Inr module"
    by (simp add: register_methods_def demo_host_def api_names)
  have calls: "pv_chain_id (alloy_provider demo_root) v = Some (Inr 31337, v)"
    "pv_get_code (alloy_provider demo_root) a v = Some (Inr [0x60], v)"
    "pv_balance (alloy_provider demo_root) a v = Some (Inr 1000000000000000000, v)" for a v
    by (simp_all add: alloy_provider_def alloy_chain_id_def alloy_get_code_def alloy_balance_def transport_def
        demo_answer_def demo_root_def)
  have "bind_listener demo_host ''127.0.0.1:0'' v = Some (Inr (), v)" for v :: demo_node
    by (simp add: demo_host_def)
  with methods show ?thesis
    by (auto simp: main_logged_def probe_logged_def Let_def bundler_with_cancellation_def alloy_new_def
        local_signer_from_key_def local_signer_def demo_keys_def calls silent_def info_def test_config_def
        TEST_CHAIN_ID_def ONE_ETH_WEI_def prog_eval)
qed

theorem startup_log_hides_key_witness:
  "\<forall>w. map_option (snd \<circ> snd) (main_logged Inr (\<lambda>_. demo_root) demo_keys (\<lambda>a. hex_string (unat a))
       demo_formats [0x60] ''0.1.0'' demo_host (test_config\<lparr>cfg_sequencer_key := 2 ^ 200 + 3\<rparr>) (w, []))
     = Some [Starting 31337 ENTRYPOINT_V07 ''http://localhost:0/unused'' ''127.0.0.1:0'', SignerLoaded 3,
         Probed (ChainIdOk 31337), Probed (EntryPointCodeOk ENTRYPOINT_V07 1), Probed (BalanceOk 3 1000000000000000000),
         ServerListening ''127.0.0.1:0'']"
proof
  fix w
  have "map_sum id (pks_address demo_keys) (pks_from_bytes demo_keys (2 ^ 200 + 3))
      = map_sum id (pks_address demo_keys) (pks_from_bytes demo_keys 3)"
    by (auto simp: demo_keys_def)
  from startup_log_hides_key [OF this, of Inr "\<lambda>_. demo_root" "\<lambda>a. hex_string (unat a)" demo_formats "[0x60]"
      "''0.1.0''" demo_host test_config "(w, [])", THEN arg_cong, of "map_option (snd \<circ> snd)",
      unfolded shown_log, unfolded demo_start_log]
  show "map_option (snd \<circ> snd) (main_logged Inr (\<lambda>_. demo_root) demo_keys (\<lambda>a. hex_string (unat a))
       demo_formats [0x60] ''0.1.0'' demo_host (test_config\<lparr>cfg_sequencer_key := 2 ^ 200 + 3\<rparr>) (w, []))
     = Some [Starting 31337 ENTRYPOINT_V07 ''http://localhost:0/unused'' ''127.0.0.1:0'', SignerLoaded 3,
         Probed (ChainIdOk 31337), Probed (EntryPointCodeOk ENTRYPOINT_V07 1), Probed (BalanceOk 3 1000000000000000000),
         ServerListening ''127.0.0.1:0'']" .
qed

end
