(* ===== verification/Acceptance.thy ===== *)
theory Acceptance
  imports Fee_Policy
begin

text \<open>
  The success condition of a build as a declarative specification: which answers of the node and
  the signer, in which order, make the build succeed, and with which response.  The pipeline
  meets it exactly, and a submit is a sign-only build followed by the broadcast and the receipt.
\<close>

section \<open>Preparation\<close>

text \<open>
  The preparation of a batch: the request is well formed, and the node's answers to the fee
  queries, the vetting of every operation and the gas estimate lead from \<open>w\<close> to \<open>w'\<close>.
\<close>

definition prepares ::
  "'w externals \<Rightarrow> 'w Bundler \<Rightarrow> UserOpV07 list \<Rightarrow> BuildOpts \<Rightarrow> 'w \<Rightarrow> prepared \<Rightarrow> 'w \<Rightarrow> bool" where
  "prepares ext b ops opts w pr w' \<longleftrightarrow>
     opts_chain_id opts = cfg_chain_id (bd_cfg b) \<and> ops \<noteq> [] \<and> length ops \<le> cfg_max_batch_size (bd_cfg b)
     \<and> (\<exists>base_fee suggested ps estimated w1 w2 w3.
          pv_base_fee (bd_provider b) w = Some (Inr base_fee, w1)
        \<and> pv_max_priority_fee (bd_provider b) w1 = Some (Inr suggested, w2)
        \<and> vetted_all b base_fee (unix_now (ext_system_time ext w2)) ops ps (pr_user_op_hashes pr) w2 w3
        \<and> pr_call_data pr = ext_handleOps_abi_encode ext \<lparr> ho_ops = ps, ho_beneficiary = sg_address (bd_signer b) \<rparr>
        \<and> pv_estimate_handle_ops_gas (bd_provider b) (sg_address (bd_signer b))
             (cfg_entrypoint_address (bd_cfg b)) (pr_call_data pr) w3 = Some (Inr estimated, w')
        \<and> pr_gas pr = gas_with_margin estimated (cfg_gas_margin_pct (bd_cfg b))
        \<and> pr_outer_tip pr = min (max (cfg_min_priority_fee_wei (bd_cfg b)) suggested)
             (Min (op_max_priority_fee_per_gas ` set ops))
        \<and> pr_outer_fee_cap pr = Min (op_max_fee_per_gas ` set ops)
        \<and> sat_add base_fee (pr_outer_tip pr) \<le> pr_outer_fee_cap pr)"

lemma prepare_calls_iff:
  "prepare ext b ops opts w = Some (Done pr, w') \<longleftrightarrow>
     check_request (bd_cfg b) ops opts = Inr ()
     \<and> (\<exists>base_fee suggested ps hs w1 w2 w3.
          pv_base_fee (bd_provider b) w = Some (Inr base_fee, w1)
        \<and> pv_max_priority_fee (bd_provider b) w1 = Some (Inr suggested, w2)
        \<and> vetted_all b base_fee (unix_now (ext_system_time ext w2)) ops ps hs w2 w3
        \<and> price_batch ext b base_fee suggested (batch_of ops ps hs) w3 = Some (Done pr, w'))"
  unfolding prepare_def by (simp add: prog_simps process_all_Done_iff) blast

lemma prepare_Done_iff:
  "prepare ext b ops opts w = Some (Done pr, w') \<longleftrightarrow> prepares ext b ops opts w pr w'"
proof
  assume "prepare ext b ops opts w = Some (Done pr, w')"
  then obtain base_fee suggested ps hs w1 w2 w3 where req: "check_request (bd_cfg b) ops opts = Inr ()"
    and calls: "pv_base_fee (bd_provider b) w = Some (Inr base_fee, w1)"
      "pv_max_priority_fee (bd_provider b) w1 = Some (Inr suggested, w2)"
      "vetted_all b base_fee (unix_now (ext_system_time ext w2)) ops ps hs w2 w3"
    and price: "price_batch ext b base_fee suggested (batch_of ops ps hs) w3 = Some (Done pr, w')"
    unfolding prepare_calls_iff by blast
  from req have ne: "ops \<noteq> []" by (simp add: check_request_ok_iff)
  from price have "pr_user_op_hashes pr = hs" unfolding price_batch_Done_iff [OF ne] by blast
  with req calls price show "prepares ext b ops opts w pr w'"
    unfolding prepares_def price_batch_Done_iff [OF ne] choose_outer_fees_ok_iff check_request_ok_iff by blast
next
  assume p: "prepares ext b ops opts w pr w'"
  then have ne: "ops \<noteq> []" by (simp add: prepares_def)
  from p show "prepare ext b ops opts w = Some (Done pr, w')"
    unfolding prepares_def prepare_calls_iff price_batch_Done_iff [OF ne] choose_outer_fees_ok_iff check_request_ok_iff
    by blast
qed

section \<open>Builds\<close>

text \<open>The part after the preparation that both modes share: nonce, transaction, signature.\<close>

definition signs ::
  "'w Bundler \<Rightarrow> prepared \<Rightarrow> 'w \<Rightarrow> TxEnvelope \<Rightarrow> 'w \<Rightarrow> bool" where
  "signs b pr w env w' \<longleftrightarrow>
     (\<exists>nonce tx w1. pv_pending_nonce (bd_provider b) (sg_address (bd_signer b)) w = Some (Inr nonce, w1)
        \<and> build_tx (bd_cfg b) pr nonce = Inr tx
        \<and> sg_sign_eip1559 (bd_signer b) tx w1 = Some (Inr env, w'))"

text \<open>A broadcast that was accepted and whose receipt reports success.\<close>

definition lands :: "'w Bundler \<Rightarrow> bytes \<Rightarrow> b256 \<Rightarrow> 'w \<Rightarrow> 'w \<Rightarrow> bool" where
  "lands b raw hash w w' \<longleftrightarrow>
     (\<exists>submitted receipt w1. pv_send_raw_transaction (bd_provider b) raw w = Some (Inr submitted, w1)
        \<and> pv_wait_for_receipt (bd_provider b) hash RECEIPT_TIMEOUT w1 = Some (Inr (Some receipt), w')
        \<and> rcpt_success receipt)"

lemma await_receipt_Done_iff:
  "await_receipt ext b pr hash w = Some (Done (), w') \<longleftrightarrow>
     (\<exists>receipt. pv_wait_for_receipt (bd_provider b) hash RECEIPT_TIMEOUT w = Some (Inr (Some receipt), w')
        \<and> rcpt_success receipt)"
  by (auto simp: await_receipt_def prog_simps Let_def split: option.splits if_splits)

lemma prepare_submit_irrelevant: "prepare ext b ops (opts\<lparr>opts_submit := s\<rparr>) = prepare ext b ops opts"
  by (simp add: prepare_def check_request_def)

lemma build_Done_iff:
  "build_inner ext b ops opts w = Some (Done resp, w') \<longleftrightarrow>
     (\<exists>pr env w1 w2. prepare ext b ops opts w = Some (Done pr, w1) \<and> signs b pr w1 env w2
        \<and> resp = response (bd_cfg b) pr (encoded_2718 (ext_consensus ext) env) (envelope_tx_hash (ext_consensus ext) env)
        \<and> (if opts_submit opts then lands b (resp_raw resp) (resp_hash resp) w2 w' else w' = w2))"
proof -
  have resp: "resp_raw (response cfg pr raw hash) = raw" "resp_hash (response cfg pr raw hash) = hash" for cfg pr raw hash
    by (simp_all add: response_def)
  have sign: "signs b pr w1 env w2 \<longleftrightarrow>
      (\<exists>nonce v. pv_pending_nonce (bd_provider b) (sg_address (bd_signer b)) w1 = Some (Inr nonce, v)
         \<and> sign_at_nonce b pr nonce v = Some (Done env, w2))" for pr w1 env w2
    by (auto simp: signs_def sign_at_nonce_def prog_simps)
  show ?thesis
    unfolding build_inner_def Let_def sign
    by (cases "opts_submit opts"; simp add: prog_simps await_receipt_Done_iff; auto simp: resp lands_def)
qed

section \<open>Properties\<close>

text \<open>
  C7. The exact success condition of a build.  It succeeds if and only if the request names the
  bundler's chain and has an admissible size, the node answers the fee queries, every operation
  passes the fee policy, packs, has a deposit that covers its prefund and passes simulation, in
  order and against one base fee and one clock reading, the batch can be priced, the transaction
  is signed at the pending nonce and, in submit mode, is accepted and mined with success.  The
  response is then the one determined by these answers.
\<close>

theorem build_succeeds_iff:
  "build_inner ext b ops opts w = Some (Done resp, w') \<longleftrightarrow>
     (\<exists>pr env w1 w2. prepares ext b ops opts w pr w1 \<and> signs b pr w1 env w2
        \<and> resp = response (bd_cfg b) pr (encoded_2718 (ext_consensus ext) env) (envelope_tx_hash (ext_consensus ext) env)
        \<and> (if opts_submit opts then lands b (resp_raw resp) (resp_hash resp) w2 w' else w' = w2))"
  unfolding build_Done_iff prepare_Done_iff ..

text \<open>
  C16. A submit is a sign-only build followed by the broadcast: it returns exactly the response the
  sign-only build returns from the same state, once that transaction is accepted and mined with
  success, and it fails with the same error wherever the sign-only build fails.
\<close>

theorem submit_is_sign_then_broadcast:
  "(\<forall>resp w'. build_inner ext b ops (opts\<lparr>opts_submit := True\<rparr>) w = Some (Done resp, w') \<longleftrightarrow>
       (\<exists>v. build_inner ext b ops (opts\<lparr>opts_submit := False\<rparr>) w = Some (Done resp, v)
            \<and> lands b (resp_raw resp) (resp_hash resp) v w'))
   \<and> (\<forall>e v. build_inner ext b ops (opts\<lparr>opts_submit := False\<rparr>) w = Some (Fail e, v) \<longrightarrow>
            build_inner ext b ops (opts\<lparr>opts_submit := True\<rparr>) w = Some (Fail e, v))"
proof (intro conjI allI impI)
  fix resp w'
  show "build_inner ext b ops (opts\<lparr>opts_submit := True\<rparr>) w = Some (Done resp, w') \<longleftrightarrow>
       (\<exists>v. build_inner ext b ops (opts\<lparr>opts_submit := False\<rparr>) w = Some (Done resp, v)
            \<and> lands b (resp_raw resp) (resp_hash resp) v w')"
    unfolding build_Done_iff prepare_submit_irrelevant by auto
next
  fix e v
  assume "build_inner ext b ops (opts\<lparr>opts_submit := False\<rparr>) w = Some (Fail e, v)"
  then show "build_inner ext b ops (opts\<lparr>opts_submit := True\<rparr>) w = Some (Fail e, v)"
    by (auto simp: build_inner_def prepare_submit_irrelevant prog_simps Let_def)
qed

theorem submit_is_sign_then_broadcast_witness:
  "\<exists>resp v w'. build_inner demo_externals demo_bundler [happy_op] (demo_opts False) default_mock = Some (Done resp, v)
     \<and> build_inner demo_externals demo_bundler [happy_op] (demo_opts True) default_mock = Some (Done resp, w')
     \<and> lands demo_bundler (resp_raw resp) (resp_hash resp) v w'"
proof -
  have opts: "(demo_opts True)\<lparr>opts_submit := s\<rparr> = demo_opts s" for s by (simp add: demo_opts_def)
  have "build_inner demo_externals demo_bundler [happy_op] (demo_opts True) default_mock
      = Some (Done (demo_resp TEST_NONCE), demo_sent default_mock)" by (rule build_default_submit)
  with submit_is_sign_then_broadcast [of demo_externals demo_bundler "[happy_op]" "demo_opts True" default_mock]
  show ?thesis unfolding opts by blast
qed

end
