(* ===== verification/Task_Calls.thy ===== *)
theory Task_Calls
  imports Submit_Pool
begin

text \<open>
  Rules for all calls of a build at once.  What a call does to the world is its effect; a predicate
  on effects that holds for every call of the bundler holds at every await point of every build,
  in every reachable state of the pool.
\<close>

section \<open>Effects of calls\<close>

definition effect :: "('w \<Rightarrow> ('r \<times> 'w) option) \<Rightarrow> 'w \<Rightarrow> 'w option" where
  "effect m w = map_option snd (m w)"

inductive governed :: "(('w \<Rightarrow> 'w option) \<Rightarrow> bool) \<Rightarrow> ('w, 'e, 'a) task \<Rightarrow> bool" for K where
  g_return [simp, intro]: "governed K (Return r)"
| g_await: "K (effect f) \<Longrightarrow> (\<And>w t w'. f w = Some (t, w') \<Longrightarrow> governed K t) \<Longrightarrow> governed K (Await f)"
| g_acquire: "governed K t \<Longrightarrow> governed K (Acquire t)"
| g_release: "governed K t \<Longrightarrow> governed K (Release t)"

inductive_simps governed_Await_iff [simp]: "governed K (Await f)"
inductive_simps governed_Acquire_iff [simp]: "governed K (Acquire t)"
inductive_simps governed_Release_iff [simp]: "governed K (Release t)"

lemma effect_map [simp]:
  "effect (map_option (map_prod g id) \<circ> m) = effect m"
  "effect (\<lambda>w. map_option (\<lambda>(r, w'). (h r, w')) (m w)) = effect m"
  by (auto simp: effect_def fun_eq_iff option.map_comp intro!: option.map_cong0)

lemma governed_tbind: "governed K t \<Longrightarrow> (\<And>x. governed K (k x)) \<Longrightarrow> governed K (tbind t k)"
proof (induction rule: governed.induct)
  case (g_return r)
  then show ?case by (cases r) auto
qed auto

lemma governed_pure [simp]:
  "governed K (tret x)" "governed K (tfail e)" "governed K (tlift r)" "governed K (texpect msg v)"
  by (auto simp: tret_def tfail_def tlift_def texpect_def split: sum.splits option.splits)

lemma governed_tread: "K Some \<Longrightarrow> governed K (tread g)"
  by (auto simp: tread_def effect_def [abs_def])

lemma governed_tcall: "K (effect m) \<Longrightarrow> governed K (tcall conv m)"
  by (auto simp: tcall_def)

section \<open>The calls of a bundler\<close>

definition calls_obey :: "'w Bundler \<Rightarrow> (('w \<Rightarrow> 'w option) \<Rightarrow> bool) \<Rightarrow> bool" where
  "calls_obey b K \<longleftrightarrow>
     (let pv = bd_provider b in
      K (effect (pv_base_fee pv)) \<and> K (effect (pv_max_priority_fee pv))
      \<and> (\<forall>e a. K (effect (pv_balance_of pv e a)))
      \<and> (\<forall>e c p. K (effect (pv_simulate_validation pv e c p)))
      \<and> (\<forall>e p. K (effect (pv_user_op_hash pv e p)))
      \<and> (\<forall>s e d. K (effect (pv_estimate_handle_ops_gas pv s e d)))
      \<and> (\<forall>a. K (effect (pv_pending_nonce pv a)))
      \<and> (\<forall>raw. K (effect (pv_send_raw_transaction pv raw)))
      \<and> (\<forall>h. K (effect (pv_wait_for_receipt pv h RECEIPT_TIMEOUT)))
      \<and> (\<forall>s e d. K (effect (pv_try_call_for_revert pv s e d)))
      \<and> (\<forall>tx. K (effect (sg_sign_eip1559 (bd_signer b) tx))))"

lemma governed_build:
  assumes "calls_obey b K" and "K Some"
  shows "governed K (build_task ext b ops opts)"
proof -
  note laws = assms [unfolded calls_obey_def Let_def]
  note q = governed_tcall governed_tread laws
  have one: "governed K (process_op_task ext b base_fee now i op bt)" for base_fee now i op bt
    by (auto simp: process_op_task_def check_prefund_task_def simulate_task_def Let_def q split: prod.split
        intro!: governed_tbind)
  have all: "governed K (process_ops_task ext b base_fee now i ops' bt)" for base_fee now i ops' bt
    by (induction ops' arbitrary: i bt) (auto intro: governed_tbind one)
  have prep: "governed K (prepare_task ext b ops opts)"
    by (auto simp: prepare_task_def price_batch_task_def Let_def q all intro!: governed_tbind split: prod.split)
  have receipt: "governed K (await_receipt_task ext b pr hash)" for pr hash
    by (auto simp: await_receipt_task_def Let_def q split: option.split intro!: governed_tbind)
  have "governed K (finish_task ext b opts pr)" for pr
    by (auto simp: finish_task_def send_task_def sign_task_def Let_def q receipt intro!: governed_tbind)
  with prep show ?thesis unfolding build_task_def by (intro governed_tbind)
qed

section \<open>The jobs of a pool\<close>

definition governed_jobs :: "(('w \<Rightarrow> 'w option) \<Rightarrow> bool) \<Rightarrow> 'w pool \<Rightarrow> bool" where
  "governed_jobs K p \<longleftrightarrow> (\<forall>t. Running t \<in> set (pl_jobs p) \<longrightarrow> governed K t)"

lemma governed_jobs_at:
  "governed_jobs K p \<Longrightarrow> i < length (pl_jobs p) \<Longrightarrow> pl_jobs p ! i = Running t \<Longrightarrow> governed K t"
  unfolding governed_jobs_def by (metis nth_mem)

lemma governed_jobs_step:
  assumes "calls_obey b K" and "K Some" and "governed_jobs K p" and "pool_step ext b env p p'"
  shows "governed_jobs K p'"
proof -
  have run: "governed K t" if "i < length (pl_jobs p)" "pl_jobs p ! i = Running t" for i t
    using governed_jobs_at [OF assms(3)] that by blast
  have upd: "\<forall>t. Running t \<in> set ((pl_jobs p)[i := j]) \<longrightarrow> governed K t" if "\<And>t. j = Running t \<Longrightarrow> governed K t" for i j
    using assms(3) that set_update_subset_insert [of "pl_jobs p" i j] unfolding governed_jobs_def by blast
  from assms(4) show ?thesis
  proof cases
    case (start i ops opts)
    with upd [of "Running (build_task ext b ops opts)" i] governed_build [OF assms(1,2)] show ?thesis
      by (simp add: governed_jobs_def)
  next
    case (answer i f t w')
    with run [of i "Await f"] have "governed K t" by auto
    with upd [of "Running t" i] answer(1) show ?thesis by (simp add: governed_jobs_def)
  next
    case (lock i t)
    with run [of i "Acquire t"] upd [of "Running t" i] show ?thesis by (simp add: governed_jobs_def)
  next
    case (unlock i t)
    with run [of i "Release t"] upd [of "Running t" i] show ?thesis by (simp add: governed_jobs_def)
  qed (use assms(3) upd in \<open>auto simp: governed_jobs_def\<close>)
qed

interpretation governing: step_invariant "pool_step ext b env" "\<lambda>p. \<exists>w. p = idle_pool w"
    "\<lambda>p. calls_obey b K \<and> K Some \<longrightarrow> governed_jobs K p"
  for ext :: "'w externals" and b env K
proof (unfold_locales, goal_cases)
  case (1 p)
  then show ?case by (auto simp: governed_jobs_def idle_pool_def)
next
  case (2 p p')
  then show ?case by (auto intro: governed_jobs_step)
qed

section \<open>Predicates of the world that every call keeps\<close>

definition keeping :: "('w \<Rightarrow> bool) \<Rightarrow> ('w \<Rightarrow> 'w option) \<Rightarrow> bool" where
  "keeping I m \<longleftrightarrow> (\<forall>w w'. I w \<and> m w = Some w' \<longrightarrow> I w')"

lemma keeping_effect: "keeping I (effect m) \<longleftrightarrow> (\<forall>w r w'. I w \<and> m w = Some (r, w') \<longrightarrow> I w')"
  by (auto simp: keeping_def effect_def)

lemma kept_step:
  assumes "governed_jobs (keeping I) p" and "\<forall>w w'. I w \<and> env w w' \<longrightarrow> I w'"
    and "I (pl_world p)" and "pool_step ext b env p p'"
  shows "I (pl_world p')"
proof -
  have call: "I w'" if "i < length (pl_jobs p)" "pl_jobs p ! i = Running (Await f)" "f (pl_world p) = Some (t, w')"
    for i f t w'
    using governed_jobs_at [OF assms(1) that(1,2)] assms(3) that(3) by (auto simp: keeping_effect)
  from assms(4) show ?thesis by cases (use assms(2,3) call in auto)
qed

lemma world_kept:
  assumes "calls_obey b (keeping I)" and "\<forall>w w'. I w \<and> env w w' \<longrightarrow> I w'" and "I w"
    and "(pool_step ext b env)\<^sup>*\<^sup>* (idle_pool w) p"
  shows "I (pl_world p)"
  using assms(4)
proof (induction rule: rtranclp_induct)
  case base
  show ?case using assms(3) by (simp add: idle_pool_def)
next
  case (step p p')
  have "keeping I Some" by (simp add: keeping_def)
  with governing.always [OF _ step(1), of "keeping I"] assms(1) have "governed_jobs (keeping I) p" by blast
  with step assms(2) show ?case by (blast intro: kept_step)
qed

end
