(* ===== verification/Every_Schedule.thy ===== *)
theory Every_Schedule
  imports Pool_Properties Alloy_Properties Task_Calls
begin

text \<open>
  Liveness under every fair schedule.  A step takes one job strictly forward: a waiting request
  starts or is refused, a task moves to a part of itself, a task ends.  The order behind this is
  well-founded, so a job that is not neglected for ever is answered, whatever the other jobs do and
  however many requests keep arriving.
\<close>

section \<open>Calls that come back\<close>

definition comes_back :: "('w \<Rightarrow> 'w option) \<Rightarrow> bool" where
  "comes_back m \<longleftrightarrow> (\<forall>w. m w \<noteq> None)"

lemma comes_back_effect: "comes_back (effect m) \<longleftrightarrow> (\<forall>w. m w \<noteq> None)"
  by (simp add: comes_back_def effect_def)

lemma strict_comes_back: "calls_obey strict_bundler comes_back"
  unfolding calls_obey_def comes_back_effect
  by (auto simp: strict_bundler_def demo_bundler_def mock_provider_def demo_signer_def local_signer_def strict_send_def
      split: prod.splits sum.splits if_splits)

section \<open>Jobs move forward\<close>

inductive ahead :: "'w externals \<Rightarrow> 'w Bundler \<Rightarrow> 'w job \<Rightarrow> 'w job \<Rightarrow> bool"
  for ext :: "'w externals" and b :: "'w Bundler" where
  a_start: "ahead ext b (Running (build_task ext b ops opts)) (Queued ops opts)"
| a_refuse: "ahead ext b (Finished r) (Queued ops opts)"
| a_end: "ahead ext b (Finished r) (Running t)"
| a_answer: "f w = Some (t, w') \<Longrightarrow> ahead ext b (Running t) (Running (Await f))"
| a_lock: "ahead ext b (Running t) (Running (Acquire t))"
| a_unlock: "ahead ext b (Running t) (Running (Release t))"

inductive_cases ahead_FinishedE: "ahead ext b j (Finished r)"
inductive_cases ahead_QueuedE: "ahead ext b j (Queued ops opts)"
inductive_cases ahead_ReturnE: "ahead ext b j (Running (Return r))"
inductive_cases ahead_AwaitE: "ahead ext b j (Running (Await f))"
inductive_cases ahead_AcquireE: "ahead ext b j (Running (Acquire t))"
inductive_cases ahead_ReleaseE: "ahead ext b j (Running (Release t))"

lemma ahead_wf: "wfP (ahead ext b)"
proof -
  have ended: "Wellfounded.accp (ahead ext b) (Finished r)" for r
    by (rule accp.intros) (erule ahead_FinishedE)
  have running: "Wellfounded.accp (ahead ext b) (Running t)" for t
  proof (induction t rule: task_induct)
    case (Return r)
    show ?case by (rule accp.intros) (auto elim!: ahead_ReturnE intro: ended)
  next
    case (Await f)
    show ?case by (rule accp.intros) (use Await in \<open>auto elim!: ahead_AwaitE intro: ended\<close>)
  next
    case (Acquire t)
    show ?case by (rule accp.intros) (use Acquire in \<open>auto elim!: ahead_AcquireE intro: ended\<close>)
  next
    case (Release t)
    show ?case by (rule accp.intros) (use Release in \<open>auto elim!: ahead_ReleaseE intro: ended\<close>)
  qed
  have "Wellfounded.accp (ahead ext b) (Queued ops opts)" for ops opts
    by (rule accp.intros) (auto elim!: ahead_QueuedE intro: ended running)
  with ended running have "Wellfounded.accp (ahead ext b) j" for j by (cases j) auto
  then show ?thesis by (simp add: accp_wfpI)
qed

lemma ahead_irrefl: "\<not> ahead ext b j j"
  using wfp_imp_irreflp [OF ahead_wf] by (auto simp: irreflp_def)

section \<open>Jobs that can move\<close>

definition movable ::
  "'w externals \<Rightarrow> 'w Bundler \<Rightarrow> ('w \<Rightarrow> 'w \<Rightarrow> bool) \<Rightarrow> 'w pool \<Rightarrow> nat \<Rightarrow> bool" where
  "movable ext b env p i \<longleftrightarrow>
     i < length (pl_jobs p) \<and> (\<exists>p'. pool_step ext b env p p' \<and> pl_jobs p' ! i \<noteq> pl_jobs p ! i)"

lemma step_moves:
  assumes "pool_step ext b env p p'"
  shows "(\<exists>new. pl_jobs p' = pl_jobs p @ new)
     \<or> (\<exists>i j. i < length (pl_jobs p) \<and> pl_jobs p' = (pl_jobs p)[i := j] \<and> ahead ext b j (pl_jobs p ! i))"
  using assms
proof cases
  case (start i ops opts)
  then show ?thesis using a_start by (intro disjI2 exI [of _ i] exI [of _ "Running (build_task ext b ops opts)"]) simp
next
  case (refuse i ops opts)
  then show ?thesis using a_refuse by (intro disjI2 exI [of _ i] exI [of _ "Finished (Fail Cancelled)"]) simp
next
  case (answer i f t w')
  then show ?thesis using a_answer by (intro disjI2 exI [of _ i] exI [of _ "Running t"]) simp
next
  case (lock i t)
  then show ?thesis using a_lock by (intro disjI2 exI [of _ i] exI [of _ "Running t"]) simp
next
  case (unlock i t)
  then show ?thesis using a_unlock by (intro disjI2 exI [of _ i] exI [of _ "Running t"]) simp
next
  case (finish i r)
  then show ?thesis using a_end by (intro disjI2 exI [of _ i] exI [of _ "Finished r"]) simp
next
  case (abort i t)
  then show ?thesis using a_end by (intro disjI2 exI [of _ i] exI [of _ "Finished (Fail Cancelled)"]) simp
next
  case (late i f t w')
  then show ?thesis using a_end by (intro disjI2 exI [of _ i] exI [of _ "Finished (Fail Cancelled)"]) simp
qed auto

lemma job_moves:
  assumes "pool_step ext b env p p'" and "i < length (pl_jobs p)"
  shows "pl_jobs p' ! i = pl_jobs p ! i \<or> ahead ext b (pl_jobs p' ! i) (pl_jobs p ! i)"
  using step_moves [OF assms(1)] assms(2) by (auto simp: nth_append nth_list_update)

lemma finished_rests: "pl_jobs p ! i = Finished r \<Longrightarrow> \<not> movable ext b env p i"
  using job_moves ahead_FinishedE unfolding movable_def by metis

lemma movable_update:
  assumes "pool_step ext b env p p'" and "i < length (pl_jobs p)" and "pl_jobs p' = (pl_jobs p)[i := j]"
    and "ahead ext b j (pl_jobs p ! i)"
  shows "movable ext b env p i"
proof -
  have "j \<noteq> pl_jobs p ! i" using assms(4) ahead_irrefl by metis
  with assms(1-3) show ?thesis unfolding movable_def by auto
qed

lemma running_movable:
  assumes "governed comes_back t" and "i < length (pl_jobs p)" and "pl_jobs p ! i = Running t"
    and "\<nexists>t'. t = Acquire t'"
  shows "movable ext b env p i"
proof (cases t)
  case (Return r)
  then show ?thesis
    by (intro movable_update [OF pool_step.finish [OF assms(2)] assms(2), where j = "Finished r"])
       (use assms(3) in \<open>simp_all add: a_end\<close>)
next
  case (Await f)
  show ?thesis
  proof (cases "pl_cancelled p")
    case True
    with Await show ?thesis
      by (intro movable_update [OF pool_step.abort [OF assms(2,3)] assms(2), where j = "Finished (Fail Cancelled)"])
         (use assms(3) in \<open>simp_all add: awaits_def a_end\<close>)
  next
    case False
    from assms(1) Await obtain t' w' where f: "f (pl_world p) = Some (t', w')"
      by (force simp: comes_back_effect)
    have at: "pl_jobs p ! i = Running (Await f)" using assms(3) Await by simp
    show ?thesis
      by (rule movable_update [OF pool_step.answer [OF assms(2) at may_go_live [OF False] f] assms(2), where j = "Running t'"])
         (simp_all add: at a_answer [where f = f and w = "pl_world p" and w' = w'] f)
  qed
next
  case (Release t')
  then show ?thesis
    by (intro movable_update [OF pool_step.unlock [OF assms(2)] assms(2), where j = "Running t'"])
       (use assms(3) in \<open>simp_all add: a_unlock\<close>)
qed (use assms(4) in blast)

text \<open>Without the lock in somebody's hands every unanswered job can move.\<close>

lemma unlocked_movable:
  assumes "governed_jobs comes_back p" and "i < length (pl_jobs p)" and "\<nexists>r. pl_jobs p ! i = Finished r"
    and "pl_lock p = None \<or> (\<nexists>t. pl_jobs p ! i = Running (Acquire t))"
  shows "movable ext b env p i"
proof (cases "pl_jobs p ! i")
  case (Queued ops opts)
  show ?thesis
  proof (cases "pl_cancelled p")
    case True
    then show ?thesis
      by (intro movable_update [OF pool_step.refuse [OF assms(2) Queued] assms(2), where j = "Finished (Fail Cancelled)"])
         (simp_all add: Queued a_refuse)
  next
    case False
    then show ?thesis
      by (intro movable_update [OF pool_step.start [OF assms(2) Queued, of ext b env] assms(2),
            where j = "Running (build_task ext b ops opts)"])
         (simp_all add: Queued a_start)
  qed
next
  case (Running t)
  show ?thesis
  proof (cases "\<exists>t'. t = Acquire t'")
    case False
    with running_movable [OF governed_jobs_at [OF assms(1,2) Running] assms(2) Running] show ?thesis by blast
  next
    case True
    then obtain t' where t: "pl_jobs p ! i = Running (Acquire t')" using Running by blast
    with assms(4) have None: "pl_lock p = None" by blast
    show ?thesis
    proof (cases "pl_cancelled p")
      case True
      then show ?thesis
        by (intro movable_update [OF pool_step.abort [OF assms(2) t] assms(2), where j = "Finished (Fail Cancelled)"])
           (simp_all add: t awaits_def a_end)
    next
      case False
      with None show ?thesis
        by (intro movable_update [OF pool_step.lock [OF assms(2) t] assms(2), where j = "Running t'"])
           (simp_all add: t a_lock)
    qed
  qed
qed (use assms(3) in blast)

text \<open>Only its holder gives the lock back.\<close>

lemma lock_kept:
  assumes "pool_step ext b env p p'" and "pl_lock p = Some h"
  shows "pl_lock p' = Some h \<or> pl_lock p' = None"
  using assms by cases (auto simp: drop_guard_def)

section \<open>Schedules\<close>

text \<open>
  A schedule is an infinite sequence of states in which at each moment one step of the pool happens
  or nothing does.  It is attentive when no job is neglected for ever: a job that can move again
  and again does move.  This is what tokio promises of its runtime, which polls every task that has been
  woken, and of its mutex, which serves its waiters in turn.  The order of the steps, the arrival of
  requests and the changes outside are otherwise free.
\<close>

definition schedule ::
  "'w externals \<Rightarrow> 'w Bundler \<Rightarrow> ('w \<Rightarrow> 'w \<Rightarrow> bool) \<Rightarrow> 'w \<Rightarrow> (nat \<Rightarrow> 'w pool) \<Rightarrow> bool" where
  "schedule ext b env w \<sigma> \<longleftrightarrow>
     \<sigma> 0 = idle_pool w \<and> (\<forall>n. \<sigma> (Suc n) = \<sigma> n \<or> pool_step ext b env (\<sigma> n) (\<sigma> (Suc n)))"

definition attentive ::
  "'w externals \<Rightarrow> 'w Bundler \<Rightarrow> ('w \<Rightarrow> 'w \<Rightarrow> bool) \<Rightarrow> (nat \<Rightarrow> 'w pool) \<Rightarrow> bool" where
  "attentive ext b env \<sigma> \<longleftrightarrow>
     (\<forall>i n. (\<forall>m. \<exists>k \<ge> m. movable ext b env (\<sigma> k) i) \<longrightarrow>
        (\<exists>m \<ge> n. i < length (pl_jobs (\<sigma> m)) \<and> pl_jobs (\<sigma> (Suc m)) ! i \<noteq> pl_jobs (\<sigma> m) ! i))"

lemma schedule_reaches: "schedule ext b env w \<sigma> \<Longrightarrow> (pool_step ext b env)\<^sup>*\<^sup>* (idle_pool w) (\<sigma> n)"
proof (induction n)
  case (Suc n)
  then have "\<sigma> (Suc n) = \<sigma> n \<or> pool_step ext b env (\<sigma> n) (\<sigma> (Suc n))" by (simp add: schedule_def)
  with Suc show ?case by (auto intro: rtranclp.rtrancl_into_rtrancl)
qed (simp add: schedule_def)

lemma schedule_grows:
  assumes "schedule ext b env w \<sigma>" and "n \<le> m"
  shows "length (pl_jobs (\<sigma> n)) \<le> length (pl_jobs (\<sigma> m))"
  using assms(2)
proof (induction m rule: dec_induct)
  case (step m)
  have "\<sigma> (Suc m) = \<sigma> m \<or> pool_step ext b env (\<sigma> m) (\<sigma> (Suc m))" using assms(1) by (simp add: schedule_def)
  with step show ?case by (auto dest: jobs_never_shrink)
qed simp

lemma schedule_moves:
  assumes "schedule ext b env w \<sigma>" and "i < length (pl_jobs (\<sigma> n))"
  shows "pl_jobs (\<sigma> (Suc n)) ! i = pl_jobs (\<sigma> n) ! i \<or> ahead ext b (pl_jobs (\<sigma> (Suc n)) ! i) (pl_jobs (\<sigma> n) ! i)"
  using assms(1) job_moves [OF _ assms(2)] unfolding schedule_def by metis

lemma schedule_descends:
  assumes "schedule ext b env w \<sigma>" and "i < length (pl_jobs (\<sigma> n))" and "n \<le> m"
  shows "(ahead ext b)\<^sup>*\<^sup>* (pl_jobs (\<sigma> m) ! i) (pl_jobs (\<sigma> n) ! i)"
  using assms(3)
proof (induction m rule: dec_induct)
  case (step m)
  have "i < length (pl_jobs (\<sigma> m))" using schedule_grows [OF assms(1) step(1)] assms(2) by simp
  with schedule_moves [OF assms(1)] step(3) show ?case by (metis converse_rtranclp_into_rtranclp)
qed simp

lemma change_descends:
  assumes "schedule ext b env w \<sigma>" and "i < length (pl_jobs (\<sigma> n))" and "n \<le> m"
    and "pl_jobs (\<sigma> (Suc m)) ! i \<noteq> pl_jobs (\<sigma> m) ! i"
  shows "(ahead ext b)\<^sup>+\<^sup>+ (pl_jobs (\<sigma> (Suc m)) ! i) (pl_jobs (\<sigma> n) ! i)"
proof -
  have "i < length (pl_jobs (\<sigma> m))" using schedule_grows [OF assms(1,3)] assms(2) by simp
  with schedule_moves [OF assms(1)] assms(4) have "ahead ext b (pl_jobs (\<sigma> (Suc m)) ! i) (pl_jobs (\<sigma> m) ! i)" by blast
  with schedule_descends [OF assms(1-3)] show ?thesis by (rule rtranclp_into_tranclp2 [rotated])
qed

lemma ahead_trans_wf: "wfp (ahead ext b)\<^sup>+\<^sup>+"
  using ahead_wf by (rule wfp_tranclp)

section \<open>Every schedule answers every request\<close>

lemma idle_pool_reach:
  assumes "calls_obey b comes_back" and "(pool_step ext b env)\<^sup>*\<^sup>* (idle_pool w) p"
  shows "governed_jobs comes_back p" and "lock_inv p"
proof -
  have "comes_back Some" by (simp add: comes_back_def)
  with governing.always [OF _ assms(2), of comes_back] assms(1) show "governed_jobs comes_back p" by blast
  show "lock_inv p" using guarded.always [OF _ assms(2)] by blast
qed

lemma lock_comes_free:
  assumes "calls_obey b comes_back" and "schedule ext b env w \<sigma>" and "attentive ext b env \<sigma>"
  shows "\<exists>m \<ge> n. pl_lock (\<sigma> m) = None"
proof (cases "pl_lock (\<sigma> n)")
  case (Some h)
  note reach = idle_pool_reach [OF assms(1) schedule_reaches [OF assms(2)]]
  have "\<exists>m \<ge> n. pl_lock (\<sigma> m) = None" if "j = pl_jobs (\<sigma> n) ! h" and "pl_lock (\<sigma> n) = Some h" for j n
    using that
  proof (induction j arbitrary: n rule: wfp_induct_rule [OF ahead_trans_wf [of ext b]])
    case (1 j)
    show ?case
    proof (rule ccontr)
      assume never: "\<not> (\<exists>m \<ge> n. pl_lock (\<sigma> m) = None)"
      have held: "pl_lock (\<sigma> m) = Some h" if "n \<le> m" for m
        using that
      proof (induction m rule: dec_induct)
        case (step m)
        have "\<sigma> (Suc m) = \<sigma> m \<or> pool_step ext b env (\<sigma> m) (\<sigma> (Suc m))" using assms(2) by (simp add: schedule_def)
        with lock_kept [of ext b env "\<sigma> m"] step never show ?case by (metis le_SucI)
      qed (rule 1)
      have "movable ext b env (\<sigma> m) h" if "n \<le> m" for m
      proof -
        from reach(2) [of m] held [OF that] obtain t where t: "h < length (pl_jobs (\<sigma> m))"
          "pl_jobs (\<sigma> m) ! h = Running t" "lock_ok True t" unfolding lock_inv_def by (metis (full_types))
        then have "\<nexists>t'. pl_jobs (\<sigma> m) ! h = Running (Acquire t')" by auto
        with t show ?thesis by (intro unlocked_movable reach(1)) auto
      qed
      then have "\<forall>m. \<exists>k \<ge> m. movable ext b env (\<sigma> k) h" by (metis max.cobounded1 max.cobounded2)
      with assms(3) obtain m where m: "n \<le> m" "pl_jobs (\<sigma> (Suc m)) ! h \<noteq> pl_jobs (\<sigma> m) ! h"
        unfolding attentive_def by blast
      have "h < length (pl_jobs (\<sigma> n))" using reach(2) [of n] 1(3) by (auto simp: lock_inv_def)
      from change_descends [OF assms(2) this m] 1(1) [of "pl_jobs (\<sigma> (Suc m)) ! h" "Suc m"] held [of "Suc m"] 1(2) m(1)
      obtain k where "Suc m \<le> k" "pl_lock (\<sigma> k) = None" by auto
      with never m(1) show False by (meson Suc_leD order_trans)
    qed
  qed
  with Some show ?thesis by blast
qed blast

lemma unanswered_moves:
  assumes "calls_obey b comes_back" and "schedule ext b env w \<sigma>" and "attentive ext b env \<sigma>"
    and "i < length (pl_jobs (\<sigma> n))" and "\<nexists>r. pl_jobs (\<sigma> n) ! i = Finished r"
  shows "\<exists>m \<ge> n. pl_jobs (\<sigma> (Suc m)) ! i \<noteq> pl_jobs (\<sigma> m) ! i"
proof (rule ccontr)
  assume still: "\<not> (\<exists>m \<ge> n. pl_jobs (\<sigma> (Suc m)) ! i \<noteq> pl_jobs (\<sigma> m) ! i)"
  have same: "pl_jobs (\<sigma> m) ! i = pl_jobs (\<sigma> n) ! i" if "n \<le> m" for m
    using that by (induction m rule: dec_induct) (use still in auto)
  have "\<exists>k \<ge> m. movable ext b env (\<sigma> k) i" for m
  proof -
    obtain k where k: "max m n \<le> k" "pl_lock (\<sigma> k) = None" using lock_comes_free [OF assms(1-3)] by blast
    have "movable ext b env (\<sigma> k) i"
      using idle_pool_reach(1) [OF assms(1) schedule_reaches [OF assms(2)], of k] k same [of k] assms(5)
        schedule_grows [OF assms(2), of n k] assms(4)
      by (intro unlocked_movable) auto
    with k(1) show ?thesis by auto
  qed
  with assms(3) still show False unfolding attentive_def by blast
qed

lemma job_is_answered:
  assumes "calls_obey b comes_back" and "schedule ext b env w \<sigma>" and "attentive ext b env \<sigma>"
    and "i < length (pl_jobs (\<sigma> n))"
  shows "\<exists>m \<ge> n. \<exists>r. pl_jobs (\<sigma> m) ! i = Finished r"
proof -
  have "\<exists>m \<ge> n. \<exists>r. pl_jobs (\<sigma> m) ! i = Finished r" if "j = pl_jobs (\<sigma> n) ! i" and "i < length (pl_jobs (\<sigma> n))" for j n
    using that
  proof (induction j arbitrary: n rule: wfp_induct_rule [OF ahead_trans_wf [of ext b]])
    case (1 j)
    show ?case
    proof (cases "\<exists>r. pl_jobs (\<sigma> n) ! i = Finished r")
      case False
      with unanswered_moves [OF assms(1-3) 1(3)] obtain m where m: "n \<le> m" "pl_jobs (\<sigma> (Suc m)) ! i \<noteq> pl_jobs (\<sigma> m) ! i"
        by blast
      from change_descends [OF assms(2) 1(3) m] 1(1) [of "pl_jobs (\<sigma> (Suc m)) ! i" "Suc m"] 1(2,3)
        schedule_grows [OF assms(2), of n "Suc m"] m(1)
      obtain k r where "Suc m \<le> k" "pl_jobs (\<sigma> k) ! i = Finished r" by auto
      with m(1) show ?thesis by (meson Suc_leD order_trans)
    qed blast
  qed
  with assms(4) show ?thesis by blast
qed

text \<open>
  C5. No attentive schedule leaves a request unanswered: when every call of the bundler comes back,
  with an answer or an error, and no job that can move again and again is neglected for ever,
  then every request that has arrived at any moment is answered once and for all, however many others
  keep arriving, in whatever order the builds are polled and the lock is granted, whatever happens
  outside and whether or not a shutdown comes in between; and the submit lock is free again and again.
\<close>

theorem every_schedule_answers:
  assumes "calls_obey b comes_back" and "schedule ext b env w \<sigma>" and "attentive ext b env \<sigma>"
  shows "(\<forall>n. \<forall>i < length (pl_jobs (\<sigma> n)). \<exists>m r. \<forall>k \<ge> m. pl_jobs (\<sigma> k) ! i = Finished r)
     \<and> (\<forall>n. \<exists>m \<ge> n. pl_lock (\<sigma> m) = None)"
proof (intro conjI allI impI)
  fix n i assume i: "i < length (pl_jobs (\<sigma> n))"
  obtain m r where m: "n \<le> m" "pl_jobs (\<sigma> m) ! i = Finished r" using job_is_answered [OF assms i] by blast
  have "pl_jobs (\<sigma> k) ! i = Finished r" if "m \<le> k" for k
  proof -
    have "i < length (pl_jobs (\<sigma> m))" using schedule_grows [OF assms(2) m(1)] i by simp
    from schedule_descends [OF assms(2) this that] m(2) show ?thesis
      by (metis ahead_FinishedE rtranclp.cases)
  qed
  then show "\<exists>m r. \<forall>k \<ge> m. pl_jobs (\<sigma> k) ! i = Finished r" by blast
qed (rule lock_comes_free [OF assms])

text \<open>Every finite run that answers all requests extends to such a schedule.\<close>

lemma run_is_schedule:
  assumes "(pool_step ext b env)\<^sup>*\<^sup>* (idle_pool w) p" and "pl_jobs p = map Finished rs"
  shows "\<exists>\<sigma> N. schedule ext b env w \<sigma> \<and> attentive ext b env \<sigma> \<and> (\<forall>m \<ge> N. \<sigma> m = p)"
proof -
  from assms(1) obtain k where "(pool_step ext b env ^^ k) (idle_pool w) p" by (auto dest: rtranclp_imp_relpowp)
  then obtain f where f: "f 0 = idle_pool w" "f k = p" "\<forall>i < k. pool_step ext b env (f i) (f (Suc i))"
    by (auto simp: relpowp_fun_conv)
  define \<sigma> where "\<sigma> n = (if n \<le> k then f n else p)" for n
  have "\<sigma> (Suc n) = \<sigma> n \<or> pool_step ext b env (\<sigma> n) (\<sigma> (Suc n))" for n
    using f(2,3) by (cases n k rule: linorder_cases) (auto simp: \<sigma>_def)
  moreover have late: "\<sigma> m = p" if "k \<le> m" for m using that f(2) by (simp add: \<sigma>_def)
  moreover have "\<not> movable ext b env p i" for i
    using finished_rests [of p i] assms(2) by (cases "i < length rs") (auto simp: movable_def)
  then have "\<not> (\<forall>m. \<exists>n \<ge> m. movable ext b env (\<sigma> n) i)" for i using late by metis
  then have "attentive ext b env \<sigma>" unfolding attentive_def by blast
  moreover have "\<sigma> 0 = idle_pool w" using f(1) by (simp add: \<sigma>_def)
  ultimately show ?thesis by (intro exI [of _ \<sigma>] exI [of _ k]) (auto simp: schedule_def)
qed

theorem every_schedule_answers_witness:
  "\<exists>\<sigma> (n :: nat) m r. \<sigma> 0 = idle_pool default_mock \<and> pl_jobs (\<sigma> n) = pl_jobs two_done
     \<and> (\<forall>k. pl_jobs (\<sigma> (m + k)) ! 1 = Finished r)"
proof -
  have "pl_jobs two_done = map Finished [Done (demo_resp 7), Done (demo_resp 8)]" by (simp add: two_done_def)
  from run_is_schedule [OF strict_runs this] obtain \<sigma> N
    where \<sigma>: "schedule demo_externals strict_bundler (\<lambda>_ _. False) default_mock \<sigma>"
      "attentive demo_externals strict_bundler (\<lambda>_ _. False) \<sigma>" and late: "\<forall>m \<ge> N. \<sigma> m = two_done"
    by blast
  have "1 < length (pl_jobs (\<sigma> N))" using late by (simp add: two_done_def)
  with every_schedule_answers [OF strict_comes_back \<sigma>] obtain m r where "\<forall>k \<ge> m. pl_jobs (\<sigma> k) ! 1 = Finished r"
    by blast
  moreover have "\<sigma> 0 = idle_pool default_mock" using \<sigma>(1) by (simp add: schedule_def)
  ultimately show ?thesis using late by (intro exI [of _ \<sigma>] exI [of _ N] exI [of _ m] exI [of _ r]) auto
qed

end
