(* ===== verification/Wire_Json.thy ===== *)
theory Wire_Json
  imports Packing Json_Values
begin

text \<open>
  The JSON form of the wire types, as the serde attributes of \<open>crates/bundler/src/types.rs\<close> give
  it: camelCase names in the order of the fields, fields left out when they are empty, and
  defaults for fields that are missing.  The JSON forms of addresses, integers, hashes and byte
  strings belong to alloy and are the parameter \<open>value_codecs\<close>.

  Reading a struct follows serde's derived visitor: the entries of an object are visited in the
  order of the document, an unknown name is skipped, a repeated one is an error, each value is
  decoded when it is met, and only then the fields that are still missing are looked at.  An array
  gives the fields by position.
\<close>

section \<open>Values and errors\<close>

record value_codecs =
  ser_address :: "address \<Rightarrow> json"
  de_address :: "json \<Rightarrow> string + address"
  ser_u256 :: "u256 \<Rightarrow> json"
  de_u256 :: "json \<Rightarrow> string + u256"
  ser_bytes :: "bytes \<Rightarrow> json"
  de_bytes :: "json \<Rightarrow> string + bytes"
  ser_b256 :: "b256 \<Rightarrow> json"
  de_b256 :: "json \<Rightarrow> string + b256"

datatype serde_error =
    MissingField string
  | DuplicateField string
  | InvalidLength nat
  | TrailingElements
  | InvalidType
  | InvalidValue string

definition ser_u64 :: "u64 \<Rightarrow> json" where
  "ser_u64 n = JNum (uint n)"

definition de_u64 :: "json \<Rightarrow> serde_error + u64" where
  "de_u64 j = (case j of
      JNum n \<Rightarrow>
        if 0 \<le> n \<and> n < 2 ^ 64 then Inr (word_of_int n)
        else if - (2 ^ 63) \<le> n \<and> n < 0 then Inl (InvalidValue ''u64'')
        else Inl InvalidType
    | _ \<Rightarrow> Inl InvalidType)"

definition de_bool :: "json \<Rightarrow> serde_error + bool" where
  "de_bool j = (case j of JBool v \<Rightarrow> Inr v | _ \<Rightarrow> Inl InvalidType)"

definition ser_option :: "('a \<Rightarrow> json) \<Rightarrow> 'a option \<Rightarrow> json" where
  "ser_option ser v = (case v of None \<Rightarrow> JNull | Some x \<Rightarrow> ser x)"

definition de_value :: "(json \<Rightarrow> string + 'a) \<Rightarrow> json \<Rightarrow> serde_error + 'a" where
  "de_value de j = map_sum InvalidValue id (de j)"

definition de_option :: "(json \<Rightarrow> serde_error + 'a) \<Rightarrow> json \<Rightarrow> serde_error + 'a option" where
  "de_option de j = (if j = JNull then Inr None else map_sum id Some (de j))"

fun de_list :: "(json \<Rightarrow> serde_error + 'a) \<Rightarrow> json list \<Rightarrow> serde_error + 'a list" where
  "de_list de [] = Inr []"
| "de_list de (j # js) = rbind (de j) (\<lambda>x. rbind (de_list de js) (\<lambda>xs. Inr (x # xs)))"

definition de_vec :: "(json \<Rightarrow> serde_error + 'a) \<Rightarrow> json \<Rightarrow> serde_error + 'a list" where
  "de_vec de j = (case j of JArr js \<Rightarrow> de_list de js | _ \<Rightarrow> Inl InvalidType)"

section \<open>Structs\<close>

datatype field_kind = KAddress | KOptAddress | KU256 | KBytes | KB256 | KB256s | KU64 | KBool

definition checked :: "serde_error + 'a \<Rightarrow> serde_error + unit" where
  "checked r = map_sum id (\<lambda>_. ()) r"

definition check_value :: "value_codecs \<Rightarrow> field_kind \<Rightarrow> json \<Rightarrow> serde_error + unit" where
  "check_value cd kind j =
     (case kind of
        KAddress \<Rightarrow> checked (de_value (de_address cd) j)
      | KOptAddress \<Rightarrow> checked (de_option (de_value (de_address cd)) j)
      | KU256 \<Rightarrow> checked (de_value (de_u256 cd) j)
      | KBytes \<Rightarrow> checked (de_value (de_bytes cd) j)
      | KB256 \<Rightarrow> checked (de_value (de_b256 cd) j)
      | KB256s \<Rightarrow> checked (de_vec (de_value (de_b256 cd)) j)
      | KU64 \<Rightarrow> checked (de_u64 j)
      | KBool \<Rightarrow> checked (de_bool j))"

text \<open>The entries of an object, in the order of the document.\<close>

fun visit_entries ::
  "value_codecs \<Rightarrow> (string \<times> field_kind) list \<Rightarrow> string list \<Rightarrow> (string \<times> json) list \<Rightarrow> serde_error + unit" where
  "visit_entries cd schema seen [] = Inr ()"
| "visit_entries cd schema seen ((k, j) # kvs) =
     (case map_of schema k of
        None \<Rightarrow> visit_entries cd schema seen kvs
      | Some kind \<Rightarrow>
          if k \<in> set seen then Inl (DuplicateField k)
          else rbind (check_value cd kind j) (\<lambda>_. visit_entries cd schema (k # seen) kvs))"

fun position :: "string \<Rightarrow> string list \<Rightarrow> nat" where
  "position k [] = 0"
| "position k (k' # ks) = (if k = k' then 0 else Suc (position k ks))"

text \<open>The fields of a struct by name, and the error of a field that is missing.\<close>

definition struct_fields ::
  "value_codecs \<Rightarrow> (string \<times> field_kind) list \<Rightarrow> json \<Rightarrow> serde_error + ((string \<Rightarrow> json option) \<times> (string \<Rightarrow> serde_error))" where
  "struct_fields cd schema j =
     (case j of
        JObj kvs \<Rightarrow> rbind (visit_entries cd schema [] kvs) (\<lambda>_. Inr (map_of kvs, MissingField))
      | JArr js \<Rightarrow>
          rbind (visit_entries cd schema [] (zip (map fst schema) js)) (\<lambda>_.
            if length js > length schema then Inl TrailingElements
            else Inr (map_of (zip (map fst schema) js), \<lambda>k. InvalidLength (position k (map fst schema))))
      | _ \<Rightarrow> Inl InvalidType)"

definition required :: "((string \<Rightarrow> json option) \<times> (string \<Rightarrow> serde_error)) \<Rightarrow> string \<Rightarrow> (json \<Rightarrow> serde_error + 'a) \<Rightarrow> serde_error + 'a" where
  "required fs k de = (case fst fs k of Some j \<Rightarrow> de j | None \<Rightarrow> Inl (snd fs k))"

definition defaulted :: "((string \<Rightarrow> json option) \<times> (string \<Rightarrow> serde_error)) \<Rightarrow> string \<Rightarrow> (json \<Rightarrow> serde_error + 'a) \<Rightarrow> 'a \<Rightarrow> serde_error + 'a" where
  "defaulted fs k de dflt = (case fst fs k of Some j \<Rightarrow> de j | None \<Rightarrow> Inr dflt)"

text \<open>Writing a struct: the fields that are not skipped.\<close>

definition written :: "(string \<times> json option) list \<Rightarrow> (string \<times> json) list" where
  "written fds = map (\<lambda>(k, v). (k, the v)) (filter (\<lambda>(k, v). v \<noteq> None) fds)"

definition bytes_is_empty :: "bytes \<Rightarrow> bool" where
  "bytes_is_empty b \<longleftrightarrow> b = []"

section \<open>UserOpV07\<close>

definition user_op_schema :: "(string \<times> field_kind) list" where
  "user_op_schema =
     [(''sender'', KAddress), (''nonce'', KU256), (''initCode'', KBytes), (''factory'', KOptAddress),
      (''factoryData'', KBytes), (''callData'', KBytes), (''callGasLimit'', KU256),
      (''verificationGasLimit'', KU256), (''preVerificationGas'', KU256), (''maxFeePerGas'', KU256),
      (''maxPriorityFeePerGas'', KU256), (''paymaster'', KOptAddress),
      (''paymasterVerificationGasLimit'', KU256), (''paymasterPostOpGasLimit'', KU256),
      (''paymasterData'', KBytes), (''paymasterAndData'', KBytes), (''signature'', KBytes)]"

definition user_op_fields :: "value_codecs \<Rightarrow> UserOpV07 \<Rightarrow> (string \<times> json option) list" where
  "user_op_fields cd op =
     (let bytes_unless_empty = (\<lambda>b. if bytes_is_empty b then None else Some (ser_bytes cd b));
          address_if_some = (\<lambda>a. if a = None then None else Some (ser_option (ser_address cd) a)) in
     [(''sender'', Some (ser_address cd (op_sender op))),
      (''nonce'', Some (ser_u256 cd (op_nonce op))),
      (''initCode'', bytes_unless_empty (op_init_code op)),
      (''factory'', address_if_some (op_factory op)),
      (''factoryData'', bytes_unless_empty (op_factory_data op)),
      (''callData'', Some (ser_bytes cd (op_call_data op))),
      (''callGasLimit'', Some (ser_u256 cd (op_call_gas_limit op))),
      (''verificationGasLimit'', Some (ser_u256 cd (op_verification_gas_limit op))),
      (''preVerificationGas'', Some (ser_u256 cd (op_pre_verification_gas op))),
      (''maxFeePerGas'', Some (ser_u256 cd (op_max_fee_per_gas op))),
      (''maxPriorityFeePerGas'', Some (ser_u256 cd (op_max_priority_fee_per_gas op))),
      (''paymaster'', address_if_some (op_paymaster op)),
      (''paymasterVerificationGasLimit'', Some (ser_u256 cd (op_paymaster_verification_gas_limit op))),
      (''paymasterPostOpGasLimit'', Some (ser_u256 cd (op_paymaster_post_op_gas_limit op))),
      (''paymasterData'', bytes_unless_empty (op_paymaster_data op)),
      (''paymasterAndData'', bytes_unless_empty (op_paymaster_and_data op)),
      (''signature'', Some (ser_bytes cd (op_signature op)))])"

definition user_op_to_json :: "value_codecs \<Rightarrow> UserOpV07 \<Rightarrow> json" where
  "user_op_to_json cd op = JObj (written (user_op_fields cd op))"

definition user_op_from_json :: "value_codecs \<Rightarrow> json \<Rightarrow> serde_error + UserOpV07" where
  "user_op_from_json cd j =
     (let addr = de_value (de_address cd); num = de_value (de_u256 cd); blob = de_value (de_bytes cd) in
     rbind (struct_fields cd user_op_schema j) (\<lambda>fs.
     rbind (required fs ''sender'' addr) (\<lambda>sender.
     rbind (required fs ''nonce'' num) (\<lambda>nonce.
     rbind (defaulted fs ''initCode'' blob []) (\<lambda>init_code.
     rbind (defaulted fs ''factory'' (de_option addr) None) (\<lambda>factory.
     rbind (defaulted fs ''factoryData'' blob []) (\<lambda>factory_data.
     rbind (required fs ''callData'' blob) (\<lambda>call_data.
     rbind (required fs ''callGasLimit'' num) (\<lambda>call_gas_limit.
     rbind (required fs ''verificationGasLimit'' num) (\<lambda>verification_gas_limit.
     rbind (required fs ''preVerificationGas'' num) (\<lambda>pre_verification_gas.
     rbind (required fs ''maxFeePerGas'' num) (\<lambda>max_fee_per_gas.
     rbind (required fs ''maxPriorityFeePerGas'' num) (\<lambda>max_priority_fee_per_gas.
     rbind (defaulted fs ''paymaster'' (de_option addr) None) (\<lambda>paymaster.
     rbind (defaulted fs ''paymasterVerificationGasLimit'' num 0) (\<lambda>paymaster_verification_gas_limit.
     rbind (defaulted fs ''paymasterPostOpGasLimit'' num 0) (\<lambda>paymaster_post_op_gas_limit.
     rbind (defaulted fs ''paymasterData'' blob []) (\<lambda>paymaster_data.
     rbind (defaulted fs ''paymasterAndData'' blob []) (\<lambda>paymaster_and_data.
     rbind (defaulted fs ''signature'' blob []) (\<lambda>signature.
     Inr \<lparr> op_sender = sender, op_nonce = nonce, op_init_code = init_code, op_factory = factory,
           op_factory_data = factory_data, op_call_data = call_data, op_call_gas_limit = call_gas_limit,
           op_verification_gas_limit = verification_gas_limit,
           op_pre_verification_gas = pre_verification_gas, op_max_fee_per_gas = max_fee_per_gas,
           op_max_priority_fee_per_gas = max_priority_fee_per_gas, op_paymaster = paymaster,
           op_paymaster_verification_gas_limit = paymaster_verification_gas_limit,
           op_paymaster_post_op_gas_limit = paymaster_post_op_gas_limit,
           op_paymaster_data = paymaster_data, op_paymaster_and_data = paymaster_and_data,
           op_signature = signature \<rparr>)))))))))))))))))))"

section \<open>BuildOpts and SignedTxResp\<close>

definition build_opts_schema :: "(string \<times> field_kind) list" where
  "build_opts_schema = [(''chainId'', KU64), (''submit'', KBool)]"

definition build_opts_fields :: "BuildOpts \<Rightarrow> (string \<times> json option) list" where
  "build_opts_fields opts =
     [(''chainId'', Some (ser_u64 (opts_chain_id opts))), (''submit'', Some (JBool (opts_submit opts)))]"

definition build_opts_to_json :: "BuildOpts \<Rightarrow> json" where
  "build_opts_to_json opts = JObj (written (build_opts_fields opts))"

definition build_opts_from_json :: "value_codecs \<Rightarrow> json \<Rightarrow> serde_error + BuildOpts" where
  "build_opts_from_json cd j =
     rbind (struct_fields cd build_opts_schema j) (\<lambda>fs.
     rbind (required fs ''chainId'' de_u64) (\<lambda>chain_id.
     rbind (defaulted fs ''submit'' de_bool default_submit) (\<lambda>submit.
     Inr \<lparr> opts_chain_id = chain_id, opts_submit = submit \<rparr>)))"

definition signed_tx_resp_schema :: "(string \<times> field_kind) list" where
  "signed_tx_resp_schema =
     [(''raw'', KBytes), (''hash'', KB256), (''to'', KAddress), (''chainId'', KU64), (''gas'', KU256),
      (''maxFeePerGas'', KU256), (''maxPriorityFeePerGas'', KU256), (''userOpHashes'', KB256s)]"

definition signed_tx_resp_fields :: "value_codecs \<Rightarrow> SignedTxResp \<Rightarrow> (string \<times> json option) list" where
  "signed_tx_resp_fields cd resp =
     [(''raw'', Some (ser_bytes cd (resp_raw resp))),
      (''hash'', Some (ser_b256 cd (resp_hash resp))),
      (''to'', Some (ser_address cd (resp_to resp))),
      (''chainId'', Some (ser_u64 (resp_chain_id resp))),
      (''gas'', Some (ser_u256 cd (resp_gas resp))),
      (''maxFeePerGas'', Some (ser_u256 cd (resp_max_fee_per_gas resp))),
      (''maxPriorityFeePerGas'', Some (ser_u256 cd (resp_max_priority_fee_per_gas resp))),
      (''userOpHashes'', Some (JArr (map (ser_b256 cd) (resp_user_op_hashes resp))))]"

definition signed_tx_resp_to_json :: "value_codecs \<Rightarrow> SignedTxResp \<Rightarrow> json" where
  "signed_tx_resp_to_json cd resp = JObj (written (signed_tx_resp_fields cd resp))"

definition signed_tx_resp_from_json :: "value_codecs \<Rightarrow> json \<Rightarrow> serde_error + SignedTxResp" where
  "signed_tx_resp_from_json cd j =
     (let num = de_value (de_u256 cd) in
     rbind (struct_fields cd signed_tx_resp_schema j) (\<lambda>fs.
     rbind (required fs ''raw'' (de_value (de_bytes cd))) (\<lambda>raw.
     rbind (required fs ''hash'' (de_value (de_b256 cd))) (\<lambda>hash.
     rbind (required fs ''to'' (de_value (de_address cd))) (\<lambda>dest.
     rbind (required fs ''chainId'' de_u64) (\<lambda>chain_id.
     rbind (required fs ''gas'' num) (\<lambda>gas.
     rbind (required fs ''maxFeePerGas'' num) (\<lambda>max_fee_per_gas.
     rbind (required fs ''maxPriorityFeePerGas'' num) (\<lambda>max_priority_fee_per_gas.
     rbind (required fs ''userOpHashes'' (de_vec (de_value (de_b256 cd)))) (\<lambda>user_op_hashes.
     Inr \<lparr> resp_raw = raw, resp_hash = hash, resp_to = dest, resp_chain_id = chain_id, resp_gas = gas,
           resp_max_fee_per_gas = max_fee_per_gas, resp_max_priority_fee_per_gas = max_priority_fee_per_gas,
           resp_user_op_hashes = user_op_hashes \<rparr>))))))))))"

section \<open>Reading back what was written\<close>

text \<open>What is assumed of alloy's value codecs: they read back what they write, and no value is \<open>null\<close>.\<close>

definition faithful :: "value_codecs \<Rightarrow> bool" where
  "faithful cd \<longleftrightarrow>
     (\<forall>a. de_address cd (ser_address cd a) = Inr a \<and> ser_address cd a \<noteq> JNull)
     \<and> (\<forall>n. de_u256 cd (ser_u256 cd n) = Inr n)
     \<and> (\<forall>b. de_bytes cd (ser_bytes cd b) = Inr b)
     \<and> (\<forall>h. de_b256 cd (ser_b256 cd h) = Inr h)"

lemma de_u64_ser [simp]: "de_u64 (ser_u64 n) = Inr n"
  using uint_bounded [of n] by (simp add: de_u64_def ser_u64_def)

lemma faithful_values [simp]:
  assumes "faithful cd"
  shows "de_value (de_address cd) (ser_address cd a) = Inr a" "de_value (de_u256 cd) (ser_u256 cd n) = Inr n"
    "de_value (de_bytes cd) (ser_bytes cd b) = Inr b" "de_value (de_b256 cd) (ser_b256 cd h) = Inr h"
    "de_option (de_value (de_address cd)) (ser_option (ser_address cd) x) = Inr x"
  using assms by (auto simp: faithful_def de_value_def de_option_def ser_option_def split: option.splits)

lemma de_vec_ser [simp]:
  assumes "faithful cd"
  shows "de_vec (de_value (de_b256 cd)) (JArr (map (ser_b256 cd) hs)) = Inr hs"
proof -
  have "de_list (de_value (de_b256 cd)) (map (ser_b256 cd) hs) = Inr hs"
    using assms by (induction hs) simp_all
  then show ?thesis by (simp add: de_vec_def)
qed

lemma visit_entries_ok:
  assumes "distinct (map fst kvs)" and "set seen \<inter> fst ` set kvs = {}"
    and "\<And>k j kind. (k, j) \<in> set kvs \<Longrightarrow> map_of schema k = Some kind \<Longrightarrow> check_value cd kind j = Inr ()"
  shows "visit_entries cd schema seen kvs = Inr ()"
  using assms
proof (induction kvs arbitrary: seen)
  case (Cons kv kvs)
  obtain k j where kv: "kv = (k, j)" by (cases kv)
  from Cons.prems(1,2) kv have fresh: "k \<notin> set seen" "set (k # seen) \<inter> fst ` set kvs = {}"
    "set seen \<inter> fst ` set kvs = {}" and d: "distinct (map fst kvs)"
    by auto
  have rest: "visit_entries cd schema seen' kvs = Inr ()" if "set seen' \<inter> fst ` set kvs = {}" for seen'
    using Cons.prems(3) by (intro Cons.IH d that) auto
  have "check_value cd kind j = Inr ()" if "map_of schema k = Some kind" for kind
    using Cons.prems(3) [of k j kind] that kv by simp
  then show ?case using fresh rest by (simp add: kv split: option.split)
qed simp

lemma set_written: "(k, j) \<in> set (written fds) \<longleftrightarrow> (k, Some j) \<in> set fds"
  by (force simp: written_def)

lemma distinct_written: "distinct (map fst fds) \<Longrightarrow> distinct (map fst (written fds))"
  by (induction fds) (auto simp: written_def image_iff)

lemma map_of_written:
  assumes "distinct (map fst fds)"
  shows "map_of (written fds) k = Option.bind (map_of fds k) id"
  using assms by (induction fds) (auto simp: written_def map_of_eq_None_iff [THEN iffD2])

text \<open>A struct whose fields are written by their kinds reads back as its fields.\<close>

lemma struct_fields_written:
  assumes "map fst fds = map fst schema" and "distinct (map fst schema)"
    and "list_all2 (\<lambda>(k, v) (k', kind). \<forall>j. v = Some j \<longrightarrow> check_value cd kind j = Inr ()) fds schema"
  shows "struct_fields cd schema (JObj (written fds)) = Inr (\<lambda>k. Option.bind (map_of fds k) id, MissingField)"
proof -
  have d: "distinct (map fst fds)" using assms by simp
  have "visit_entries cd schema [] (written fds) = Inr ()"
  proof (rule visit_entries_ok)
    fix k j kind assume "(k, j) \<in> set (written fds)" and s: "map_of schema k = Some kind"
    then obtain i where i: "i < length fds" "fds ! i = (k, Some j)"
      unfolding set_written by (auto simp: in_set_conv_nth)
    then have len: "i < length schema" using assms(1) by (metis length_map)
    have "fst (schema ! i) = k" using i assms(1) len by (metis fst_conv nth_map)
    then have "schema ! i = (k, kind)"
      using s assms(2) len by (metis eq_key_imp_eq_value map_of_SomeD map_of_eq_Some_iff nth_mem prod.collapse)
    with list_all2_nthD [OF assms(3) i(1)] i(2) show "check_value cd kind j = Inr ()" by simp
  qed (use d distinct_written in auto)
  then show ?thesis using map_of_written [OF d] by (simp add: struct_fields_def fun_eq_iff)
qed


lemmas field_lookup = required_def defaulted_def check_value_def checked_def

lemma user_op_fields_read:
  assumes "faithful cd"
  shows "struct_fields cd user_op_schema (user_op_to_json cd op)
           = Inr (\<lambda>k. Option.bind (map_of (user_op_fields cd op) k) id, MissingField)"
  unfolding user_op_to_json_def
  by (rule struct_fields_written)
     (simp_all add: user_op_fields_def user_op_schema_def field_lookup assms)

lemma user_op_roundtrip:
  assumes "faithful cd"
  shows "user_op_from_json cd (user_op_to_json cd op) = Inr op"
  by (simp add: user_op_from_json_def user_op_fields_read [OF assms] field_lookup)
     (simp add: user_op_fields_def Let_def assms bytes_is_empty_def)

lemma build_opts_roundtrip: "build_opts_from_json cd (build_opts_to_json opts) = Inr opts"
proof -
  have "struct_fields cd build_opts_schema (build_opts_to_json opts)
          = Inr (\<lambda>k. Option.bind (map_of (build_opts_fields opts) k) id, MissingField)"
    unfolding build_opts_to_json_def
    by (rule struct_fields_written)
       (simp_all add: build_opts_fields_def build_opts_schema_def field_lookup de_bool_def)
  then show ?thesis
    by (simp add: build_opts_from_json_def build_opts_fields_def field_lookup de_bool_def)
qed

lemma signed_tx_resp_roundtrip:
  assumes "faithful cd"
  shows "signed_tx_resp_from_json cd (signed_tx_resp_to_json cd resp) = Inr resp"
proof -
  have "struct_fields cd signed_tx_resp_schema (signed_tx_resp_to_json cd resp)
          = Inr (\<lambda>k. Option.bind (map_of (signed_tx_resp_fields cd resp) k) id, MissingField)"
    unfolding signed_tx_resp_to_json_def
    by (rule struct_fields_written)
       (simp_all add: signed_tx_resp_fields_def signed_tx_resp_schema_def field_lookup assms)
  then show ?thesis
    by (simp add: signed_tx_resp_from_json_def signed_tx_resp_fields_def field_lookup assms)
qed

lemma build_opts_default_submit:
  "build_opts_from_json cd (JObj [(''chainId'', ser_u64 n)]) = Inr \<lparr> opts_chain_id = n, opts_submit = True \<rparr>"
  by (simp add: build_opts_from_json_def struct_fields_def build_opts_schema_def field_lookup default_submit_def)

section \<open>The wire round trip\<close>

text \<open>
  C21. Every value of the wire types is read back unchanged from the JSON serde writes for it, also
  when empty byte strings and absent addresses are left out of the document, provided alloy's
  codecs for addresses, integers, hashes and byte strings read back what they write; and options
  that only name a chain ask for a submit.
\<close>

theorem wire_json_roundtrip:
  assumes "faithful cd"
  shows "user_op_from_json cd (user_op_to_json cd op) = Inr op
    \<and> build_opts_from_json cd (build_opts_to_json opts) = Inr opts
    \<and> signed_tx_resp_from_json cd (signed_tx_resp_to_json cd resp) = Inr resp
    \<and> build_opts_from_json cd (JObj [(''chainId'', ser_u64 n)])
        = Inr \<lparr> opts_chain_id = n, opts_submit = True \<rparr>"
  using user_op_roundtrip [OF assms] signed_tx_resp_roundtrip [OF assms]
    build_opts_roundtrip build_opts_default_submit by blast

text \<open>Value codecs that write a word as a number and a byte string as an array of numbers.\<close>

definition word_from_json :: "json \<Rightarrow> string + 'n::len word" where
  "word_from_json j = (case j of JNum n \<Rightarrow> Inr (word_of_int n) | _ \<Rightarrow> Inl ''not a number'')"

definition blob_from_json :: "json \<Rightarrow> string + bytes" where
  "blob_from_json j =
     (case j of JArr js \<Rightarrow> Inr (map (\<lambda>x. case x of JNum n \<Rightarrow> word_of_int n | _ \<Rightarrow> 0) js)
      | _ \<Rightarrow> Inl ''not an array'')"

definition numeric_codecs :: value_codecs where
  "numeric_codecs =
     \<lparr> ser_address = (\<lambda>a. JNum (uint a)), de_address = word_from_json,
       ser_u256 = (\<lambda>n. JNum (uint n)), de_u256 = word_from_json,
       ser_bytes = (\<lambda>b. JArr (map (\<lambda>x. JNum (uint x)) b)), de_bytes = blob_from_json,
       ser_b256 = (\<lambda>h. JNum (uint h)), de_b256 = word_from_json \<rparr>"

lemma numeric_codecs_faithful: "faithful numeric_codecs"
  by (simp add: faithful_def numeric_codecs_def word_from_json_def blob_from_json_def comp_def)

theorem wire_json_roundtrip_witness:
  "faithful numeric_codecs
   \<and> user_op_from_json numeric_codecs (user_op_to_json numeric_codecs paymaster_op) = Inr paymaster_op
   \<and> build_opts_from_json numeric_codecs (JObj [(''chainId'', JNum 77777)])
       = Inr \<lparr> opts_chain_id = 77777, opts_submit = True \<rparr>"
  using wire_json_roundtrip [OF numeric_codecs_faithful, where op = paymaster_op and n = 77777]
    numeric_codecs_faithful
  by (simp add: ser_u64_def)

end
