(* ===== verification/Json_Typing.thy ===== *)
theory Json_Typing
  imports Wire_Json
begin

text \<open>
  The type discipline of the wire format: the documents from which a request can be read are
  exactly the ones that are well typed for the schema of the struct, whatever the order of their
  entries and whatever unknown entries they carry.
\<close>

section \<open>Well-typed documents\<close>

text \<open>The entries a document gives: by name in an object, by position in an array.\<close>

definition entries_of :: "(string \<times> field_kind) list \<Rightarrow> json \<Rightarrow> (string \<times> json) list option" where
  "entries_of schema j =
     (case j of
        JObj kvs \<Rightarrow> Some kvs
      | JArr js \<Rightarrow> if length js \<le> length schema then Some (zip (map fst schema) js) else None
      | _ \<Rightarrow> None)"

definition known_names :: "(string \<times> field_kind) list \<Rightarrow> (string \<times> json) list \<Rightarrow> string list" where
  "known_names schema kvs = filter (\<lambda>k. map_of schema k \<noteq> None) (map fst kvs)"

definition well_typed :: "value_codecs \<Rightarrow> (string \<times> field_kind) list \<Rightarrow> string list \<Rightarrow> json \<Rightarrow> bool" where
  "well_typed cd schema mandatory j =
     (case entries_of schema j of
        None \<Rightarrow> False
      | Some kvs \<Rightarrow>
          distinct (known_names schema kvs)
          \<and> (\<forall>(k, v) \<in> set kvs. case map_of schema k of None \<Rightarrow> True | Some kind \<Rightarrow> check_value cd kind v = Inr ())
          \<and> set mandatory \<subseteq> fst ` set kvs)"

section \<open>Visiting the entries\<close>

lemma visit_entries_Inr_iff:
  "visit_entries cd schema seen kvs = Inr () \<longleftrightarrow>
     distinct (known_names schema kvs) \<and> set (known_names schema kvs) \<inter> set seen = {}
     \<and> (\<forall>(k, v) \<in> set kvs. case map_of schema k of None \<Rightarrow> True | Some kind \<Rightarrow> check_value cd kind v = Inr ())"
proof (induction cd schema seen kvs rule: visit_entries.induct)
  case (2 cd schema seen k j kvs)
  show ?case
  proof (cases "map_of schema k")
    case None
    with 2(1) show ?thesis by (simp add: known_names_def)
  next
    case (Some kind)
    with 2(2) show ?thesis by (auto simp: known_names_def rbind_Inr_iff)
  qed
qed (simp add: known_names_def)

lemma struct_fields_entries:
  "entries_of schema j = None \<Longrightarrow> \<exists>e. struct_fields cd schema j = Inl e"
  "entries_of schema j = Some kvs \<Longrightarrow> visit_entries cd schema [] kvs = Inl e \<Longrightarrow> struct_fields cd schema j = Inl e"
  "entries_of schema j = Some kvs \<Longrightarrow> visit_entries cd schema [] kvs = Inr () \<Longrightarrow>
     \<exists>g. struct_fields cd schema j = Inr (map_of kvs, g)"
  by (auto simp: struct_fields_def entries_of_def rbind_def split: json.splits if_splits sum.splits)

section \<open>Reading the fields\<close>

lemma checked_Inr_iff: "checked r = Inr () \<longleftrightarrow> (\<exists>x. r = Inr x)"
  by (cases r) (simp_all add: checked_def)

lemma required_Inr_iff: "(\<exists>x. required fs k de = Inr x) \<longleftrightarrow> (\<exists>j x. fst fs k = Some j \<and> de j = Inr x)"
  by (simp add: required_def split: option.split)

lemma defaulted_Inr_iff: "(\<exists>x. defaulted fs k de dflt = Inr x) \<longleftrightarrow> (\<forall>j. fst fs k = Some j \<longrightarrow> (\<exists>x. de j = Inr x))"
  by (simp add: defaulted_def split: option.split)

text \<open>A field of a visited document decodes at its kind.\<close>

lemma visited_field:
  assumes "visit_entries cd schema [] kvs = Inr ()" and "map_of schema k = Some kind" and "map_of kvs k = Some j"
  shows "check_value cd kind j = Inr ()"
proof -
  have "(k, j) \<in> set kvs" using assms(3) by (rule map_of_SomeD)
  with assms(1,2) show ?thesis by (auto simp: visit_entries_Inr_iff)
qed

lemma ex_rbind: "(\<exists>y. rbind r k = Inr y) \<longleftrightarrow> (\<exists>x. r = Inr x \<and> (\<exists>y. k x = Inr y))"
  by (auto simp: rbind_Inr_iff)

text \<open>A decoder that reads mandatory and defaulted fields at their kinds accepts the well-typed documents.\<close>

definition reads_at :: "value_codecs \<Rightarrow> field_kind \<Rightarrow> (json \<Rightarrow> serde_error + 'a) \<Rightarrow> bool" where
  "reads_at cd kind de \<longleftrightarrow> (\<forall>j. (\<exists>x. de j = Inr x) \<longleftrightarrow> check_value cd kind j = Inr ())"

lemma reads_at_kinds:
  "reads_at cd KAddress (de_value (de_address cd))" "reads_at cd KOptAddress (de_option (de_value (de_address cd)))"
  "reads_at cd KU256 (de_value (de_u256 cd))" "reads_at cd KBytes (de_value (de_bytes cd))"
  "reads_at cd KB256 (de_value (de_b256 cd))" "reads_at cd KB256s (de_vec (de_value (de_b256 cd)))"
  "reads_at cd KU64 de_u64" "reads_at cd KBool de_bool"
  by (simp_all add: reads_at_def check_value_def checked_Inr_iff)

lemma required_visited:
  assumes "visit_entries cd schema [] kvs = Inr ()" and "map_of schema k = Some kind" and "reads_at cd kind de"
    and "fst fs = map_of kvs"
  shows "(\<exists>x. required fs k de = Inr x) \<longleftrightarrow> k \<in> fst ` set kvs"
proof -
  have "\<exists>x. de j = Inr x" if "map_of kvs k = Some j" for j
    using visited_field [OF assms(1,2) that] assms(3) by (simp add: reads_at_def)
  then have "(\<exists>x. required fs k de = Inr x) \<longleftrightarrow> map_of kvs k \<noteq> None"
    by (auto simp: required_Inr_iff assms(4))
  then show ?thesis by (simp add: map_of_eq_None_iff)
qed

lemma defaulted_visited:
  assumes "visit_entries cd schema [] kvs = Inr ()" and "map_of schema k = Some kind" and "reads_at cd kind de"
    and "fst fs = map_of kvs"
  shows "\<exists>x. defaulted fs k de dflt = Inr x"
  using visited_field [OF assms(1,2)] assms(3,4) by (simp add: defaulted_Inr_iff reads_at_def)

text \<open>Reading the fields after the visit, for a decoder that only asks for the mandatory ones.\<close>

lemma decoder_accepts_iff:
  assumes "\<And>fs kvs. fst fs = map_of kvs \<Longrightarrow> visit_entries cd schema [] kvs = Inr () \<Longrightarrow>
             (\<exists>x. read fs = Inr x) \<longleftrightarrow> set mandatory \<subseteq> fst ` set kvs"
  shows "(\<exists>x. rbind (struct_fields cd schema j) read = Inr x) \<longleftrightarrow> well_typed cd schema mandatory j"
proof -
  note entries = struct_fields_entries [of schema j, where cd = cd]
  consider "entries_of schema j = None"
    | kvs e where "entries_of schema j = Some kvs" "visit_entries cd schema [] kvs = Inl e"
    | kvs where "entries_of schema j = Some kvs" "visit_entries cd schema [] kvs = Inr ()"
    by (metis not_Some_eq obj_sumE unit.exhaust)
  then show ?thesis
  proof cases
    case 1
    with entries(1) show ?thesis by (auto simp: well_typed_def)
  next
    case 2
    then have "visit_entries cd schema [] kvs \<noteq> Inr ()" by simp
    with entries(2) [OF 2] 2(1) show ?thesis unfolding visit_entries_Inr_iff by (simp add: well_typed_def)
  next
    case 3
    from entries(3) [OF 3] obtain g where "struct_fields cd schema j = Inr (map_of kvs, g)" by blast
    with assms [OF _ 3(2), of "(map_of kvs, g)"] have "(\<exists>x. rbind (struct_fields cd schema j) read = Inr x)
        \<longleftrightarrow> set mandatory \<subseteq> fst ` set kvs" by simp
    with 3 show ?thesis unfolding visit_entries_Inr_iff by (simp add: well_typed_def)
  qed
qed

section \<open>The three structs\<close>

definition user_op_mandatory :: "string list" where
  "user_op_mandatory =
     [''sender'', ''nonce'', ''callData'', ''callGasLimit'', ''verificationGasLimit'', ''preVerificationGas'',
      ''maxFeePerGas'', ''maxPriorityFeePerGas'']"

lemma user_op_typed:
  "(\<exists>op. user_op_from_json cd j = Inr op) \<longleftrightarrow> well_typed cd user_op_schema user_op_mandatory j"
  unfolding user_op_from_json_def Let_def
proof (rule decoder_accepts_iff, goal_cases)
  case (1 fs kvs)
  note field = required_visited [OF 1(2) _ _ 1(1)] defaulted_visited [OF 1(2) _ _ 1(1)]
  have s: "map_of user_op_schema k = Some kind" if "(k, kind) \<in> set user_op_schema" for k kind
    using that by (rule map_of_is_SomeI [rotated]) (simp add: user_op_schema_def)
  note req = field(1) [OF s reads_at_kinds(1)] field(1) [OF s reads_at_kinds(3)] field(1) [OF s reads_at_kinds(4)]
  note opt = field(2) [OF s reads_at_kinds(2)] field(2) [OF s reads_at_kinds(3)] field(2) [OF s reads_at_kinds(4)]
  show ?case
    by (simp add: ex_rbind req opt user_op_mandatory_def user_op_schema_def)
qed

definition build_opts_mandatory :: "string list" where
  "build_opts_mandatory = [''chainId'']"

lemma build_opts_typed:
  "(\<exists>opts. build_opts_from_json cd j = Inr opts) \<longleftrightarrow> well_typed cd build_opts_schema build_opts_mandatory j"
  unfolding build_opts_from_json_def
proof (rule decoder_accepts_iff, goal_cases)
  case (1 fs kvs)
  note field = required_visited [OF 1(2) _ _ 1(1)] defaulted_visited [OF 1(2) _ _ 1(1)]
  show ?case
    by (simp add: ex_rbind field(1) [OF _ reads_at_kinds(7)] field(2) [OF _ reads_at_kinds(8)]
        build_opts_schema_def build_opts_mandatory_def)
qed

lemma signed_tx_resp_typed:
  "(\<exists>resp. signed_tx_resp_from_json cd j = Inr resp)
     \<longleftrightarrow> well_typed cd signed_tx_resp_schema (map fst signed_tx_resp_schema) j"
  unfolding signed_tx_resp_from_json_def Let_def
proof (rule decoder_accepts_iff, goal_cases)
  case (1 fs kvs)
  note field = required_visited [OF 1(2) _ _ 1(1)]
  have s: "map_of signed_tx_resp_schema k = Some kind" if "(k, kind) \<in> set signed_tx_resp_schema" for k kind
    using that by (rule map_of_is_SomeI [rotated]) (simp add: signed_tx_resp_schema_def)
  show ?case
    by (simp add: ex_rbind field [OF s reads_at_kinds(1)] field [OF s reads_at_kinds(3)] field [OF s reads_at_kinds(4)]
        field [OF s reads_at_kinds(5)] field [OF s reads_at_kinds(6)] field [OF s reads_at_kinds(7)]
        signed_tx_resp_schema_def)
qed

text \<open>
  C22. The wire format is typed: an operation, an options object and a response are read from
  exactly the documents that are well typed for their schema, that is objects in which no known
  name is repeated, every known name carries a value of its type and the mandatory names are
  present (unknown names are ignored), or arrays that give the fields by position in the same way.
\<close>

theorem wire_json_typed:
  "((\<exists>op. user_op_from_json cd j = Inr op) \<longleftrightarrow> well_typed cd user_op_schema user_op_mandatory j)
   \<and> ((\<exists>opts. build_opts_from_json cd j = Inr opts) \<longleftrightarrow> well_typed cd build_opts_schema build_opts_mandatory j)
   \<and> ((\<exists>resp. signed_tx_resp_from_json cd j = Inr resp)
        \<longleftrightarrow> well_typed cd signed_tx_resp_schema (map fst signed_tx_resp_schema) j)"
  using user_op_typed build_opts_typed signed_tx_resp_typed by blast

end
