(* ===== verification/Wire_Service.thy ===== *)
theory Wire_Service
  imports Service Json_Typing
begin

text \<open>
  A call of \<open>ethera_buildSignedUserOpsTx\<close> from the bytes of its parameters to the bytes of its
  reply.  How jsonrpsee finds the two parameters in a request, and which error object it answers
  when they cannot be read, is its own: the parameter \<open>rpc_framework\<close>.  Reading the parameters is
  serde's decoding of \<open>Vec<UserOpV07>\<close> and \<open>BuildOpts\<close>, the build runs in the pool, and the reply
  is the handler's, written by serde.
\<close>

section \<open>Request and reply\<close>

record rpc_framework =
  fw_two_params :: "json \<Rightarrow> (json \<times> json) option"
  fw_invalid_params :: "serde_error option \<Rightarrow> ErrorObject"

text \<open>A request whose parameters are an array of two gives them in that order.\<close>

definition positional :: "rpc_framework \<Rightarrow> bool" where
  "positional fw \<longleftrightarrow> (\<forall>a b. fw_two_params fw (JArr [a, b]) = Some (a, b))"

definition read_request ::
  "rpc_framework \<Rightarrow> value_codecs \<Rightarrow> json \<Rightarrow> ErrorObject + (UserOpV07 list \<times> BuildOpts)" where
  "read_request fw cd params =
     (case fw_two_params fw params of
        None \<Rightarrow> Inl (fw_invalid_params fw None)
      | Some (user_ops, opts) \<Rightarrow>
          map_sum (fw_invalid_params fw \<circ> Some) id
            (rbind (de_vec (user_op_from_json cd) user_ops) (\<lambda>ops.
             rbind (build_opts_from_json cd opts) (\<lambda>o'. Inr (ops, o')))))"

definition write_reply ::
  "value_codecs \<Rightarrow> formats \<Rightarrow> (BundlerError, SignedTxResp) flow \<Rightarrow> (ErrorObject + json) option" where
  "write_reply cd fm outcome = map_option (map_sum id (signed_tx_resp_to_json cd)) (rpc_reply fm outcome)"

text \<open>What a client sends that serialises its operations and options.\<close>

definition client_params :: "value_codecs \<Rightarrow> UserOpV07 list \<Rightarrow> BuildOpts \<Rightarrow> json" where
  "client_params cd ops opts = JArr [JArr (map (user_op_to_json cd) ops), build_opts_to_json opts]"

section \<open>Reading requests\<close>

lemma de_list_map: "(\<And>x. de (ser x) = Inr x) \<Longrightarrow> de_list de (map ser xs) = Inr xs"
  by (induction xs) simp_all

lemma de_list_Inr_iff: "(\<exists>xs. de_list de js = Inr xs) \<longleftrightarrow> (\<forall>j \<in> set js. \<exists>x. de j = Inr x)"
  by (induction js) (auto simp: ex_rbind)

lemma client_request_read:
  assumes "faithful cd" and "positional fw"
  shows "read_request fw cd (client_params cd ops opts) = Inr (ops, opts)"
  using assms user_op_roundtrip [OF assms(1)]
  by (simp add: read_request_def client_params_def positional_def de_vec_def de_list_map build_opts_roundtrip)

definition request_typed :: "value_codecs \<Rightarrow> json \<Rightarrow> json \<Rightarrow> bool" where
  "request_typed cd user_ops opts \<longleftrightarrow>
     (case user_ops of JArr js \<Rightarrow> list_all (well_typed cd user_op_schema user_op_mandatory) js | _ \<Rightarrow> False)
     \<and> well_typed cd build_opts_schema build_opts_mandatory opts"

lemma request_read_iff:
  assumes "fw_two_params fw params = Some (user_ops, opts)"
  shows "(\<exists>x. read_request fw cd params = Inr x) \<longleftrightarrow> request_typed cd user_ops opts"
proof -
  have "(\<exists>x. read_request fw cd params = Inr x) \<longleftrightarrow>
      (\<exists>ops. de_vec (user_op_from_json cd) user_ops = Inr ops) \<and> (\<exists>o'. build_opts_from_json cd opts = Inr o')"
    using assms by (cases "de_vec (user_op_from_json cd) user_ops"; cases "build_opts_from_json cd opts")
      (simp_all add: read_request_def)
  moreover have "(\<exists>ops. de_vec (user_op_from_json cd) user_ops = Inr ops) \<longleftrightarrow>
      (case user_ops of JArr js \<Rightarrow> list_all (well_typed cd user_op_schema user_op_mandatory) js | _ \<Rightarrow> False)"
    by (simp add: de_vec_def de_list_Inr_iff user_op_typed list_all_iff split: json.split)
  ultimately show ?thesis by (simp add: request_typed_def build_opts_typed)
qed

section \<open>One request in the pool\<close>

text \<open>What a response owes to the operations and options of its request.\<close>

definition answers :: "UserOpV07 list \<Rightarrow> BuildOpts \<Rightarrow> SignedTxResp \<Rightarrow> bool" where
  "answers ops opts resp \<longleftrightarrow>
     resp_chain_id resp = opts_chain_id opts
     \<and> fees_within ops (resp_max_fee_per_gas resp) (resp_max_priority_fee_per_gas resp)"

lemma outcomes_conj: "outcomes P t \<Longrightarrow> outcomes Q t \<Longrightarrow> outcomes (\<lambda>r. P r \<and> Q r) t"
proof (induction rule: outcomes.induct)
  case (o_await f)
  then show ?case by simp blast
qed auto

lemma yields_chain: "yields (\<lambda>resp. resp_chain_id resp = opts_chain_id opts) (build_task ext b ops opts)"
proof (cases "opts_chain_id opts = cfg_chain_id (bd_cfg b)")
  case True
  have receipt: "yields (\<lambda>_. True) (await_receipt_task ext b pr hash)" for pr hash
    by (auto simp: await_receipt_task_def Let_def intro!: yields_any yields_tcall split: option.split)
  have sign: "yields (\<lambda>_. True) (sign_task b pr nonce)" for pr nonce
    by (auto simp: sign_task_def intro!: yields_any yields_tcall)
  have "yields (\<lambda>resp. resp_chain_id resp = opts_chain_id opts) (finish_task ext b opts pr)" for pr
    using True
    by (auto simp: finish_task_def send_task_def Let_def response_def intro!: yields_any yields_tcall receipt sign)
  then show ?thesis unfolding build_task_def by (rule yields_tbind [OF yields_prepare])
next
  case False
  then show ?thesis by (simp add: build_task_def prepare_task_def check_request_def tlift_def tfail_def)
qed

lemma yields_answer: "yields (answers ops opts) (build_task ext b ops opts)"
  by (rule outcomes_mono [OF outcomes_conj [OF yields_chain yields_build]])
     (auto simp: answers_def result_def split: flow.splits)

text \<open>The stages of one request.\<close>

definition stage :: "UserOpV07 list \<Rightarrow> BuildOpts \<Rightarrow> 'w job \<Rightarrow> bool" where
  "stage ops opts j = (case j of
       Queued ops' opts' \<Rightarrow> ops' = ops \<and> opts' = opts
     | Running t \<Rightarrow> yields (answers ops opts) t
     | Finished r \<Rightarrow> result (answers ops opts) r)"

lemma stage_simps [simp]:
  "stage ops opts (Queued ops' opts') \<longleftrightarrow> ops' = ops \<and> opts' = opts"
  "stage ops opts (Running t) = yields (answers ops opts) t"
  "stage ops opts (Finished r) = result (answers ops opts) r"
  by (simp_all add: stage_def)

lemma stage_step:
  assumes "i < length (pl_jobs p) \<and> stage ops opts (pl_jobs p ! i)" and "pool_step ext b env p p'"
  shows "i < length (pl_jobs p') \<and> stage ops opts (pl_jobs p' ! i)"
  using assms(2)
proof cases
  case (start k ops' opts')
  with assms(1) show ?thesis using yields_answer by (auto simp: nth_list_update)
next
  case (answer k f t w')
  with assms(1) show ?thesis by (cases "k = i") auto
next
  case (lock k t)
  with assms(1) show ?thesis by (cases "k = i") auto
next
  case (unlock k t)
  with assms(1) show ?thesis by (cases "k = i") auto
next
  case (finish k r)
  with assms(1) show ?thesis by (cases "k = i") auto
qed (use assms(1) in \<open>auto simp: nth_append nth_list_update\<close>)

interpretation staged: step_invariant "pool_step ext b env"
    "\<lambda>p. i < length (pl_jobs p) \<and> pl_jobs p ! i = Queued ops opts"
    "\<lambda>p. i < length (pl_jobs p) \<and> stage ops opts (pl_jobs p ! i)"
  for ext :: "'w externals" and b env i ops opts
proof (unfold_locales, goal_cases)
  case (1 p)
  then show ?case by simp
next
  case (2 p p')
  then show ?case by (rule stage_step)
qed

section \<open>Properties\<close>

text \<open>
  C10. From the wire to the wire: a client's parameters are read as exactly the operations and options
  it serialised, given the documented round trip of the codecs and parameters by position; and
  whenever the request that was read ends, in whatever pool it arrived and however the pool went on,
  shutdown or not, it is answered for what was sent: the reply is a document from which
  the client reads back a response on the chain it asked for with fees within the limits of each
  operation it sent, or an error object with a declared code, the rendered error and a reason.
\<close>

theorem wire_request_is_served:
  assumes "faithful cd" and "positional fw"
    and "(pool_step ext b env)\<^sup>*\<^sup>* (p\<lparr>pl_jobs := pl_jobs p @ [Queued ops opts]\<rparr>) p'"
    and "pl_jobs p' ! length (pl_jobs p) = Finished r"
  shows "read_request fw cd (client_params cd ops opts) = Inr (ops, opts)
    \<and> ((\<exists>resp doc. r = Done resp \<and> write_reply cd fm r = Some (Inr doc) \<and> signed_tx_resp_from_json cd doc = Inr resp
            \<and> resp_chain_id resp = opts_chain_id opts
            \<and> (\<forall>op \<in> set ops. resp_max_fee_per_gas resp \<le> op_max_fee_per_gas op
                  \<and> resp_max_priority_fee_per_gas resp \<le> op_max_priority_fee_per_gas op))
       \<or> (\<exists>e obj data reason. r = Fail e \<and> write_reply cd fm r = Some (Inl obj)
            \<and> eo_code obj \<in> {-32602, -32603, -32500, -32501, -32503, -32521}
            \<and> eo_message obj = display_BundlerError fm e
            \<and> eo_data obj = Some data \<and> json_get data ''reason'' = Some (JStr reason)))"
proof -
  note read = client_request_read [OF assms(1,2), of ops opts]
  have "result (answers ops opts) r"
    using staged.always [OF _ assms(3), of "length (pl_jobs p)" ops opts] assms(4) by simp
  then consider resp where "r = Done resp" "answers ops opts resp" | e where "r = Fail e" by (cases r) auto
  then show ?thesis
  proof cases
    case 1
    have "write_reply cd fm r = Some (Inr (signed_tx_resp_to_json cd resp))"
      by (simp add: 1 write_reply_def rpc_reply_def)
    with 1 read signed_tx_resp_roundtrip [OF assms(1)] show ?thesis by (auto simp: answers_def fees_within_def)
  next
    case 2
    obtain obj data reason where "rpc_reply fm r = Some (Inl obj)"
      and "eo_code obj \<in> {-32602, -32603, -32500, -32501, -32503, -32521}" "eo_message obj = display_BundlerError fm e"
      and "eo_data obj = Some data" "json_get data ''reason'' = Some (JStr reason)"
      using error_reply [of fm e] 2 by blast
    with 2 read show ?thesis by (auto simp: write_reply_def)
  qed
qed

definition demo_framework :: rpc_framework where
  "demo_framework =
     \<lparr> fw_two_params = (\<lambda>j. case j of JArr [a, b] \<Rightarrow> Some (a, b) | _ \<Rightarrow> None),
       fw_invalid_params = (\<lambda>_. \<lparr> eo_code = -32602, eo_message = ''Invalid params'', eo_data = None \<rparr>) \<rparr>"

lemma demo_positional: "positional demo_framework"
  by (simp add: positional_def demo_framework_def)

theorem wire_request_is_served_witness:
  "read_request demo_framework numeric_codecs (client_params numeric_codecs [happy_op] (demo_opts True))
      = Inr ([happy_op], demo_opts True)
   \<and> (\<exists>doc. write_reply numeric_codecs demo_formats (Done (demo_resp 7)) = Some (Inr doc)
        \<and> signed_tx_resp_from_json numeric_codecs doc = Inr (demo_resp 7))"
proof -
  let ?idle = "idle_pool default_mock"
  let ?p = "?idle\<lparr>pl_jobs := pl_jobs ?idle @ [Queued [happy_op] (demo_opts True)]\<rparr>"
  have built: "build_inner demo_externals strict_bundler [happy_op] (demo_opts True) default_mock
      = Some (Done (demo_resp 7), strict_after default_mock)"
    using build_strict [of default_mock] by (simp add: TEST_NONCE_def)
  have run: "(pool_step demo_externals strict_bundler (\<lambda>_ _. False))\<^sup>*\<^sup>* ?p
      (?p\<lparr>pl_world := strict_after default_mock, pl_jobs := (pl_jobs ?p)[0 := Finished (Done (demo_resp 7))]\<rparr>)"
    by (rule queued_job_runs) (use built in \<open>simp_all add: idle_pool_def\<close>)
  from wire_request_is_served [OF numeric_codecs_faithful demo_positional run, of "Done (demo_resp 7)" demo_formats]
  show ?thesis by (auto simp: idle_pool_def)
qed

text \<open>
  A request that is not well typed is answered by the framework and never reaches the pipeline.
\<close>

lemma ill_typed_request_refused:
  assumes "positional fw" and "\<not> request_typed cd user_ops opts"
  shows "\<exists>e. read_request fw cd (JArr [user_ops, opts]) = Inl (fw_invalid_params fw (Some e))"
proof -
  have two: "fw_two_params fw (JArr [user_ops, opts]) = Some (user_ops, opts)" using assms(1) by (simp add: positional_def)
  with request_read_iff [OF two, of cd] assms(2) show ?thesis
    by (cases "rbind (de_vec (user_op_from_json cd) user_ops) (\<lambda>ops. rbind (build_opts_from_json cd opts) (\<lambda>o'. Inr (ops, o')))")
       (auto simp: read_request_def)
qed

end
