(* ===== verification/Contracts.thy ===== *)
theory Contracts
  imports Errors
begin

text \<open>
  The Solidity declarations of \<open>crates/bundler/src/contracts.rs\<close>: the struct types, the functions
  and the custom errors of the two interfaces, with the signatures from which their selectors are
  computed.  The records of \<open>Wire_Types\<close> are related to the struct types: a Solidity value has a
  declared type exactly when it is the image of a record.  Keccak-256 and the byte encoding of
  values belong to alloy; the hash is an argument.
\<close>

section \<open>Types and values\<close>

datatype sol_type =
    TAddress
  | TUint256
  | TBytes
  | TBytes32
  | TString
  | TArray sol_type
  | TStruct "sol_type list"

datatype sol_value =
    VAddress address
  | VUint256 u256
  | VBytes bytes
  | VBytes32 b256
  | VString string
  | VArray "sol_value list"
  | VStruct "sol_value list"

fun sol_typed :: "sol_value \<Rightarrow> sol_type \<Rightarrow> bool" where
  "sol_typed (VAddress _) TAddress = True"
| "sol_typed (VUint256 _) TUint256 = True"
| "sol_typed (VBytes _) TBytes = True"
| "sol_typed (VBytes32 _) TBytes32 = True"
| "sol_typed (VString _) TString = True"
| "sol_typed (VArray vs) (TArray t) = (\<forall>v \<in> set vs. sol_typed v t)"
| "sol_typed (VStruct vs) (TStruct ts) = list_all2 sol_typed vs ts"
| "sol_typed _ _ = False"

text \<open>The canonical name of a type, as it enters a signature: a struct is the tuple of its members.\<close>

fun joined :: "string list \<Rightarrow> string" where
  "joined [] = ''''"
| "joined [x] = x"
| "joined (x # y # xs) = x @ '','' @ joined (y # xs)"

fun sol_name :: "sol_type \<Rightarrow> string" where
  "sol_name TAddress = ''address''"
| "sol_name TUint256 = ''uint256''"
| "sol_name TBytes = ''bytes''"
| "sol_name TBytes32 = ''bytes32''"
| "sol_name TString = ''string''"
| "sol_name (TArray t) = sol_name t @ ''[]''"
| "sol_name (TStruct ts) = ''('' @ joined (map sol_name ts) @ '')''"

section \<open>Structs\<close>

type_synonym sol_struct = "(string \<times> sol_type) list"

definition struct_type :: "sol_struct \<Rightarrow> sol_type" where
  "struct_type members = TStruct (map snd members)"

definition PackedUserOperation_members :: sol_struct where
  "PackedUserOperation_members =
     [(''sender'', TAddress), (''nonce'', TUint256), (''initCode'', TBytes), (''callData'', TBytes),
      (''accountGasLimits'', TBytes32), (''preVerificationGas'', TUint256), (''gasFees'', TBytes32),
      (''paymasterAndData'', TBytes), (''signature'', TBytes)]"

definition ReturnInfo_members :: sol_struct where
  "ReturnInfo_members =
     [(''preOpGas'', TUint256), (''prefund'', TUint256), (''accountValidationData'', TUint256),
      (''paymasterValidationData'', TUint256), (''paymasterContext'', TBytes)]"

definition StakeInfo_members :: sol_struct where
  "StakeInfo_members = [(''stake'', TUint256), (''unstakeDelay'', TUint256)]"

definition AggregatorStakeInfo_members :: sol_struct where
  "AggregatorStakeInfo_members = [(''aggregator'', TAddress), (''stakeInfo'', struct_type StakeInfo_members)]"

definition ValidationResult_members :: sol_struct where
  "ValidationResult_members =
     [(''returnInfo'', struct_type ReturnInfo_members), (''senderInfo'', struct_type StakeInfo_members),
      (''factoryInfo'', struct_type StakeInfo_members), (''paymasterInfo'', struct_type StakeInfo_members),
      (''aggregatorInfo'', struct_type AggregatorStakeInfo_members)]"

lemmas members_defs = PackedUserOperation_members_def ReturnInfo_members_def StakeInfo_members_def
  AggregatorStakeInfo_members_def ValidationResult_members_def struct_type_def

section \<open>Interfaces\<close>

record sol_item =
  it_name :: string
  it_inputs :: sol_struct
  it_outputs :: "sol_type list"

definition signature :: "sol_item \<Rightarrow> string" where
  "signature it = it_name it @ sol_name (struct_type (it_inputs it))"

definition selector :: "(string \<Rightarrow> bytes) \<Rightarrow> sol_item \<Rightarrow> bytes" where
  "selector keccak it = take 4 (keccak (signature it))"

definition balanceOf :: sol_item where
  "balanceOf = \<lparr> it_name = ''balanceOf'', it_inputs = [(''account'', TAddress)], it_outputs = [TUint256] \<rparr>"

definition getUserOpHash :: sol_item where
  "getUserOpHash = \<lparr> it_name = ''getUserOpHash'',
     it_inputs = [(''userOp'', struct_type PackedUserOperation_members)], it_outputs = [TBytes32] \<rparr>"

definition handleOps :: sol_item where
  "handleOps = \<lparr> it_name = ''handleOps'',
     it_inputs = [(''ops'', TArray (struct_type PackedUserOperation_members)), (''beneficiary'', TAddress)],
     it_outputs = [] \<rparr>"

definition FailedOp_error :: sol_item where
  "FailedOp_error = \<lparr> it_name = ''FailedOp'', it_inputs = [(''opIndex'', TUint256), (''reason'', TString)],
     it_outputs = [] \<rparr>"

definition FailedOpWithRevert_error :: sol_item where
  "FailedOpWithRevert_error = \<lparr> it_name = ''FailedOpWithRevert'',
     it_inputs = [(''opIndex'', TUint256), (''reason'', TString), (''inner'', TBytes)], it_outputs = [] \<rparr>"

definition SignatureValidationFailed_error :: sol_item where
  "SignatureValidationFailed_error = \<lparr> it_name = ''SignatureValidationFailed'',
     it_inputs = [(''aggregator'', TAddress)], it_outputs = [] \<rparr>"

definition PostOpReverted_error :: sol_item where
  "PostOpReverted_error = \<lparr> it_name = ''PostOpReverted'', it_inputs = [(''returnData'', TBytes)], it_outputs = [] \<rparr>"

definition IEntryPoint :: "sol_item list" where
  "IEntryPoint = [balanceOf, getUserOpHash, handleOps]"

definition IEntryPoint_errors :: "sol_item list" where
  "IEntryPoint_errors = [FailedOp_error, FailedOpWithRevert_error, SignatureValidationFailed_error, PostOpReverted_error]"

definition simulateValidation :: sol_item where
  "simulateValidation = \<lparr> it_name = ''simulateValidation'',
     it_inputs = [(''userOp'', struct_type PackedUserOperation_members)],
     it_outputs = [struct_type ValidationResult_members] \<rparr>"

lemmas interface_defs = balanceOf_def getUserOpHash_def handleOps_def FailedOp_error_def FailedOpWithRevert_error_def
  SignatureValidationFailed_error_def PostOpReverted_error_def simulateValidation_def

section \<open>Records as Solidity values\<close>

definition packed_value :: "PackedUserOperation \<Rightarrow> sol_value" where
  "packed_value p = VStruct
     [VAddress (pk_sender p), VUint256 (pk_nonce p), VBytes (pk_initCode p), VBytes (pk_callData p),
      VBytes32 (pk_accountGasLimits p), VUint256 (pk_preVerificationGas p), VBytes32 (pk_gasFees p),
      VBytes (pk_paymasterAndData p), VBytes (pk_signature p)]"

definition handleOps_value :: "handleOpsCall \<Rightarrow> sol_value" where
  "handleOps_value c = VStruct [VArray (map packed_value (ho_ops c)), VAddress (ho_beneficiary c)]"

definition return_info_value :: "ReturnInfo \<Rightarrow> sol_value" where
  "return_info_value r = VStruct
     [VUint256 (ri_preOpGas r), VUint256 (ri_prefund r), VUint256 (ri_accountValidationData r),
      VUint256 (ri_paymasterValidationData r), VBytes (ri_paymasterContext r)]"

definition stake_info_value :: "StakeInfo \<Rightarrow> sol_value" where
  "stake_info_value s = VStruct [VUint256 (si_stake s), VUint256 (si_unstakeDelay s)]"

definition aggregator_stake_info_value :: "AggregatorStakeInfo \<Rightarrow> sol_value" where
  "aggregator_stake_info_value a = VStruct [VAddress (asi_aggregator a), stake_info_value (asi_stakeInfo a)]"

definition validation_result_value :: "ValidationResult \<Rightarrow> sol_value" where
  "validation_result_value v = VStruct
     [return_info_value (vr_returnInfo v), stake_info_value (vr_senderInfo v), stake_info_value (vr_factoryInfo v),
      stake_info_value (vr_paymasterInfo v), aggregator_stake_info_value (vr_aggregatorInfo v)]"

lemma typed_cases:
  "sol_typed v TAddress \<longleftrightarrow> (\<exists>a. v = VAddress a)"
  "sol_typed v TUint256 \<longleftrightarrow> (\<exists>n. v = VUint256 n)"
  "sol_typed v TBytes \<longleftrightarrow> (\<exists>b. v = VBytes b)"
  "sol_typed v TBytes32 \<longleftrightarrow> (\<exists>h. v = VBytes32 h)"
  "sol_typed v TString \<longleftrightarrow> (\<exists>s. v = VString s)"
  "sol_typed v (TArray t) \<longleftrightarrow> (\<exists>vs. v = VArray vs \<and> (\<forall>x \<in> set vs. sol_typed x t))"
  "sol_typed v (TStruct ts) \<longleftrightarrow> (\<exists>vs. v = VStruct vs \<and> list_all2 sol_typed vs ts)"
  by (cases v; simp)+

lemma packed_typed: "sol_typed v (struct_type PackedUserOperation_members) \<longleftrightarrow> (\<exists>p. v = packed_value p)"
proof
  assume "sol_typed v (struct_type PackedUserOperation_members)"
  then obtain a n ic cd gl pv gf pd sg where "v = VStruct [VAddress a, VUint256 n, VBytes ic, VBytes cd, VBytes32 gl,
      VUint256 pv, VBytes32 gf, VBytes pd, VBytes sg]"
    by (auto simp: members_defs typed_cases list_all2_Cons2)
  then have "v = packed_value \<lparr> pk_sender = a, pk_nonce = n, pk_initCode = ic, pk_callData = cd,
      pk_accountGasLimits = gl, pk_preVerificationGas = pv, pk_gasFees = gf, pk_paymasterAndData = pd, pk_signature = sg \<rparr>"
    by (simp add: packed_value_def)
  then show "\<exists>p. v = packed_value p" by blast
qed (auto simp: members_defs packed_value_def)

lemma packed_inject: "packed_value p = packed_value q \<longleftrightarrow> p = q"
  by (auto simp: packed_value_def intro: PackedUserOperation.equality)

lemma return_info_typed: "sol_typed v (struct_type ReturnInfo_members) \<longleftrightarrow> (\<exists>r. v = return_info_value r)"
proof
  assume "sol_typed v (struct_type ReturnInfo_members)"
  then obtain g f a pm c where "v = VStruct [VUint256 g, VUint256 f, VUint256 a, VUint256 pm, VBytes c]"
    by (auto simp: members_defs typed_cases list_all2_Cons2)
  then have "v = return_info_value \<lparr> ri_preOpGas = g, ri_prefund = f, ri_accountValidationData = a,
      ri_paymasterValidationData = pm, ri_paymasterContext = c \<rparr>"
    by (simp add: return_info_value_def)
  then show "\<exists>r. v = return_info_value r" by blast
qed (auto simp: members_defs return_info_value_def)

lemma stake_info_typed: "sol_typed v (struct_type StakeInfo_members) \<longleftrightarrow> (\<exists>s. v = stake_info_value s)"
proof
  assume "sol_typed v (struct_type StakeInfo_members)"
  then obtain a d where "v = VStruct [VUint256 a, VUint256 d]" by (auto simp: members_defs typed_cases list_all2_Cons2)
  then have "v = stake_info_value \<lparr> si_stake = a, si_unstakeDelay = d \<rparr>" by (simp add: stake_info_value_def)
  then show "\<exists>s. v = stake_info_value s" by blast
qed (auto simp: members_defs stake_info_value_def)

text \<open>A struct of structs, member by member.\<close>

lemma struct_typed:
  "sol_typed v (struct_type ms) \<longleftrightarrow> (\<exists>vs. v = VStruct vs \<and> list_all2 sol_typed vs (map snd ms))"
  by (simp add: struct_type_def typed_cases)

lemma aggregator_typed:
  "sol_typed v (struct_type AggregatorStakeInfo_members) \<longleftrightarrow> (\<exists>a. v = aggregator_stake_info_value a)"
proof
  assume "sol_typed v (struct_type AggregatorStakeInfo_members)"
  then obtain a s where "v = VStruct [VAddress a, stake_info_value s]"
    by (auto simp: struct_typed [of v] AggregatorStakeInfo_members_def typed_cases(1) stake_info_typed list_all2_Cons2)
  then have "v = aggregator_stake_info_value \<lparr> asi_aggregator = a, asi_stakeInfo = s \<rparr>"
    by (simp add: aggregator_stake_info_value_def)
  then show "\<exists>a. v = aggregator_stake_info_value a" by blast
qed (auto simp: struct_typed AggregatorStakeInfo_members_def aggregator_stake_info_value_def stake_info_value_def
      StakeInfo_members_def)

lemma validation_result_typed:
  "sol_typed v (struct_type ValidationResult_members) \<longleftrightarrow> (\<exists>r. v = validation_result_value r)"
proof
  assume "sol_typed v (struct_type ValidationResult_members)"
  then obtain r s f pm a where "v = VStruct [return_info_value r, stake_info_value s, stake_info_value f,
      stake_info_value pm, aggregator_stake_info_value a]"
    by (auto simp: struct_typed [of v] ValidationResult_members_def return_info_typed stake_info_typed aggregator_typed
        list_all2_Cons2)
  then have "v = validation_result_value \<lparr> vr_returnInfo = r, vr_senderInfo = s, vr_factoryInfo = f,
      vr_paymasterInfo = pm, vr_aggregatorInfo = a \<rparr>"
    by (simp add: validation_result_value_def)
  then show "\<exists>r. v = validation_result_value r" by blast
next
  assume "\<exists>r. v = validation_result_value r"
  then obtain r where "v = validation_result_value r" by blast
  then show "sol_typed v (struct_type ValidationResult_members)"
    unfolding struct_typed [of v] ValidationResult_members_def
    using return_info_typed stake_info_typed aggregator_typed by (auto simp: validation_result_value_def)
qed

lemma handleOps_typed: "sol_typed v (struct_type (it_inputs handleOps)) \<longleftrightarrow> (\<exists>c. v = handleOps_value c)"
proof
  assume "sol_typed v (struct_type (it_inputs handleOps))"
  then obtain vs a where v: "v = VStruct [VArray vs, VAddress a]"
    and vs: "\<forall>x \<in> set vs. sol_typed x (struct_type PackedUserOperation_members)"
    by (auto simp: struct_typed [of v] handleOps_def typed_cases(1,6) list_all2_Cons2)
  from vs obtain ps where "vs = map packed_value ps" by (auto simp: packed_typed) (metis ex_map_conv)
  with v have "v = handleOps_value \<lparr> ho_ops = ps, ho_beneficiary = a \<rparr>" by (simp add: handleOps_value_def)
  then show "\<exists>c. v = handleOps_value c" by blast
next
  assume "\<exists>c. v = handleOps_value c"
  then show "sol_typed v (struct_type (it_inputs handleOps))"
    using packed_typed by (auto simp: struct_typed [of v] handleOps_def handleOps_value_def)
qed

lemma handleOps_inject: "handleOps_value c = handleOps_value d \<longleftrightarrow> c = d"
  by (auto simp: handleOps_value_def inj_map_eq_map inj_def packed_inject intro: handleOpsCall.equality)

lemma validation_result_inject: "validation_result_value r = validation_result_value s \<longleftrightarrow> r = s"
  by (auto simp: validation_result_value_def return_info_value_def stake_info_value_def aggregator_stake_info_value_def
      intro!: ValidationResult.equality ReturnInfo.equality StakeInfo.equality AggregatorStakeInfo.equality)

section \<open>Signatures\<close>

definition packed_tuple :: string where
  "packed_tuple = ''(address,uint256,bytes,bytes,bytes32,uint256,bytes32,bytes,bytes)''"

lemma signatures:
  "signature balanceOf = ''balanceOf(address)''"
  "signature getUserOpHash = ''getUserOpHash('' @ packed_tuple @ '')''"
  "signature handleOps = ''handleOps('' @ packed_tuple @ ''[],address)''"
  "signature simulateValidation = ''simulateValidation('' @ packed_tuple @ '')''"
  "signature FailedOp_error = ''FailedOp(uint256,string)''"
  "signature FailedOpWithRevert_error = ''FailedOpWithRevert(uint256,string,bytes)''"
  "signature SignatureValidationFailed_error = ''SignatureValidationFailed(address)''"
  "signature PostOpReverted_error = ''PostOpReverted(bytes)''"
  by (simp_all add: signature_def interface_defs members_defs packed_tuple_def)

text \<open>The selectors that the decoder of reverts compares with.\<close>

definition declared_selectors :: "(string \<Rightarrow> bytes) \<Rightarrow> abi_errors \<Rightarrow> bool" where
  "declared_selectors keccak abi \<longleftrightarrow>
     [sel_FailedOp abi, sel_FailedOpWithRevert abi, sel_SignatureValidationFailed abi, sel_PostOpReverted abi]
       = map (selector keccak) IEntryPoint_errors"

lemma declared_selector_strings:
  assumes "declared_selectors keccak abi"
  shows "sel_FailedOp abi = take 4 (keccak ''FailedOp(uint256,string)'')"
    and "sel_FailedOpWithRevert abi = take 4 (keccak ''FailedOpWithRevert(uint256,string,bytes)'')"
    and "sel_SignatureValidationFailed abi = take 4 (keccak ''SignatureValidationFailed(address)'')"
    and "sel_PostOpReverted abi = take 4 (keccak ''PostOpReverted(bytes)'')"
  using assms by (simp_all add: declared_selectors_def IEntryPoint_errors_def selector_def signatures)

section \<open>Properties\<close>

text \<open>
  The records of the program are the Solidity types of the contracts: a Solidity value has the
  type of a \<open>PackedUserOperation\<close>, of the arguments of \<open>handleOps\<close> or of a \<open>ValidationResult\<close>
  exactly when it is the value of a record, and of only one; and the four calls and four errors
  have the canonical signatures of the v0.7 EntryPoint, all different.
\<close>

lemma contract_types_match:
  "(sol_typed v (struct_type PackedUserOperation_members) \<longleftrightarrow> (\<exists>!p. v = packed_value p))
   \<and> (sol_typed v (struct_type (it_inputs handleOps)) \<longleftrightarrow> (\<exists>!c. v = handleOps_value c))
   \<and> (sol_typed v (struct_type ValidationResult_members) \<longleftrightarrow> (\<exists>!r. v = validation_result_value r))
   \<and> map signature (IEntryPoint @ [simulateValidation]) =
       [''balanceOf(address)'', ''getUserOpHash('' @ packed_tuple @ '')'',
        ''handleOps('' @ packed_tuple @ ''[],address)'', ''simulateValidation('' @ packed_tuple @ '')'']
   \<and> map signature IEntryPoint_errors =
       [''FailedOp(uint256,string)'', ''FailedOpWithRevert(uint256,string,bytes)'',
        ''SignatureValidationFailed(address)'', ''PostOpReverted(bytes)'']
   \<and> distinct (map signature (IEntryPoint @ [simulateValidation] @ IEntryPoint_errors))"
proof (intro conjI)
  show "sol_typed v (struct_type PackedUserOperation_members) \<longleftrightarrow> (\<exists>!p. v = packed_value p)"
    unfolding packed_typed by (auto simp: packed_inject)
  show "sol_typed v (struct_type (it_inputs handleOps)) \<longleftrightarrow> (\<exists>!c. v = handleOps_value c)"
    unfolding handleOps_typed by (auto simp: handleOps_inject)
  show "sol_typed v (struct_type ValidationResult_members) \<longleftrightarrow> (\<exists>!r. v = validation_result_value r)"
    unfolding validation_result_typed by (auto simp: validation_result_inject)
qed (simp_all add: IEntryPoint_def IEntryPoint_errors_def signatures)

end
