(* ===== verification/Unit_Tests.thy ===== *)
theory Unit_Tests
  imports Service
begin

text \<open>
  The unit tests inside \<open>packing.rs\<close>, \<open>validator.rs\<close>, \<open>errors.rs\<close> and \<open>discovery.rs\<close>, translated
  to the model: each test is a truth value, an \<open>unwrap\<close> that would panic makes it false.  The lemmas
  show that the model passes the tests the program passes.  The ABI encodings that two of the tests
  build with alloy are an argument, with what the encoding of that error decodes to as hypothesis.
\<close>

definition unwraps :: "'e + 'a \<Rightarrow> ('a \<Rightarrow> bool) \<Rightarrow> bool" where
  "unwraps r test = (case r of Inr x \<Rightarrow> test x | Inl _ \<Rightarrow> False)"

definition unwraps_err :: "'e + 'a \<Rightarrow> ('e \<Rightarrow> bool) \<Rightarrow> bool" where
  "unwraps_err r test = (case r of Inl e \<Rightarrow> test e | Inr _ \<Rightarrow> False)"

lemma unwraps_simps [simp]:
  "unwraps (Inr x) test = test x" "unwraps (Inl e) test = False"
  "unwraps_err (Inl e) test' = test' e" "unwraps_err (Inr x) test' = False"
  by (simp_all add: unwraps_def unwraps_err_def)

section \<open>packing.rs\<close>

definition pack_pair_zero :: bool where
  "pack_pair_zero = unwraps (pack_pair_to_bytes32 0 0 ''x'') (\<lambda>out. out = 0)"

definition pack_pair_canonical :: bool where
  "pack_pair_canonical = unwraps (pack_pair_to_bytes32 1 2 ''x'')
     (\<lambda>out. out = 0x0000000000000000000000000000000100000000000000000000000000000002)"

definition pack_pair_max_uint128 :: bool where
  "pack_pair_max_uint128 =
     (let m = push_bit 128 1 - 1 in
      unwraps (pack_pair_to_bytes32 m m ''x'')
        (\<lambda>out. out = 0xffffffffffffffffffffffffffffffffffffffffffffffffffffffffffffffff))"

definition pack_pair_overflow :: bool where
  "pack_pair_overflow =
     (let overflow = push_bit 128 1 in
      unwraps_err (pack_pair_to_bytes32 overflow 0 ''gasFees'') (\<lambda>err. err = Overflow ''gasFees''))"

definition pack_no_factory_no_paymaster :: bool where
  "pack_no_factory_no_paymaster =
     unwraps (pack base_op) (\<lambda>p. pk_initCode p = [] \<and> pk_paymasterAndData p = []
       \<and> pk_callData p = [0xaa, 0xbb] \<and> pk_signature p = [0xcc])"

definition pack_with_factory_and_data :: bool where
  "pack_with_factory_and_data =
     (let op = base_op\<lparr> op_factory := Some 0x0202020202020202020202020202020202020202,
                        op_factory_data := [0xde, 0xad, 0xbe, 0xef] \<rparr> in
      unwraps (pack op) (\<lambda>p. pk_initCode p =
        [2, 2, 2, 2, 2, 2, 2, 2, 2, 2, 2, 2, 2, 2, 2, 2, 2, 2, 2, 2, 0xde, 0xad, 0xbe, 0xef]))"

definition pack_prefers_explicit_init_code :: bool where
  "pack_prefers_explicit_init_code =
     (let op = base_op\<lparr> op_factory := Some 0x0202020202020202020202020202020202020202,
                        op_factory_data := [0xde, 0xad, 0xbe, 0xef], op_init_code := [0xca, 0xfe] \<rparr> in
      unwraps (pack op) (\<lambda>p. pk_initCode p = [0xca, 0xfe]))"

definition pack_with_paymaster_unpacked :: bool where
  "pack_with_paymaster_unpacked =
     (let op = base_op\<lparr> op_paymaster := Some 0x0303030303030303030303030303030303030303,
                        op_paymaster_verification_gas_limit := 50000, op_paymaster_post_op_gas_limit := 20000,
                        op_paymaster_data := [0xf0, 0x0d] \<rparr> in
      unwraps (pack op) (\<lambda>p.
        length (pk_paymasterAndData p) = PAYMASTER_HEADER_LEN + 2
        \<and> unwraps (parse_paymaster_and_data (pk_paymasterAndData p)) (\<lambda>parsed.
            parsed = Some (0x0303030303030303030303030303030303030303, 50000, 20000))
        \<and> drop PAYMASTER_HEADER_LEN (pk_paymasterAndData p) = [0xf0, 0x0d]))"

definition parse_paymaster_empty_is_none :: bool where
  "parse_paymaster_empty_is_none = unwraps (parse_paymaster_and_data []) (\<lambda>parsed. parsed = None)"

definition parse_paymaster_too_short_errors :: bool where
  "parse_paymaster_too_short_errors =
     unwraps_err (parse_paymaster_and_data (replicate 30 0)) (\<lambda>err. err = PaymasterAndDataTooShort 30)"

definition pack_gas_fees_layout :: bool where
  "pack_gas_fees_layout =
     (let op = base_op\<lparr> op_max_priority_fee_per_gas := 0xAA, op_max_fee_per_gas := 0xBB \<rparr> in
      unwraps (pack op) (\<lambda>p. pk_gasFees p = 0x000000000000000000000000000000aa000000000000000000000000000000bb))"

section \<open>validator.rs\<close>

definition make :: "u64 \<Rightarrow> u64 \<Rightarrow> u64 \<Rightarrow> u256" where
  "make aggregator valid_until valid_after =
     (ucast aggregator OR push_bit 160 (ucast valid_until)) OR push_bit (160 + 48) (ucast valid_after)"

definition parse_window_success :: bool where
  "parse_window_success =
     (let w = parse_window (make 0 1000 100) in
      vw_aggregator w = 0 \<and> \<not> signature_failed w \<and> vw_valid_after w = 100 \<and> vw_valid_until w = 1000
      \<and> is_out_of_time_range w 50 \<and> \<not> is_out_of_time_range w 500 \<and> is_out_of_time_range w 2000)"

definition parse_window_signature_failed :: bool where
  "parse_window_signature_failed =
     (let w = parse_window (make 1 0 0) in signature_failed w \<and> \<not> requires_aggregator w)"

definition parse_window_zero_is_success_no_expiry :: bool where
  "parse_window_zero_is_success_no_expiry =
     (let w = parse_window 0 in
      vw_aggregator w = 0 \<and> \<not> signature_failed w \<and> vw_valid_after w = 0 \<and> vw_valid_until w = UINT48_MAX
      \<and> \<not> is_out_of_time_range w UINT48_MAX \<and> is_out_of_time_range w (UINT48_MAX + 1))"

definition parse_window_aggregator :: bool where
  "parse_window_aggregator =
     (let agg = 0x00000000000000000000000000000000000000aa;
          data = 0 OR be_word (replicate 12 0 @ be_bytes 20 agg);
          w = parse_window data in
      vw_aggregator w = agg \<and> requires_aggregator w)"

section \<open>errors.rs\<close>

definition decodes_failed_op :: "abi_errors \<Rightarrow> bytes \<Rightarrow> bool" where
  "decodes_failed_op abi encoded =
     (case decode_handle_ops_revert abi encoded of
        FailedOp op_index reason \<Rightarrow> op_index = 2 \<and> reason = ''AA21 didn't pay prefund''
      | _ \<Rightarrow> False)"

definition decodes_signature_validation_failed :: "abi_errors \<Rightarrow> bytes \<Rightarrow> bool" where
  "decodes_signature_validation_failed abi encoded =
     (let agg = 0x0000000000000000000000000000000000000aaa in
      case decode_handle_ops_revert abi encoded of
        SignatureValidationFailed aggregator \<Rightarrow> aggregator = agg
      | _ \<Rightarrow> False)"

definition decodes_standard_error_string :: "abi_errors \<Rightarrow> bytes \<Rightarrow> bool" where
  "decodes_standard_error_string abi boom =
     (let encoded = ERROR_STRING_SELECTOR @ boom in
      case decode_handle_ops_revert abi encoded of StandardError s \<Rightarrow> s = ''boom'' | _ \<Rightarrow> False)"

definition paymaster_aa3_routes_to_paymaster_code :: "formats \<Rightarrow> bool" where
  "paymaster_aa3_routes_to_paymaster_code fm =
     (let r = FailedOp 0 ''AA31 paymaster deposit too low''; (code, _) = classify_revert fm r in
      code = PAYMASTER_REJECTED)"

definition unknown_selector_falls_through :: "abi_errors \<Rightarrow> bool" where
  "unknown_selector_falls_through abi =
     (let raw = [0xde, 0xad, 0xbe, 0xef, 0x01, 0x02] in
      case decode_handle_ops_revert abi raw of Unknown b \<Rightarrow> b = raw | _ \<Rightarrow> False)"

section \<open>discovery.rs\<close>

definition EP_V07 :: address where
  "EP_V07 = 0x0000000071727De22E5E9d8BAf0edAc6f37da032"

definition fixture :: "string \<Rightarrow> DiscoveryRpc" where
  "fixture version = discovery_new version 100003 EP_V07"

definition chain_id_is_hex_lowercase_no_leading_zeros :: "string \<Rightarrow> bool" where
  "chain_id_is_hex_lowercase_no_leading_zeros version = (discovery_chain_id (fixture version) = ''0x186a3'')"

definition supported_entry_points_returns_configured :: "string \<Rightarrow> bool" where
  "supported_entry_points_returns_configured version = (supported_entry_points (fixture version) = [EP_V07])"

definition client_version_includes_package_version :: "string \<Rightarrow> bool" where
  "client_version_includes_package_version version =
     (take (length ''ethera-bundler/v'') (client_version (fixture version)) = ''ethera-bundler/v'')"

section \<open>The model passes\<close>

lemma test_pack_pair:
  pack_pair_zero pack_pair_canonical pack_pair_max_uint128 pack_pair_overflow
  by (simp_all add: pack_pair_zero_def pack_pair_canonical_def pack_pair_max_uint128_def pack_pair_overflow_def
      pack_pair_cases)

lemma factory_bytes:
  "be_bytes 20 (0x0202020202020202020202020202020202020202 :: address) = [2, 2, 2, 2, 2, 2, 2, 2, 2, 2, 2, 2, 2, 2, 2, 2, 2, 2, 2, 2]" (is "_ = ?bs")
proof -
  have "be_word ?bs = (0x0202020202020202020202020202020202020202 :: address)" by (simp add: be_word_def)
  then show ?thesis using addr.enc_dec [of ?bs] by simp
qed

lemma pack_base:
  assumes "first_overflow op = None" and "pack_paymaster_and_data op = Inr blob"
  shows "\<exists>p. pack op = Inr p \<and> pk_initCode p = pack_init_code op \<and> pk_paymasterAndData p = blob
    \<and> pk_callData p = op_call_data op \<and> pk_signature p = op_signature op
    \<and> pack_pair_to_bytes32 (op_max_priority_fee_per_gas op) (op_max_fee_per_gas op) ''gasFees'' = Inr (pk_gasFees p)"
proof -
  obtain p where "pack op = Inr p" using assms(1) pack_ok_iff by blast
  with pack_fields [OF this] assms(2) show ?thesis by auto
qed

lemmas op_checks = first_overflow_def builds_paymaster_blob_def pack_paymaster_and_data_outcome base_op_def Let_def

lemma test_pack_no_factory_no_paymaster: pack_no_factory_no_paymaster
proof -
  have "first_overflow base_op = None" "pack_paymaster_and_data base_op = Inr []" by (simp_all add: op_checks)
  from pack_base [OF this] show ?thesis
    by (auto simp: pack_no_factory_no_paymaster_def pack_init_code_def base_op_def)
qed

lemma test_pack_with_factory_and_data: pack_with_factory_and_data
proof -
  let ?op = "base_op\<lparr> op_factory := Some 0x0202020202020202020202020202020202020202,
               op_factory_data := [0xde, 0xad, 0xbe, 0xef] \<rparr>"
  have "first_overflow ?op = None" "pack_paymaster_and_data ?op = Inr []" by (simp_all add: op_checks)
  from pack_base [OF this] show ?thesis
    by (auto simp: pack_with_factory_and_data_def Let_def pack_init_code_def base_op_def factory_bytes)
qed

lemma test_pack_prefers_explicit_init_code: pack_prefers_explicit_init_code
proof -
  let ?op = "base_op\<lparr> op_factory := Some 0x0202020202020202020202020202020202020202,
               op_factory_data := [0xde, 0xad, 0xbe, 0xef], op_init_code := [0xca, 0xfe] \<rparr>"
  have "first_overflow ?op = None" "pack_paymaster_and_data ?op = Inr []" by (simp_all add: op_checks)
  from pack_base [OF this] show ?thesis
    by (auto simp: pack_prefers_explicit_init_code_def Let_def pack_init_code_def)
qed

lemma test_pack_with_paymaster_unpacked: pack_with_paymaster_unpacked
proof -
  let ?blob = "be_bytes 20 (0x0303030303030303030303030303030303030303 :: address) @ be_bytes 16 (50000 :: u256)
      @ be_bytes 16 (20000 :: u256) @ [0xf0, 0x0d]"
  have "first_overflow paymaster_op = None" "pack_paymaster_and_data paymaster_op = Inr ?blob"
    by (simp_all add: op_checks paymaster_op_def)
  from pack_base [OF this] obtain p where p: "pack paymaster_op = Inr p" "pk_paymasterAndData p = ?blob" by blast
  have "parse_paymaster_and_data ?blob = Inr (Some (0x0303030303030303030303030303030303030303, 50000, 20000))"
    by (rule parse_blob) simp_all
  with p show ?thesis
    by (simp add: pack_with_paymaster_unpacked_def Let_def PAYMASTER_HEADER_LEN_def flip: paymaster_op_def)
qed

lemma test_parse_paymaster: parse_paymaster_empty_is_none parse_paymaster_too_short_errors
  by (simp_all add: parse_paymaster_empty_is_none_def parse_paymaster_too_short_errors_def parse_outcome)

lemma test_pack_gas_fees_layout: pack_gas_fees_layout
proof -
  let ?op = "base_op\<lparr> op_max_priority_fee_per_gas := 0xAA, op_max_fee_per_gas := 0xBB \<rparr>"
  have "first_overflow ?op = None" "pack_paymaster_and_data ?op = Inr []" by (simp_all add: op_checks)
  from pack_base [OF this] show ?thesis
    by (auto simp: pack_gas_fees_layout_def Let_def pack_pair_cases)
qed

lemma test_parse_window_success: parse_window_success
proof -
  have "make 0 1000 100 = validation_data 0 1000 100" by (simp add: make_def validation_data_def)
  then show ?thesis
    by (simp add: parse_window_success_def parse_validation_data signature_failed_def SIG_VALIDATION_FAILED_def
        is_out_of_time_range_def Let_def)
qed

lemma test_parse_window_signature_failed: parse_window_signature_failed
proof -
  have "make 1 0 0 = validation_data 1 0 0" by (simp add: make_def validation_data_def)
  then show ?thesis
    by (simp add: parse_window_signature_failed_def parse_validation_data signature_failed_def
        SIG_VALIDATION_FAILED_def requires_aggregator_def Let_def)
qed

lemma test_parse_window_zero: parse_window_zero_is_success_no_expiry
proof -
  have zero: "0 = validation_data 0 0 0" by (simp add: validation_data_def)
  have "parse_window 0 = \<lparr> vw_aggregator = 0, vw_valid_after = 0, vw_valid_until = UINT48_MAX \<rparr>"
    by (subst zero) (simp add: parse_validation_data)
  then show ?thesis
    by (simp add: parse_window_zero_is_success_no_expiry_def signature_failed_def SIG_VALIDATION_FAILED_def
        is_out_of_time_range_def UINT48_MAX_def push_bit_eq_mult Let_def)
qed

lemma be_word_zeros: "be_word (replicate n 0 @ bs) = be_word bs"
  by (induction n) (simp_all add: be_word_def)

lemma test_parse_window_aggregator: parse_window_aggregator
proof -
  have "ucast (be_word (be_bytes 20 agg) :: u256) = agg" for agg :: address
    by (rule bit_word_eqI) (auto simp: be_word_be_bytes bit_simps)
  then show ?thesis
    by (simp add: parse_window_aggregator_def be_word_zeros parse_window_fields(1) requires_aggregator_def
        signature_failed_def SIG_VALIDATION_FAILED_def Let_def)
qed

text \<open>The revert tests, from what alloy's encodings decode to.\<close>

lemma test_decodes_failed_op:
  assumes "4 \<le> length encoded" and "take 4 encoded = sel_FailedOp abi"
    and "dec_FailedOp abi (drop 4 encoded) = Some (2, ''AA21 didn't pay prefund'')"
  shows "decodes_failed_op abi encoded"
  using assms by (simp add: decodes_failed_op_def decode_handle_ops_revert_def Let_def clamp_u64_def try_narrow_def)

lemma test_decodes_signature_validation_failed:
  assumes "4 \<le> length encoded" and "take 4 encoded = sel_SignatureValidationFailed abi"
    and "sel_SignatureValidationFailed abi \<notin> {sel_FailedOp abi, sel_FailedOpWithRevert abi}"
    and "dec_SignatureValidationFailed abi (drop 4 encoded) = Some 0x0000000000000000000000000000000000000aaa"
  shows "decodes_signature_validation_failed abi encoded"
  using assms by (simp add: decodes_signature_validation_failed_def decode_handle_ops_revert_def Let_def)

definition entry_point_selectors :: "abi_errors \<Rightarrow> bytes set" where
  "entry_point_selectors abi =
     {sel_FailedOp abi, sel_FailedOpWithRevert abi, sel_SignatureValidationFailed abi, sel_PostOpReverted abi}"

lemma test_decodes_standard_error_string:
  assumes "ERROR_STRING_SELECTOR \<notin> entry_point_selectors abi" and "dec_String abi boom = Some ''boom''"
  shows "decodes_standard_error_string abi boom"
  using assms
  by (simp add: decodes_standard_error_string_def decode_handle_ops_revert_def entry_point_selectors_def
      ERROR_STRING_SELECTOR_def Let_def)

lemma test_unknown_selector_falls_through:
  assumes "[0xde, 0xad, 0xbe, 0xef] \<notin> entry_point_selectors abi"
  shows "unknown_selector_falls_through abi"
  using assms
  by (simp add: unknown_selector_falls_through_def decode_handle_ops_revert_def entry_point_selectors_def
      ERROR_STRING_SELECTOR_def PANIC_UINT_SELECTOR_def Let_def)

lemma test_paymaster_aa3: "paymaster_aa3_routes_to_paymaster_code fm"
  by (simp add: paymaster_aa3_routes_to_paymaster_code_def)

lemma test_discovery:
  "chain_id_is_hex_lowercase_no_leading_zeros version" "supported_entry_points_returns_configured version"
  "client_version_includes_package_version version"
  by (simp_all add: chain_id_is_hex_lowercase_no_leading_zeros_def supported_entry_points_returns_configured_def
      client_version_includes_package_version_def fixture_def discovery_new_def discovery_chain_id_def
      supported_entry_points_def client_version_def radix_string.simps digit_char_def char_of_def bit_Suc_0_iff)

lemma EP_V07_canonical: "EP_V07 = ENTRYPOINT_V07"
  by (simp add: EP_V07_def ENTRYPOINT_V07_def be_word_def)

text \<open>
  The model passes the unit tests of the program: the eleven tests of \<open>packing.rs\<close>, the four of
  \<open>validator.rs\<close>, the three of \<open>discovery.rs\<close> and the routing test of \<open>errors.rs\<close>, translated with
  their inputs and assertions, all hold.
\<close>

lemma unit_tests_pass:
  "pack_pair_zero \<and> pack_pair_canonical \<and> pack_pair_max_uint128 \<and> pack_pair_overflow
   \<and> pack_no_factory_no_paymaster \<and> pack_with_factory_and_data \<and> pack_prefers_explicit_init_code
   \<and> pack_with_paymaster_unpacked \<and> parse_paymaster_empty_is_none \<and> parse_paymaster_too_short_errors
   \<and> pack_gas_fees_layout
   \<and> parse_window_success \<and> parse_window_signature_failed \<and> parse_window_zero_is_success_no_expiry
   \<and> parse_window_aggregator
   \<and> chain_id_is_hex_lowercase_no_leading_zeros version \<and> supported_entry_points_returns_configured version
   \<and> client_version_includes_package_version version
   \<and> paymaster_aa3_routes_to_paymaster_code fm"
  by (intro conjI test_pack_pair test_pack_no_factory_no_paymaster test_pack_with_factory_and_data
      test_pack_prefers_explicit_init_code test_pack_with_paymaster_unpacked test_parse_paymaster
      test_pack_gas_fees_layout test_parse_window_success test_parse_window_signature_failed test_parse_window_zero
      test_parse_window_aggregator test_discovery test_paymaster_aa3)

end
