(* ===== verification/Nonce_Gaps.thy ===== *)
theory Nonce_Gaps
  imports Pool_Properties Task_Calls
begin

text \<open>
  When nobody else uses the sequencer's key, concurrent submits leave no gap between their nonces:
  together with the order of \<open>Nonce_Order\<close>, the broadcast nonces are then an interval that starts
  at the pending nonce of the idle bundler.
\<close>

section \<open>Contiguous nonces\<close>

text \<open>
  What is assumed of a key nobody else uses: a call, and what happens outside, raises the pending
  nonce by no more than the number of transactions this bundler got accepted meanwhile.
\<close>

definition own_key :: "('w \<Rightarrow> nat) \<Rightarrow> ('w \<Rightarrow> nat list) \<Rightarrow> nat \<Rightarrow> 'w \<Rightarrow> bool" where
  "own_key pending sent first w \<longleftrightarrow> pending w \<le> first + length (sent w)"

lemma interval_of_strict_list:
  assumes "sorted_wrt (<) xs" and "\<forall>x \<in> set xs. first \<le> x \<and> x < next" and "next \<le> first + length (xs :: nat list)"
  shows "xs = [first ..< next]"
proof -
  have "set xs \<subseteq> {first ..< next}" using assms(2) by auto
  moreover have "card {first ..< next} \<le> card (set xs)"
    using assms(1,3) by (simp add: strict_sorted_iff distinct_card)
  ultimately have "set xs = {first ..< next}" by (intro card_seteq) auto
  with assms(1) show ?thesis
    by (metis sorted_list_of_set_range sorted_list_of_set_sort_remdups strict_sorted_iff
        distinct_remdups_id sorted_sort_id)
qed

text \<open>Nothing is broadcast below the nonce that was pending at the start.\<close>

lemma sent_above_first:
  assumes "lawful_node ext b pending sent nonce_of" and "\<forall>w w'. env w w' \<longrightarrow> quiet pending sent w w'"
    and "sent w = []" and "(pool_step ext b env)\<^sup>*\<^sup>* (idle_pool w) p" and "m \<in> set (sent (pl_world p))"
  shows "pending w \<le> m"
proof (cases "pending w")
  case (Suc k)
  let ?sent = "\<lambda>v. k # sent v"
  have "quiet pending ?sent v v' = quiet pending sent v v'" "accepts pending ?sent n v v' = accepts pending sent n v v'"
    for n v v' by (auto simp: quiet_def accepts_def)
  then have law: "lawful_node ext b pending ?sent nonce_of" "\<forall>w w'. env w w' \<longrightarrow> quiet pending ?sent w w'"
    using assms(1,2) unfolding lawful_unfold by simp_all
  have "\<exists>v. idle_pool w = idle_pool v \<and> tidy pending ?sent v" using assms(3) Suc by (auto simp: tidy_def)
  from rising.ordered.always [OF this assms(4), of nonce_of] lawful_calls [OF law(1)] law(2)
  have "tidy pending ?sent (pl_world p)" by (simp add: nonce_inv_def)
  with assms(5) Suc show ?thesis by (auto simp: tidy_def)
qed simp

lemma contiguous:
  assumes "lawful_node ext b pending sent nonce_of" and "\<forall>w w'. env w w' \<longrightarrow> quiet pending sent w w'"
    and "sent w = []" and "calls_obey b (keeping (own_key pending sent (pending w)))"
    and "\<forall>v v'. own_key pending sent (pending w) v \<and> env v v' \<longrightarrow> own_key pending sent (pending w) v'"
    and "(pool_step ext b env)\<^sup>*\<^sup>* (idle_pool w) p"
  shows "sent (pl_world p) = [pending w ..< pending (pl_world p)]"
proof (rule interval_of_strict_list)
  have "tidy pending sent (pl_world p)" by (rule reachable_tidy [OF assms(1,2,3,6)])
  then show "sorted_wrt (<) (sent (pl_world p))"
    and "\<forall>x \<in> set (sent (pl_world p)). pending w \<le> x \<and> x < pending (pl_world p)"
    using sent_above_first [OF assms(1,2,3,6)] by (auto simp: tidy_def)
  have "own_key pending sent (pending w) w" by (simp add: own_key_def)
  from world_kept [OF assms(4,5) this assms(6)]
  show "pending (pl_world p) \<le> pending w + length (sent (pl_world p))" by (simp add: own_key_def)
qed

text \<open>
  C2. Concurrent submits use contiguous nonces: over every interleaving of any number of builds,
  when the bundler is the only user of its key, the nonces it has broadcast are exactly those from
  the pending nonce it started at up to the pending nonce of the moment, in this order.
\<close>

theorem submits_use_contiguous_nonces:
  assumes "lawful_node ext b pending sent nonce_of" and "\<forall>w w'. env w w' \<longrightarrow> quiet pending sent w w'"
    and "sent w = []" and "calls_obey b (keeping (own_key pending sent (pending w)))"
    and "\<forall>v v'. own_key pending sent (pending w) v \<and> env v v' \<longrightarrow> own_key pending sent (pending w) v'"
    and "(pool_step ext b env)\<^sup>*\<^sup>* (idle_pool w) p"
  shows "sent (pl_world p) = [pending w ..< pending (pl_world p)]"
  using assms by (rule contiguous)

lemma strict_own_key: "calls_obey strict_bundler (keeping (own_key strict_pending strict_sent first))"
proof -
  have "own_key strict_pending strict_sent first w'"
    if "own_key strict_pending strict_sent first w" "strict_send raw w = Some (r, w')" for raw w r w'
    using that unat_plus_if' [of "mk_pending_nonce w" 1]
    by (auto simp: strict_send_def own_key_def strict_pending_def strict_sent_def split: if_splits)
  then show ?thesis
    unfolding calls_obey_def keeping_effect
    by (auto simp: strict_bundler_def demo_bundler_def mock_provider_def demo_signer_def local_signer_def
        split: prod.splits sum.splits if_splits)
qed

theorem submits_use_contiguous_nonces_witness:
  "strict_sent (pl_world two_done) = [7 ..< 9] \<and> length (pl_jobs two_done) = 2"
proof -
  have "strict_sent default_mock = []" by (simp add: strict_sent_def)
  from submits_use_contiguous_nonces [OF strict_lawful _ this strict_own_key _ strict_runs]
  have "strict_sent (pl_world two_done) = [strict_pending default_mock ..< strict_pending (pl_world two_done)]" by simp
  then show ?thesis
    by (simp add: two_done_def strict_pending_def strict_after_def TEST_NONCE_def)
qed

end
