(* ===== verification/Submit_Responses.thy ===== *)
theory Submit_Responses
  imports Nonce_Gaps
begin

text \<open>
  From broadcasts to responses.  \<open>Nonce_Order\<close> and \<open>Nonce_Gaps\<close> speak of the nonces the node has
  accepted; here each accepted nonce is traced to the build that broadcast it, and the response of
  a submit to its own nonce.  Builds that submit and builds that only sign run side by side: the
  set \<open>S\<close> holds the positions of requests that asked for a submit.
\<close>

section \<open>What a build has broadcast\<close>

text \<open>
  A build broadcasts at most once: \<open>c\<close> is the nonce it has got accepted so far.  A build that was
  asked to submit returns a response only for that nonce.
\<close>

inductive delivers ::
  "('w \<Rightarrow> nat list) \<Rightarrow> (bytes \<Rightarrow> nat) \<Rightarrow> bool \<Rightarrow> nat option \<Rightarrow> ('w, 'e, SignedTxResp) task \<Rightarrow> bool"
  for sent :: "'w \<Rightarrow> nat list" and nonce_of :: "bytes \<Rightarrow> nat" and submit :: bool where
  v_fail [simp, intro]: "delivers sent nonce_of submit c (Return (Fail e))"
| v_panic [simp, intro]: "delivers sent nonce_of submit c (Return (Panic s))"
| v_done: "submit \<longrightarrow> c = Some (nonce_of (resp_raw resp)) \<Longrightarrow> delivers sent nonce_of submit c (Return (Done resp))"
| v_await: "(\<And>w t w'. f w = Some (t, w') \<Longrightarrow>
      (sent w' = sent w \<and> delivers sent nonce_of submit c t)
      \<or> (c = None \<and> (\<exists>n. sent w' = sent w @ [n] \<and> delivers sent nonce_of submit (Some n) t))) \<Longrightarrow>
    delivers sent nonce_of submit c (Await f)"
| v_acquire: "delivers sent nonce_of submit c t \<Longrightarrow> delivers sent nonce_of submit c (Acquire t)"
| v_release: "delivers sent nonce_of submit c t \<Longrightarrow> delivers sent nonce_of submit c (Release t)"

inductive_cases delivers_AwaitE: "delivers sent nonce_of submit c (Await f)"
lemma delivers_call:
  "delivers sent nonce_of submit c (Await f) \<Longrightarrow> f w = Some (t, w') \<Longrightarrow>
     (sent w' = sent w \<and> delivers sent nonce_of submit c t)
     \<or> (c = None \<and> (\<exists>n. sent w' = sent w @ [n] \<and> delivers sent nonce_of submit (Some n) t))"
  by (erule delivers_AwaitE) blast

inductive_simps delivers_Done_iff [simp]: "delivers sent nonce_of submit c (Return (Done resp))"
inductive_simps delivers_Acquire_iff [simp]: "delivers sent nonce_of submit c (Acquire t)"
inductive_simps delivers_Release_iff [simp]: "delivers sent nonce_of submit c (Release t)"

lemma delivers_still:
  assumes "quiet_task q t" and "\<And>w w'. q w w' \<Longrightarrow> sent w' = sent w" and "\<And>x. delivers sent nonce_of submit c (k x)"
  shows "delivers sent nonce_of submit c (tbind t k)"
  using assms(1,3)
proof (induction rule: quiet_task.induct)
  case (q_return r)
  then show ?case by (cases r) auto
next
  case (q_await f)
  then show ?case using assms by (auto intro!: v_await)
qed

text \<open>Every build delivers, over a node of either kind.\<close>

context nonce_rules
begin

lemma delivers_send:
  assumes "nonce_calls ext b nonce_of q g d a"
  shows "delivers sent nonce_of submit None (send_task ext b pr envelope)"
  unfolding send_task_def Let_def tbind_tcall
proof (rule v_await, goal_cases)
  case (1 w t w')
  let ?raw = "encoded_2718 (ext_consensus ext) envelope"
  let ?rest = "Release (tbind (await_receipt_task ext b pr (envelope_tx_hash (ext_consensus ext) envelope))
      (\<lambda>_. tret (response (bd_cfg b) pr ?raw (envelope_tx_hash (ext_consensus ext) envelope))))"
  from 1 obtain r where r: "pv_send_raw_transaction (bd_provider b) ?raw w = Some (r, w')"
    and t: "t = on_answer ProviderFailed (\<lambda>_. ?rest) r" by auto
  have rest: "delivers sent nonce_of submit (Some (nonce_of ?raw)) ?rest"
    by (auto simp: tret_def response_def intro!: delivers_still [OF quiet_receipt [OF assms] sent_quiet])
  from assms r have "a (nonce_of ?raw) w w' \<or> (q w w' \<and> (\<exists>e. r = Inl e))"
    unfolding nonce_calls_def Let_def by blast
  then show ?case
  proof
    assume "a (nonce_of ?raw) w w'"
    with rest t show ?thesis by (cases r) (auto dest: sent_accepts)
  next
    assume "q w w' \<and> (\<exists>e. r = Inl e)"
    with t show ?thesis by (auto dest: sent_quiet)
  qed
qed

lemma delivers_build:
  assumes "nonce_calls ext b nonce_of q g d a" and "submit \<longrightarrow> opts_submit opts"
  shows "delivers sent nonce_of submit None (build_task ext b ops opts)"
proof -
  have sign: "quiet_task q (sign_task b pr nonce)" for pr nonce
    by (auto simp: sign_task_def calls_quiet [OF assms(1)] intro!: quiet_tbind)
  note calls = calls_quiet(9) [OF assms(1)] sign
  have "delivers sent nonce_of submit None (finish_task ext b opts pr)" for pr
    using assms(2) delivers_send [OF assms(1)]
    by (cases "opts_submit opts")
       (auto simp: finish_task_def Let_def tret_def intro!: delivers_still [OF calls(1) sent_quiet] delivers_still [OF calls(2) sent_quiet])
  then show ?thesis unfolding build_task_def by (intro delivers_still [OF quiet_prepare [OF assms(1)] sent_quiet])
qed

end

section \<open>Tracing nonces to builds\<close>

text \<open>The nonce each build has got accepted: the accepted nonces are exactly these, each from one build.\<close>

definition traced ::
  "('w \<Rightarrow> nat list) \<Rightarrow> (bytes \<Rightarrow> nat) \<Rightarrow> nat set \<Rightarrow> (nat \<Rightarrow> nat option) \<Rightarrow> 'w pool \<Rightarrow> bool" where
  "traced sent nonce_of S c p \<longleftrightarrow>
     (\<forall>i < length (pl_jobs p). case pl_jobs p ! i of
          Queued ops opts \<Rightarrow> c i = None \<and> (i \<in> S \<longrightarrow> opts_submit opts)
        | Running t \<Rightarrow> delivers sent nonce_of (i \<in> S) (c i) t
        | Finished r \<Rightarrow> i \<in> S \<longrightarrow> (\<forall>resp. r = Done resp \<longrightarrow> c i = Some (nonce_of (resp_raw resp))))
     \<and> (\<forall>i. length (pl_jobs p) \<le> i \<longrightarrow> c i = None)
     \<and> (\<forall>n. n \<in> set (sent (pl_world p)) \<longleftrightarrow> (\<exists>i. c i = Some n))
     \<and> (\<forall>i k n. c i = Some n \<and> c k = Some n \<longrightarrow> i = k)"

text \<open>Runs in which the requests at the positions of \<open>S\<close> ask for a submit.\<close>

definition submit_step ::
  "'w externals \<Rightarrow> 'w Bundler \<Rightarrow> ('w \<Rightarrow> 'w \<Rightarrow> bool) \<Rightarrow> nat set \<Rightarrow> 'w pool \<Rightarrow> 'w pool \<Rightarrow> bool" where
  "submit_step ext b env S p p' \<longleftrightarrow>
     pool_step ext b env p p'
     \<and> (\<forall>i ops opts. i \<in> S \<and> i < length (pl_jobs p') \<and> pl_jobs p' ! i = Queued ops opts \<longrightarrow> opts_submit opts)"

lemma submit_run: "(submit_step ext b env S)\<^sup>*\<^sup>* p p' \<Longrightarrow> (pool_step ext b env)\<^sup>*\<^sup>* p p'"
  by (rule rtranclp_mono [THEN predicate2D]) (auto simp: submit_step_def)

lemma traced_move:
  assumes "traced sent nonce_of S c p" and "i < length (pl_jobs p)" and "sent w' = sent (pl_world p)"
    and "case j of Queued ops opts \<Rightarrow> False | Running t \<Rightarrow> delivers sent nonce_of (i \<in> S) (c i) t
           | Finished r \<Rightarrow> i \<in> S \<longrightarrow> (\<forall>resp. r = Done resp \<longrightarrow> c i = Some (nonce_of (resp_raw resp)))"
  shows "traced sent nonce_of S c (p\<lparr>pl_world := w', pl_lock := lk, pl_jobs := (pl_jobs p)[i := j]\<rparr>)"
  using assms by (auto simp: traced_def nth_list_update split: job.splits)

lemma traced_sends:
  assumes "traced sent nonce_of S c p" and "i < length (pl_jobs p)" and "c i = None"
    and "sent w' = sent (pl_world p) @ [n]" and "n \<notin> set (sent (pl_world p))"
    and "case j of Queued ops opts \<Rightarrow> False | Running t \<Rightarrow> delivers sent nonce_of (i \<in> S) (Some n) t
           | Finished r \<Rightarrow> (\<forall>resp. r \<noteq> Done resp)"
  shows "traced sent nonce_of S (c(i := Some n)) (p\<lparr>pl_world := w', pl_lock := lk, pl_jobs := (pl_jobs p)[i := j]\<rparr>)"
proof -
  have range: "m \<in> set (sent (pl_world p)) \<longleftrightarrow> (\<exists>k. c k = Some m)" for m using assms(1) by (simp add: traced_def)
  then have "c k \<noteq> Some n" for k using assms(5) by blast
  moreover have "(\<exists>k. (c(i := Some n)) k = Some m) \<longleftrightarrow> m = n \<or> (\<exists>k. c k = Some m)" for m
    using assms(3) by (metis fun_upd_apply option.distinct(1) option.inject)
  ultimately show ?thesis
    using assms range by (auto simp: traced_def nth_list_update split: job.splits if_splits)
qed

context nonce_rules
begin

lemma traced_step:
  assumes "nonce_calls ext b nonce_of q g d a" and "\<forall>w w'. env w w' \<longrightarrow> q w w'"
    and "traced sent nonce_of S c p" and "submit_step ext b env S p p'" and "distinct (sent (pl_world p'))"
  shows "\<exists>c'. traced sent nonce_of S c' p'"
proof -
  from assms(4) have step: "pool_step ext b env p p'"
    and asks: "\<And>i ops opts. i \<in> S \<Longrightarrow> i < length (pl_jobs p') \<Longrightarrow> pl_jobs p' ! i = Queued ops opts \<Longrightarrow> opts_submit opts"
    unfolding submit_step_def by blast+
  have at: "case pl_jobs p ! i of
          Queued ops opts \<Rightarrow> c i = None \<and> (i \<in> S \<longrightarrow> opts_submit opts)
        | Running t \<Rightarrow> delivers sent nonce_of (i \<in> S) (c i) t
        | Finished r \<Rightarrow> i \<in> S \<longrightarrow> (\<forall>resp. r = Done resp \<longrightarrow> c i = Some (nonce_of (resp_raw resp)))"
    if "i < length (pl_jobs p)" for i
    using assms(3) that by (simp add: traced_def)
  have call: "\<exists>c'. traced sent nonce_of S c' (p\<lparr>pl_world := w', pl_lock := lk, pl_jobs := (pl_jobs p)[i := j]\<rparr>)"
    if i: "i < length (pl_jobs p)" "pl_jobs p ! i = Running (Await f)" "f (pl_world p) = Some (t, w')"
      and j: "j = Running t \<or> j = Finished (Fail Cancelled)" and d: "distinct (sent w')" for i f t w' lk j
  proof -
    have "delivers sent nonce_of (i \<in> S) (c i) (Await f)" using at [OF i(1)] i(2) by simp
    then consider "sent w' = sent (pl_world p)" "delivers sent nonce_of (i \<in> S) (c i) t"
      | n where "c i = None" "sent w' = sent (pl_world p) @ [n]" "delivers sent nonce_of (i \<in> S) (Some n) t"
      using delivers_call [where f = f and w = "pl_world p"] i(3) by blast
    then show ?thesis
    proof cases
      case 1
      with j show ?thesis by (intro exI [of _ c] traced_move [OF assms(3) i(1)]) auto
    next
      case 2
      with j d show ?thesis by (intro exI [of _ "c(i := Some n)"] traced_sends [OF assms(3) i(1)]) auto
    qed
  qed
  note move = traced_move [OF assms(3), of _ "pl_world p", OF _ refl]
  from step show ?thesis
  proof cases
    case (arrive ops opts)
    with asks [of "length (pl_jobs p)"] assms(3) show ?thesis
      by (intro exI [of _ c]) (auto simp: traced_def nth_append less_Suc_eq)
  next
    case (start i ops opts)
    with at [OF start(2)] have "delivers sent nonce_of (i \<in> S) (c i) (build_task ext b ops opts)"
      using delivers_build [OF assms(1)] by simp
    with move [OF start(2), of "Running (build_task ext b ops opts)" "pl_lock p"] start(1) show ?thesis by auto
  next
    case (refuse i ops opts)
    with move [OF refuse(2), of "Finished (Fail Cancelled)" "pl_lock p"] show ?thesis by auto
  next
    case (answer i f t w')
    with call [OF answer(2,3,5), of "Running t" "pl_lock p"] assms(5) show ?thesis by simp
  next
    case (lock i t)
    with move [OF lock(2), of "Running t" "Some i"] at [OF lock(2)] show ?thesis by auto
  next
    case (unlock i t)
    with move [OF unlock(2), of "Running t" "drop_guard i (pl_lock p)"] at [OF unlock(2)] show ?thesis by auto
  next
    case (finish i r)
    have "i \<in> S \<longrightarrow> (\<forall>resp. r = Done resp \<longrightarrow> c i = Some (nonce_of (resp_raw resp)))"
      using at [OF finish(2)] finish(3) by auto
    with move [OF finish(2), of "Finished r" "drop_guard i (pl_lock p)"] finish(1) show ?thesis by auto
  next
    case cancel
    with assms(3) show ?thesis by (auto simp: traced_def)
  next
    case (abort i t)
    with move [OF abort(2), of "Finished (Fail Cancelled)" "drop_guard i (pl_lock p)"] show ?thesis by auto
  next
    case (late i f t w')
    with call [OF late(2,3,5), of "Finished (Fail Cancelled)" "drop_guard i (pl_lock p)"] assms(5) show ?thesis by simp
  next
    case (outside w')
    with assms(2) have "sent w' = sent (pl_world p)" by (blast dest: sent_quiet)
    with outside assms(3) show ?thesis by (intro exI [of _ c]) (simp add: traced_def)
  qed
qed

lemma responses_traced:
  assumes "nonce_calls ext b nonce_of q g d a" and "\<forall>w w'. env w w' \<longrightarrow> q w w'" and "g w" and "sent w = []"
    and "(submit_step ext b env S)\<^sup>*\<^sup>* (idle_pool w) p"
  shows "nonce_inv q g d a p \<and> (\<exists>c. traced sent nonce_of S c p)"
  using assms(5)
proof (induction rule: rtranclp_induct)
  case base
  then show ?case using assms(3,4)
    by (auto simp: nonce_inv_def idle_pool_def traced_def intro!: exI [of _ "\<lambda>_. None"])
next
  case (step p p')
  then obtain c where inv: "nonce_inv q g d a p" "traced sent nonce_of S c p" by blast
  from step(2) have inv': "nonce_inv q g d a p'"
    using nonce_inv_step [OF assms(1,2) inv(1)] by (simp add: submit_step_def)
  then have "distinct (sent (pl_world p'))" by (simp add: nonce_inv_def good_distinct)
  from inv' traced_step [OF assms(1,2) inv(2) step(2) this] show ?case by blast
qed

text \<open>
  Every successful submit has got the nonce of its response accepted, and no two share one.
\<close>

lemma responses_distinct:
  assumes "nonce_calls ext b nonce_of q g d a" and "\<forall>w w'. env w w' \<longrightarrow> q w w'" and "g w" and "sent w = []"
    and "(submit_step ext b env S)\<^sup>*\<^sup>* (idle_pool w) p"
    and "i \<in> S" and "i < length (pl_jobs p)" and "pl_jobs p ! i = Finished (Done resp)"
  shows "nonce_of (resp_raw resp) \<in> set (sent (pl_world p))
     \<and> (\<forall>k resp'. k \<in> S \<and> k < length (pl_jobs p) \<and> pl_jobs p ! k = Finished (Done resp') \<and> k \<noteq> i
          \<longrightarrow> nonce_of (resp_raw resp') \<noteq> nonce_of (resp_raw resp))"
proof -
  obtain c where c: "traced sent nonce_of S c p" using responses_traced [OF assms(1-5)] by blast
  have own: "c k = Some (nonce_of (resp_raw r))"
    if "k \<in> S" "k < length (pl_jobs p)" "pl_jobs p ! k = Finished (Done r)" for k r
    using c that by (force simp: traced_def)
  from c own [OF assms(6-8)] have "nonce_of (resp_raw resp) \<in> set (sent (pl_world p))" by (auto simp: traced_def)
  moreover have "k = i" if "k \<in> S" "k < length (pl_jobs p)" "pl_jobs p ! k = Finished (Done r)"
    "nonce_of (resp_raw r) = nonce_of (resp_raw resp)" for k r
    using c own [OF that(1-3)] own [OF assms(6-8)] that(4) by (simp add: traced_def)
  ultimately show ?thesis by blast
qed

end

section \<open>Responses\<close>

text \<open>
  C3. Every submit that succeeds returns a transaction of its own that the node has accepted: over a
  node whose pending nonce may fall, as when the reservation of a transaction that was only signed is
  released, but that does not offer the nonce of an accepted transaction again, the nonce of the
  response is among the accepted ones and no two submits return the same nonce, whatever
  other submits and sign-only builds run beside them, cancelled, failed or not.
\<close>

theorem submit_responses_are_distinct:
  assumes "fresh_node ext b ok sent nonce_of" and "\<forall>w w'. env w w' \<longrightarrow> undisturbed ok sent w w'"
    and "ok w" and "sent w = []" and "(submit_step ext b env S)\<^sup>*\<^sup>* (idle_pool w) p"
    and "i \<in> S" and "i < length (pl_jobs p)" and "pl_jobs p ! i = Finished (Done resp)"
  shows "nonce_of (resp_raw resp) \<in> set (sent (pl_world p))
     \<and> (\<forall>k resp'. k \<in> S \<and> k < length (pl_jobs p) \<and> pl_jobs p ! k = Finished (Done resp') \<and> k \<noteq> i
          \<longrightarrow> nonce_of (resp_raw resp') \<noteq> nonce_of (resp_raw resp))"
  using released.responses_distinct [OF fresh_calls [OF assms(1)] assms(2) _ assms(4-8)] assms(3,4) by simp

text \<open>Without arrivals a run of the pool keeps what the waiting requests ask for.\<close>

definition asking :: "nat set \<Rightarrow> 'w pool \<Rightarrow> bool" where
  "asking S p \<longleftrightarrow> (\<forall>i ops opts. i \<in> S \<and> i < length (pl_jobs p) \<and> pl_jobs p ! i = Queued ops opts \<longrightarrow> opts_submit opts)"

lemma asking_step:
  assumes "pool_step ext b env p p'" and "asking S p" and "length (pl_jobs p') = length (pl_jobs p)"
  shows "asking S p'"
  using assms by cases (auto simp: asking_def nth_list_update split: if_splits)

lemma closed_run:
  assumes "(pool_step ext b env)\<^sup>*\<^sup>* p p'" and "asking S p" and "length (pl_jobs p') = length (pl_jobs p)"
  shows "(submit_step ext b env S)\<^sup>*\<^sup>* p p'"
  using assms
proof (induction rule: converse_rtranclp_induct)
  case (step p p1)
  from jobs_never_shrink [OF step(1)] run_never_shrinks [OF step(2)] step.prems(2)
  have len: "length (pl_jobs p1) = length (pl_jobs p)" "length (pl_jobs p') = length (pl_jobs p1)" by simp_all
  have ask: "asking S p1" by (rule asking_step [OF step(1) step.prems(1) len(1)])
  with step(1) have "submit_step ext b env S p p1" by (simp add: submit_step_def asking_def)
  then show ?case using step.IH [OF ask len(2)] by (rule steps_trans)
qed simp

section \<open>A node that releases reservations\<close>

text \<open>
  The mocked execution layer that sets the pending nonce past the highest nonce it has accepted, and
  outside steps that set it to any nonce that is not used yet.
\<close>

definition highest :: "nat list \<Rightarrow> nat" where
  "highest ns = foldr max ns 0"

lemma highest_above: "Suc (highest ns) \<notin> set ns"
proof -
  have "n \<le> highest ns" if "n \<in> set ns" for n
    using that unfolding highest_def by (induction ns) auto
  then show ?thesis by (metis Suc_n_not_le_n)
qed

definition relay_send :: "bytes \<Rightarrow> (MockProvider, b256) rpc" where
  "relay_send raw w =
     (let w' = w\<lparr>mk_submissions := mk_submissions w @ [raw]\<rparr>; top = Suc (highest (strict_sent w')) in
      if top < 2 ^ 64 then Some (Inr (be_word raw), w'\<lparr>mk_pending_nonce := of_nat top\<rparr>)
      else Some (Inl (Transport ''nonce exhausted''), w))"

definition relay_bundler :: "MockProvider Bundler" where
  "relay_bundler = demo_bundler\<lparr>bd_provider := (bd_provider demo_bundler)
     \<lparr>pv_send_raw_transaction := relay_send,
      pv_wait_for_receipt := pv_wait_for_receipt (mock_provider demo_decode),
      pv_try_call_for_revert := pv_try_call_for_revert (mock_provider demo_decode)\<rparr>\<rparr>"

definition unused_pending :: "MockProvider \<Rightarrow> bool" where
  "unused_pending w \<longleftrightarrow> strict_pending w \<notin> set (strict_sent w)"

definition releases :: "MockProvider \<Rightarrow> MockProvider \<Rightarrow> bool" where
  "releases w w' \<longleftrightarrow> w' = w\<lparr>mk_pending_nonce := mk_pending_nonce w'\<rparr> \<and> unused_pending w'"

lemma releases_undisturbed: "releases w w' \<Longrightarrow> undisturbed unused_pending strict_sent w w'"
proof -
  assume "releases w w'"
  then have eq: "w' = w\<lparr>mk_pending_nonce := mk_pending_nonce w'\<rparr>" and "unused_pending w'" by (simp_all add: releases_def)
  moreover have "strict_sent w' = strict_sent w" by (subst eq) (simp add: strict_sent_def)
  ultimately show ?thesis by (simp add: undisturbed_def)
qed

lemma relay_takes:
  assumes "relay_send raw w = Some (r, w')"
  shows "takes_in unused_pending strict_sent (strict_nonce raw) w w'
     \<or> (undisturbed unused_pending strict_sent w w' \<and> (\<exists>e. r = Inl e))"
proof (cases "Suc (highest (strict_sent (w\<lparr>mk_submissions := mk_submissions w @ [raw]\<rparr>))) < 2 ^ 64")
  case True
  let ?w = "w\<lparr>mk_submissions := mk_submissions w @ [raw]\<rparr>"
  have w': "w' = ?w\<lparr>mk_pending_nonce := of_nat (Suc (highest (strict_sent ?w)))\<rparr>"
    using True assms by (simp add: relay_send_def Let_def)
  then have "strict_sent w' = strict_sent ?w" by (simp add: strict_sent_def)
  moreover have "strict_pending w' = Suc (highest (strict_sent ?w))"
    unfolding w' strict_pending_def using True by (simp add: unsigned_of_nat take_bit_nat_eq_self del: of_nat_Suc)
  ultimately have "unused_pending w'" using highest_above by (simp add: unused_pending_def)
  moreover have "strict_sent w' = strict_sent w @ [strict_nonce raw]" by (simp add: w' strict_sent_def)
  ultimately show ?thesis by (simp add: takes_in_def)
next
  case False
  with assms have "w' = w" "\<exists>e. r = Inl e" by (auto simp: relay_send_def Let_def)
  then show ?thesis by (simp add: undisturbed_def)
qed

lemma relay_fresh: "fresh_node demo_externals relay_bundler unused_pending strict_sent strict_nonce"
proof -
  have "strict_nonce (encoded_2718 (ext_consensus demo_externals) env) = unat (tx_nonce (env_tx env))" for env
    by (simp add: strict_nonce_def demo_externals_def demo_consensus_def full.dec_enc)
  then show ?thesis
    using demo_signs_as_given relay_takes
    by (auto simp: fresh_node_def nonce_calls_def relay_bundler_def demo_bundler_def mock_provider_def undisturbed_def
        unused_pending_def strict_pending_def demo_signer_def local_signer_def split: prod.splits sum.splits if_splits)
qed

definition relay_after :: "MockProvider \<Rightarrow> MockProvider" where
  "relay_after w = (let w' = w\<lparr>mk_submissions := mk_submissions w @ [be_bytes 32 (ucast (mk_pending_nonce w) :: u256)]\<rparr>
                    in w'\<lparr>mk_pending_nonce := of_nat (Suc (highest (strict_sent w')))\<rparr>)"

lemma build_relay:
  assumes "mk_deposit w = TEST_DEPOSIT" and "\<not> mk_timeout_receipt w"
    and "relay_send (be_bytes 32 (ucast (mk_pending_nonce w) :: u256)) w = Some (Inr (ucast (mk_pending_nonce w)), relay_after w)"
    and "\<not> mk_timeout_receipt (relay_after w)"
  shows "build_inner demo_externals relay_bundler [happy_op] (demo_opts True) w
           = Some (Done (demo_resp (mk_pending_nonce w)), relay_after w)"
proof -
  have prep: "prepare demo_externals relay_bundler [happy_op] (demo_opts True) w = Some (Done demo_prepared, w)"
    unfolding relay_bundler_def prepare_indep by (rule prepare_happy [OF assms(1)])
  have "pbind (prepare demo_externals relay_bundler [happy_op] (demo_opts True)) k w = k demo_prepared w"
    for k :: "prepared \<Rightarrow> (MockProvider, BundlerError, SignedTxResp) prog"
    using prep by (rule pbind_at)
  then show ?thesis
    unfolding build_inner_def using assms(2-) by (simp add: demo_tail relay_bundler_def)
qed

text \<open>
  Two submits: the first at 9, as transactions at 7 and 8 that were only signed are reserved, the
  second at 7, once these reservations are released.
\<close>

definition reserved_mock :: MockProvider where
  "reserved_mock = default_mock\<lparr>mk_pending_nonce := 9\<rparr>"

definition released_mock :: MockProvider where
  "released_mock = (relay_after reserved_mock)\<lparr>mk_pending_nonce := 7\<rparr>"

definition relayed :: "MockProvider pool" where
  "relayed = two_queued\<lparr>pl_world := relay_after released_mock,
     pl_jobs := [Finished (Done (demo_resp 9)), Finished (Done (demo_resp 7))]\<rparr>"

lemma relay_ran:
  "(submit_step demo_externals relay_bundler releases UNIV)\<^sup>*\<^sup>* (idle_pool reserved_mock) relayed"
proof -
  let ?step = "submit_step demo_externals relay_bundler releases UNIV"
  let ?run = "pool_step demo_externals relay_bundler releases"
  let ?q = "Queued [happy_op] (demo_opts True)"
  let ?idle = "idle_pool reserved_mock"
  let ?one = "?idle\<lparr>pl_jobs := [?q]\<rparr>" let ?two = "two_queued\<lparr>pl_world := reserved_mock\<rparr>"
  let ?first = "two_queued\<lparr>pl_world := relay_after reserved_mock, pl_jobs := [Finished (Done (demo_resp 9)), ?q]\<rparr>"
  have asks: "opts_submit (demo_opts True)" by (simp add: demo_opts_def)
  have a1: "?step ?idle ?one"
    using pool_step.arrive [of demo_externals relay_bundler releases ?idle "[happy_op]" "demo_opts True"] asks
    by (auto simp: submit_step_def idle_pool_def)
  have a2: "?step ?one ?two"
    using pool_step.arrive [of demo_externals relay_bundler releases ?one "[happy_op]" "demo_opts True"] asks
    by (auto simp: submit_step_def idle_pool_def two_queued_def less_Suc_eq)
  have one: "strict_nonce (be_bytes 32 (n :: u256)) = unat n" for n
    by (simp add: strict_nonce_def full.dec_enc)
  have "build_inner demo_externals relay_bundler [happy_op] (demo_opts True) reserved_mock
      = Some (Done (demo_resp 9), relay_after reserved_mock)"
    using build_relay [of reserved_mock]
    by (simp add: reserved_mock_def relay_after_def relay_send_def strict_sent_def highest_def one full.dec_enc Let_def)
  then have r1: "?run\<^sup>*\<^sup>* ?two ?first"
    using queued_job_runs [of 0 ?two "[happy_op]" "demo_opts True" demo_externals relay_bundler]
    by (simp add: two_queued_def)
  have "releases (relay_after reserved_mock) released_mock"
    by (simp add: releases_def released_mock_def unused_pending_def relay_after_def reserved_mock_def strict_sent_def
        strict_pending_def one Let_def)
  then have r2: "?run ?first (?first\<lparr>pl_world := released_mock\<rparr>)"
    using pool_step.outside [of releases ?first released_mock demo_externals relay_bundler] by simp
  have "build_inner demo_externals relay_bundler [happy_op] (demo_opts True) released_mock
      = Some (Done (demo_resp 7), relay_after released_mock)"
    using build_relay [of released_mock]
    by (simp add: released_mock_def reserved_mock_def relay_after_def relay_send_def strict_sent_def highest_def one
        full.dec_enc Let_def)
  then have r3: "?run\<^sup>*\<^sup>* (?first\<lparr>pl_world := released_mock\<rparr>) relayed"
    using queued_job_runs [of 1 "?first\<lparr>pl_world := released_mock\<rparr>" "[happy_op]" "demo_opts True" demo_externals relay_bundler]
    by (simp add: two_queued_def relayed_def)
  have "?run\<^sup>*\<^sup>* ?two relayed" using r1 r2 r3 by (meson rtranclp.rtrancl_into_rtrancl rtranclp_trans)
  moreover have "asking UNIV ?two" using asks by (auto simp: asking_def two_queued_def less_Suc_eq)
  ultimately have "?step\<^sup>*\<^sup>* ?two relayed"
    by (rule closed_run) (simp add: two_queued_def relayed_def)
  with a1 a2 show ?thesis by (meson converse_rtranclp_into_rtranclp)
qed

theorem submit_responses_are_distinct_witness:
  "strict_sent (pl_world relayed) = [9, 7]
   \<and> strict_nonce (resp_raw (demo_resp 9)) \<in> set (strict_sent (pl_world relayed))
   \<and> strict_nonce (resp_raw (demo_resp 7)) \<noteq> strict_nonce (resp_raw (demo_resp 9))"
proof -
  have "unused_pending reserved_mock" "strict_sent reserved_mock = []"
    by (simp_all add: unused_pending_def strict_sent_def reserved_mock_def)
  from submit_responses_are_distinct [OF relay_fresh _ this relay_ran, of 0 "demo_resp 9"] releases_undisturbed
  have "strict_nonce (resp_raw (demo_resp 9)) \<in> set (strict_sent (pl_world relayed))
      \<and> strict_nonce (resp_raw (demo_resp 7)) \<noteq> strict_nonce (resp_raw (demo_resp 9))"
    by (force simp: relayed_def)
  moreover have "strict_nonce (be_bytes 32 (n :: u256)) = unat n" for n
    by (simp add: strict_nonce_def full.dec_enc)
  then have "strict_sent (pl_world relayed) = [9, 7]"
    by (simp add: relayed_def released_mock_def reserved_mock_def relay_after_def strict_sent_def Let_def)
  ultimately show ?thesis by simp
qed

section \<open>Consecutive nonces\<close>

text \<open>
  When all requests ask for a submit and all succeed, over a key nobody else uses, their nonces are
  the next ones from the pending nonce on, each once.
\<close>

lemma submits_tile:
  assumes "lawful_node ext b pending sent nonce_of" and "\<forall>w w'. env w w' \<longrightarrow> quiet pending sent w w'"
    and "sent w = []" and "calls_obey b (keeping (own_key pending sent (pending w)))"
    and "\<forall>v v'. own_key pending sent (pending w) v \<and> env v v' \<longrightarrow> own_key pending sent (pending w) v'"
    and "(submit_step ext b env UNIV)\<^sup>*\<^sup>* (idle_pool w) p" and "pl_jobs p = map (\<lambda>resp. Finished (Done resp)) resps"
  shows "sort (map (\<lambda>resp. nonce_of (resp_raw resp)) resps) = [pending w ..< pending w + length resps]"
proof -
  let ?n = "\<lambda>i. nonce_of (resp_raw (resps ! i))"
  obtain c where c: "traced sent nonce_of UNIV c p" 
    using rising.responses_traced [OF lawful_calls [OF assms(1)] assms(2) _ assms(3,6)] assms(3)
    by (auto simp: tidy_def)
  have own: "c i = (if i < length resps then Some (?n i) else None)" for i
    using c assms(7) by (auto simp: traced_def)
  have sent: "sent (pl_world p) = [pending w ..< pending (pl_world p)]"
    by (rule contiguous [OF assms(1-5) submit_run [OF assms(6)]])
  have one: "i = k" if "c i = Some n" "c k = Some n" for i k n using c that by (simp add: traced_def)
  have "i = k" if "i < length resps" "k < length resps" "?n i = ?n k" for i k
    using one [of i "?n k" k] own [of i] own [of k] that by simp
  then have "distinct (map ?n [0 ..< length resps])" by (auto simp: distinct_map inj_on_def)
  moreover have "n \<in> set (sent (pl_world p)) \<longleftrightarrow> (\<exists>i. c i = Some n)" for n using c by (simp add: traced_def)
  then have "set (map ?n [0 ..< length resps]) = set (sent (pl_world p))"
    by (auto simp: own split: if_splits)
  moreover have "map ?n [0 ..< length resps] = map (\<lambda>resp. nonce_of (resp_raw resp)) resps"
    by (rule nth_equalityI) simp_all
  ultimately have d: "distinct (map (\<lambda>resp. nonce_of (resp_raw resp)) resps)"
    and r: "set (map (\<lambda>resp. nonce_of (resp_raw resp)) resps) = {pending w ..< pending (pl_world p)}"
    by (simp_all add: sent)
  have "pending (pl_world p) - pending w = length resps"
    using distinct_card [OF d] r by simp
  moreover have "sort (map (\<lambda>resp. nonce_of (resp_raw resp)) resps) = [pending w ..< pending (pl_world p)]"
    using d r by (metis sorted_list_of_set_range sorted_list_of_set_sort_remdups distinct_remdups_id)
  ultimately show ?thesis by (metis add_diff_inverse_nat length_upt upt_conv_Nil less_imp_le_nat list.size(3)
      add.right_neutral not_less)
qed

end
