(* ===== verification/Integration_Tests.thy ===== *)
theory Integration_Tests
  imports Pool_Properties "HOL-Library.Sublist"
begin

text \<open>
  The scenarios of \<open>crates/bundler/tests/bundler_pipeline.rs\<close> as runs of the model over the mocked
  execution layer: the steps and assertions of each test in the test's order, an \<open>unwrap\<close> or an
  \<open>expect\<close> that would panic makes it false.  alloy's encodings are parameters: the first scenario, which
  decodes the whole transaction and its calldata, is stated for every codec and passes for every one
  whose decoders invert its encoders; the others only decode the nonce and run over the stand-ins of
  \<open>Test_Fixture\<close>, whose raw transactions hold the nonce and nothing else.  The token of these bundlers
  is never fired, so a call is a run of \<open>build_inner\<close>.  The eight concurrent submits are in \<open>Concurrent_Test\<close>.
\<close>

section \<open>Calls\<close>

abbreviation call :: "UserOpV07 list \<Rightarrow> BuildOpts \<Rightarrow> MockProvider
    \<Rightarrow> ((BundlerError, SignedTxResp) flow \<times> MockProvider) option" where
  "call \<equiv> build_inner demo_externals demo_bundler"

definition unwrap_resp ::
  "((BundlerError, SignedTxResp) flow \<times> MockProvider) option \<Rightarrow> (SignedTxResp \<Rightarrow> MockProvider \<Rightarrow> bool) \<Rightarrow> bool" where
  "unwrap_resp r test = (case r of Some (Done resp, w) \<Rightarrow> test resp w | _ \<Rightarrow> False)"

definition unwrap_err ::
  "((BundlerError, SignedTxResp) flow \<times> MockProvider) option \<Rightarrow> (string \<Rightarrow> MockProvider \<Rightarrow> bool) \<Rightarrow> bool" where
  "unwrap_err r test = (case r of Some (Fail e, w) \<Rightarrow> test (display_BundlerError demo_formats e) w | _ \<Rightarrow> False)"

lemma unwrap_simps [simp]:
  "unwrap_resp (Some (Done resp, w)) test = test resp w" "unwrap_err (Some (Fail e, w)) test' = test' (display_BundlerError demo_formats e) w"
  by (simp_all add: unwrap_resp_def unwrap_err_def)

text \<open>The nonce of a raw transaction; \<open>None\<close> where the test would panic.\<close>

definition decode_eip1559_nonce :: "(bytes \<Rightarrow> TxEnvelope option) \<Rightarrow> bytes \<Rightarrow> u64 option" where
  "decode_eip1559_nonce decode_2718 raw =
     (case decode_2718 raw of Some (Eip1559 tx signature) \<Rightarrow> Some (tx_nonce tx) | None \<Rightarrow> None)"

text \<open>The decoder of the stand-ins: it finds the nonce and fills in the rest.\<close>

definition demo_decode_2718 :: "bytes \<Rightarrow> TxEnvelope option" where
  "demo_decode_2718 raw = Some (Eip1559
     \<lparr> tx_chain_id = 0, tx_nonce = be_word raw, tx_gas_limit = 0, tx_max_fee_per_gas = 0, tx_max_priority_fee_per_gas = 0,
       tx_to = Call 0, tx_value = 0, tx_access_list = [], tx_input = [] \<rparr> (0, 0, False))"

text \<open>alloy's encodings of envelopes and of \<open>handleOps\<close> calls, with their decoders.\<close>

record codec =
  cx_consensus :: consensus
  cx_decode_2718 :: "bytes \<Rightarrow> TxEnvelope option"
  cx_encode_ops :: "handleOpsCall \<Rightarrow> bytes"
  cx_decode_ops :: "bytes \<Rightarrow> handleOpsCall option"

definition decoders_invert :: "codec \<Rightarrow> bool" where
  "decoders_invert cx \<longleftrightarrow>
     (\<forall>env. cx_decode_2718 cx (encoded_2718 (cx_consensus cx) env) = Some env)
     \<and> (\<forall>c. cx_decode_ops cx (cx_encode_ops cx c) = Some c)"

definition codec_externals :: "codec \<Rightarrow> MockProvider externals" where
  "codec_externals cx = demo_externals\<lparr>ext_consensus := cx_consensus cx, ext_handleOps_abi_encode := cx_encode_ops cx\<rparr>"

definition codec_bundler :: "codec \<Rightarrow> MockProvider Bundler" where
  "codec_bundler cx = demo_bundler\<lparr>bd_provider := mock_provider (\<lambda>raw.
     case cx_decode_2718 cx raw of Some env \<Rightarrow> Inr (envelope_tx_hash (cx_consensus cx) env) | None \<Rightarrow> Inl ''decode'')\<rparr>"

section \<open>Scenarios\<close>

definition happy_path_single_op_returns_signed_tx :: "codec \<Rightarrow> bool" where
  "happy_path_single_op_returns_signed_tx cx =
     unwrap_resp (build_inner (codec_externals cx) (codec_bundler cx) [happy_op] (demo_opts True) default_mock) (\<lambda>resp _.
       resp_chain_id resp = TEST_CHAIN_ID
       \<and> resp_to resp = ENTRYPOINT_V07
       \<and> resp_user_op_hashes resp = [TEST_USER_OP_HASH]
       \<and> resp_gas resp = ucast (TEST_GAS_ESTIMATE + TEST_GAS_ESTIMATE div 10)
       \<and> resp_max_priority_fee_per_gas resp = 1000000000
       \<and> resp_max_fee_per_gas resp = 5000000000
       \<and> (case cx_decode_2718 cx (resp_raw resp) of
             None \<Rightarrow> False
           | Some (Eip1559 tx signature) \<Rightarrow>
               envelope_tx_hash (cx_consensus cx) (Eip1559 tx signature) = resp_hash resp
               \<and> tx_chain_id tx = TEST_CHAIN_ID
               \<and> tx_nonce tx = TEST_NONCE
               \<and> tx_to tx = Call ENTRYPOINT_V07
               \<and> (case cx_decode_ops cx (tx_input tx) of
                     None \<Rightarrow> False
                   | Some decoded \<Rightarrow>
                       length (ho_ops decoded) = 1
                       \<and> pk_sender (ho_ops decoded ! 0) = op_sender happy_op
                       \<and> ho_beneficiary decoded = sg_address demo_signer)))"

definition rejects_wrong_chain_id :: bool where
  "rejects_wrong_chain_id =
     unwrap_err (call [happy_op] \<lparr> opts_chain_id = 999, opts_submit = True \<rparr> default_mock)
       (\<lambda>err _. sublist ''wrong chainId'' err)"

definition rejects_priority_fee_below_minimum :: bool where
  "rejects_priority_fee_below_minimum =
     (let op = happy_op\<lparr>op_max_priority_fee_per_gas := 1\<rparr> in
      unwrap_err (call [op] (demo_opts True) default_mock) (\<lambda>err _. sublist ''priority fee'' err))"

definition rejects_insufficient_deposit :: bool where
  "rejects_insufficient_deposit =
     unwrap_err (call [happy_op] (demo_opts True) (default_mock\<lparr>mk_deposit := 1\<rparr>))
       (\<lambda>err _. sublist ''insufficient deposit'' err)"

definition build_submits_raw_transaction_to_provider :: bool where
  "build_submits_raw_transaction_to_provider =
     unwrap_resp (call [happy_op] (demo_opts True) default_mock) (\<lambda>resp w. mk_submissions w = [resp_raw resp])"

definition sign_only_does_not_broadcast :: bool where
  "sign_only_does_not_broadcast =
     unwrap_resp (call [happy_op] (demo_opts False) default_mock) (\<lambda>resp w.
       mk_submissions w = [] \<and> resp_chain_id resp = TEST_CHAIN_ID \<and> resp_raw resp \<noteq> []
       \<and> demo_decode (resp_raw resp) = Inr (resp_hash resp))"

definition sign_only_follows_builder_pending :: bool where
  "sign_only_follows_builder_pending =
     unwrap_resp (call [happy_op] (demo_opts False) default_mock) (\<lambda>first w.
       decode_eip1559_nonce demo_decode_2718 (resp_raw first) = Some TEST_NONCE
       \<and> unwrap_resp (call [happy_op] (demo_opts False) (w\<lparr>mk_pending_nonce := TEST_NONCE + 1\<rparr>)) (\<lambda>second w.
           decode_eip1559_nonce demo_decode_2718 (resp_raw second) = Some (TEST_NONCE + 1)
           \<and> unwrap_resp (call [happy_op] (demo_opts False) (w\<lparr>mk_pending_nonce := TEST_NONCE\<rparr>)) (\<lambda>third _.
               decode_eip1559_nonce demo_decode_2718 (resp_raw third) = Some TEST_NONCE)))"

definition send_failure_propagates_and_refetches_pending :: bool where
  "send_failure_propagates_and_refetches_pending =
     unwrap_err (call [happy_op] (demo_opts True) (default_mock\<lparr>mk_fail_send := True\<rparr>)) (\<lambda>_ w.
       mk_submissions w = []
       \<and> unwrap_resp (call [happy_op] (demo_opts True) (w\<lparr>mk_fail_send := False, mk_pending_nonce := TEST_NONCE + 3\<rparr>))
           (\<lambda>resp _. decode_eip1559_nonce demo_decode_2718 (resp_raw resp) = Some (TEST_NONCE + 3)))"

definition receipt_timeout_propagates_and_refetches_pending :: bool where
  "receipt_timeout_propagates_and_refetches_pending =
     unwrap_err (call [happy_op] (demo_opts True) (default_mock\<lparr>mk_timeout_receipt := True\<rparr>)) (\<lambda>err w.
       sublist ''not found within timeout'' err
       \<and> unwrap_resp (call [happy_op] (demo_opts True) (w\<lparr>mk_timeout_receipt := False, mk_pending_nonce := TEST_NONCE + 4\<rparr>))
           (\<lambda>resp _. decode_eip1559_nonce demo_decode_2718 (resp_raw resp) = Some (TEST_NONCE + 4)))"

section \<open>The model passes\<close>

lemma nonce_of_resp [simp]: "decode_eip1559_nonce demo_decode_2718 (resp_raw (demo_resp n)) = Some n"
proof -
  have "(take_bit 256 (ucast (ucast n :: u256)) :: u64) = n"
    by (rule bit_word_eqI) (auto simp: bit_simps)
  then show ?thesis by (simp add: decode_eip1559_nonce_def demo_decode_2718_def demo_resp_def response_def be_word_be_bytes)
qed

lemma hash_of_resp [simp]: "demo_decode (resp_raw (demo_resp n)) = Inr (resp_hash (demo_resp n))"
  by (simp add: demo_decode_def demo_resp_def response_def full.dec_enc)

lemma raw_of_resp: "resp_raw (demo_resp n) = be_bytes 32 (ucast n :: u256)"
  by (simp add: demo_resp_def response_def)

lemma resp_fields:
  "resp_chain_id (demo_resp n) = TEST_CHAIN_ID" "resp_to (demo_resp n) = ENTRYPOINT_V07"
  "resp_user_op_hashes (demo_resp n) = [TEST_USER_OP_HASH]" "resp_gas (demo_resp n) = 275000"
  "resp_max_priority_fee_per_gas (demo_resp n) = 1000000000" "resp_max_fee_per_gas (demo_resp n) = 5000000000"
  by (simp_all add: demo_resp_def response_def demo_prepared_def test_config_def)

lemma prepare_codec:
  "prepare (codec_externals cx) (codec_bundler cx) [happy_op] (demo_opts True) default_mock
     = Some (Done (demo_prepared\<lparr>pr_call_data := cx_encode_ops cx
         \<lparr> ho_ops = [happy_packed], ho_beneficiary = sg_address demo_signer \<rparr>\<rparr>), default_mock)"
proof -
  have "vetted (codec_bundler cx) TEST_BASE_FEE 1700000000 happy_op happy_packed TEST_USER_OP_HASH default_mock default_mock"
    using vetted_happy [of default_mock]
    by (simp add: vetted_def codec_bundler_def demo_bundler_def mock_provider_def simulate_def)
  then have "process_ops (codec_externals cx) (codec_bundler cx) TEST_BASE_FEE 1700000000 0 [happy_op] empty_batch default_mock
          = Some (Done (batch_of [happy_op] [happy_packed] [TEST_USER_OP_HASH]), default_mock)"
    unfolding process_all_Done_iff by (intro exI [of _ "[happy_packed]"] exI [of _ "[TEST_USER_OP_HASH]"]) simp
  moreover have "price_batch (codec_externals cx) (codec_bundler cx) TEST_BASE_FEE TEST_TIP
        (batch_of [happy_op] [happy_packed] [TEST_USER_OP_HASH]) default_mock
      = Some (Done (demo_prepared\<lparr>pr_call_data := cx_encode_ops cx
         \<lparr> ho_ops = [happy_packed], ho_beneficiary = sg_address demo_signer \<rparr>\<rparr>), default_mock)"
    by (simp add: price_batch_def batch_of_def update_min_def pexpect_def choose_outer_fees_def min_u256_def
        max_u256_def sat_add_def handle_ops_call_data_def gas_with_margin_def demo_prepared_def codec_externals_def
        codec_bundler_def demo_defs prog_eval)
  ultimately show ?thesis
    by (simp add: prepare_def prog_simps check_request_def demo_opts_def unix_now_def)
       (simp add: codec_bundler_def demo_bundler_def mock_provider_def test_config_def demo_externals_def codec_externals_def
        prog_simps)
qed

lemma test_happy_path:
  assumes "decoders_invert cx"
  shows "happy_path_single_op_returns_signed_tx cx"
proof -
  have inv: "cx_decode_2718 cx (encoded_2718 (cx_consensus cx) env) = Some env" "cx_decode_ops cx (cx_encode_ops cx c) = Some c"
    for env c using assms by (simp_all add: decoders_invert_def)
  have "pbind (prepare (codec_externals cx) (codec_bundler cx) [happy_op] (demo_opts True)) k default_mock
      = k (demo_prepared\<lparr>pr_call_data := cx_encode_ops cx
         \<lparr> ho_ops = [happy_packed], ho_beneficiary = sg_address demo_signer \<rparr>\<rparr>) default_mock"
    for k :: "prepared \<Rightarrow> (MockProvider, BundlerError, SignedTxResp) prog"
    by (rule pbind_at) (rule prepare_codec)
  then show ?thesis
    unfolding happy_path_single_op_returns_signed_tx_def build_inner_def
    by (simp add: inv demo_tail codec_externals_def codec_bundler_def response_def test_config_def default_mock_def
        TEST_GAS_ESTIMATE_def TEST_CHAIN_ID_def happy_packed_def happy_op_def)
qed

lemma test_submits_raw: build_submits_raw_transaction_to_provider
  by (simp add: build_submits_raw_transaction_to_provider_def build_default_submit demo_sent_def raw_of_resp Let_def)

lemma test_sign_only: sign_only_does_not_broadcast
proof -
  have "be_bytes 32 (ucast TEST_NONCE :: u256) \<noteq> []" by (metis length_0_conv length_be_bytes zero_neq_numeral)
  then show ?thesis
    by (simp add: sign_only_does_not_broadcast_def build_default_sign_only resp_fields) (simp add: raw_of_resp)
qed

lemma test_follows_pending: sign_only_follows_builder_pending
  by (simp add: sign_only_follows_builder_pending_def build_happy_sign_only)

lemma build_send_fails:
  assumes "mk_deposit w = TEST_DEPOSIT" and "mk_fail_send w"
  shows "call [happy_op] (demo_opts True) w = Some (Fail (ProviderFailed (Transport ''nonce too low'')), w)"
  unfolding build_inner_def pbind_prepare_happy [OF assms(1)] using assms by (simp add: demo_tail)

lemma build_times_out:
  assumes "mk_deposit w = TEST_DEPOSIT" and "\<not> mk_fail_send w" and "mk_timeout_receipt w"
  shows "call [happy_op] (demo_opts True) w = Some (Fail (ReceiptTimeout (ucast (mk_pending_nonce w))), demo_sent w)"
  unfolding build_inner_def pbind_prepare_happy [OF assms(1)] using assms by (simp add: demo_tail)

lemma test_send_failure: send_failure_propagates_and_refetches_pending
  by (simp add: send_failure_propagates_and_refetches_pending_def build_send_fails build_happy_submit)

lemma sublistI: "hay = xs @ needle @ ys \<Longrightarrow> sublist needle hay"
  by (auto simp: sublist_def)

lemma test_receipt_timeout: receipt_timeout_propagates_and_refetches_pending
proof -
  have "sublist ''not found within timeout'' (display_BundlerError demo_formats (ReceiptTimeout h))" for h
    by (rule sublistI [of _ "''receipt for '' @ debug_b256 demo_formats h @ '' ''" _ "[]"]) simp
  then show ?thesis
    by (simp add: receipt_timeout_propagates_and_refetches_pending_def build_times_out build_happy_submit demo_sent_def)
qed

lemma test_wrong_chain: rejects_wrong_chain_id
proof -
  have "sublist ''wrong chainId'' (display_BundlerError demo_formats (WrongChainId a c))" for a c
    by (rule sublistI [of _ "[]"]) simp
  then show ?thesis
    by (simp add: rejects_wrong_chain_id_def build_inner_def prepare_def check_request_def pfail_def plift_def pbind_def
        demo_bundler_def test_config_def TEST_CHAIN_ID_def)
qed

lemma test_low_tip: rejects_priority_fee_below_minimum
proof -
  have "sublist ''priority fee'' (display_BundlerError demo_formats (PriorityFeeTooLow i got least))" for i got least
    by (rule sublistI [of _ "''op '' @ dec_string i @ '': ''"]) simp
  with build_cheap show ?thesis
    by (simp add: rejects_priority_fee_below_minimum_def cheap_op_def Let_def)
qed

lemma test_low_deposit: rejects_insufficient_deposit
proof -
  have "sublist ''insufficient deposit'' (display_BundlerError demo_formats (InsufficientDeposit i who required deposit))"
    for i who required deposit
    by (rule sublistI [of _ "''op '' @ dec_string i @ '': ''"]) simp
  with build_poor show ?thesis
    by (simp add: rejects_insufficient_deposit_def)
qed

text \<open>The model passes the nine sequential scenarios.\<close>

lemma integration_tests_pass:
  "(decoders_invert cx \<longrightarrow> happy_path_single_op_returns_signed_tx cx) \<and> rejects_wrong_chain_id \<and> rejects_priority_fee_below_minimum
   \<and> rejects_insufficient_deposit \<and> build_submits_raw_transaction_to_provider \<and> sign_only_does_not_broadcast
   \<and> sign_only_follows_builder_pending \<and> send_failure_propagates_and_refetches_pending
   \<and> receipt_timeout_propagates_and_refetches_pending"
  by (intro conjI impI test_happy_path test_wrong_chain test_low_tip test_low_deposit test_submits_raw test_sign_only
      test_follows_pending test_send_failure test_receipt_timeout)

end
