(* ===== verification/Concurrent_Test.thy ===== *)
theory Concurrent_Test
  imports Submit_Responses Integration_Tests "HOL-Library.Multiset"
begin

text \<open>
  The concurrent scenario of \<open>crates/bundler/tests/bundler_pipeline.rs\<close>: eight submits spawned
  over one bundler.  The test passes under every schedule of the runtime: each build succeeds,
  whatever the others do between its await points, and the nonces of the responses are the eight
  next ones.  The mock is the one of \<open>Pool_Properties\<close>; in every world of such a run its broadcast
  is that of the mocked execution layer.
\<close>

section \<open>Tasks in a steady world\<close>

text \<open>A task that returns a value with the property \<open>Q\<close> when every call is made in a world of \<open>I\<close>.\<close>

inductive gives :: "('w \<Rightarrow> bool) \<Rightarrow> ('a \<Rightarrow> bool) \<Rightarrow> ('w, 'e, 'a) task \<Rightarrow> bool" for I Q where
  gives_done: "Q x \<Longrightarrow> gives I Q (Return (Done x))"
| gives_await: "(\<And>w t w'. I w \<Longrightarrow> f w = Some (t, w') \<Longrightarrow> gives I Q t) \<Longrightarrow> gives I Q (Await f)"
| gives_acquire: "gives I Q t \<Longrightarrow> gives I Q (Acquire t)"
| gives_release: "gives I Q t \<Longrightarrow> gives I Q (Release t)"

inductive_simps gives_Return_iff [simp]: "gives I Q (Return r)"
inductive_simps gives_Await_iff: "gives I Q (Await f)"
inductive_simps gives_Acquire_iff [simp]: "gives I Q (Acquire t)"
inductive_simps gives_Release_iff [simp]: "gives I Q (Release t)"

lemma gives_tbind: "gives I Q t \<Longrightarrow> (\<And>x. Q x \<Longrightarrow> gives I R (k x)) \<Longrightarrow> gives I R (tbind t k)"
  by (induction rule: gives.induct) (auto simp: gives_Await_iff)

lemma gives_pure [simp]:
  "gives I Q (tret x) \<longleftrightarrow> Q x" "gives I Q (tlift (Inr x)) \<longleftrightarrow> Q x" "gives I Q (texpect msg (Some x)) \<longleftrightarrow> Q x"
  by (auto simp: tret_def tlift_def texpect_def)

lemma gives_tcall:
  "(\<And>w r w'. I w \<Longrightarrow> m w = Some (r, w') \<Longrightarrow> \<exists>x. r = Inr x \<and> Q x) \<Longrightarrow> gives I Q (tcall conv m)"
  by (force simp: tcall_def gives_Await_iff tlift_def tret_def)

lemma gives_tread: "(\<And>w. I w \<Longrightarrow> Q (g w)) \<Longrightarrow> gives I Q (tread g)"
  by (auto simp: tread_def gives_Await_iff)

text \<open>A call with one answer in every steady world.\<close>

lemma gives_call_then:
  "(\<And>w. I w \<Longrightarrow> \<exists>w'. m w = Some (Inr x, w')) \<Longrightarrow> gives I R (k x) \<Longrightarrow> gives I R (tbind (tcall conv m) k)"
  by (rule gives_tbind [where Q = "\<lambda>y. y = x"]) (force intro: gives_tcall)+

section \<open>The build of the test\<close>

definition steady :: "MockProvider \<Rightarrow> bool" where
  "steady w \<longleftrightarrow> mk_deposit w = TEST_DEPOSIT \<and> \<not> mk_fail_send w \<and> \<not> mk_timeout_receipt w
     \<and> mk_advance_pending_on_send w"

abbreviation ready :: "MockProvider \<Rightarrow> bool" where
  "ready w \<equiv> steady w \<and> mk_pending_nonce w \<noteq> - 1"

lemma strict_calls:
  "pv_base_fee (bd_provider strict_bundler) w = Some (Inr TEST_BASE_FEE, w)"
  "pv_max_priority_fee (bd_provider strict_bundler) w = Some (Inr TEST_TIP, w)"
  "pv_pending_nonce (bd_provider strict_bundler) a w = Some (Inr (mk_pending_nonce w), w)"
  "pv_balance_of (bd_provider strict_bundler) e a w = Some (Inr (mk_deposit w), w)"
  "pv_user_op_hash (bd_provider strict_bundler) e p w = Some (Inr TEST_USER_OP_HASH, w)"
  "pv_estimate_handle_ops_gas (bd_provider strict_bundler) s e d w = Some (Inr TEST_GAS_ESTIMATE, w)"
  "pv_simulate_validation (bd_provider strict_bundler) e c p w = Some (Inr mock_validation, w)"
  "pv_send_raw_transaction (bd_provider strict_bundler) raw = strict_send raw"
  "bd_cfg strict_bundler = test_config" "bd_signer strict_bundler = demo_signer"
  by (simp_all add: strict_bundler_def demo_bundler_def mock_provider_def)

lemma strict_receipt:
  "ready w \<Longrightarrow> \<exists>w'. pv_wait_for_receipt (bd_provider strict_bundler) h RECEIPT_TIMEOUT w
     = Some (Inr (Some \<lparr> rcpt_tx_hash = h, rcpt_block_number = 1, rcpt_success = True \<rparr>), w')"
  by (simp add: steady_def strict_bundler_def mock_provider_def)

lemma judge_mock: "\<exists>rep. judge 1700000000 mock_validation = Inr rep"
proof -
  from vetted_happy [of default_mock] have "\<exists>rep w w'. simulate (bd_provider demo_bundler) ENTRYPOINT_V07 [0x60]
      happy_packed 1700000000 w = Some (Done rep, w')"
    unfolding vetted_def by (auto simp: demo_bundler_def test_config_def)
  then show ?thesis
    by (auto simp: simulate_def demo_bundler_def mock_provider_def prog_simps plift_def pfail_def pret_def split: sum.splits)
qed

lemma gives_process:
  "gives ready (\<lambda>bt. bt = batch_of [happy_op] [happy_packed] [TEST_USER_OP_HASH])
     (process_ops_task demo_externals strict_bundler TEST_BASE_FEE 1700000000 0 [happy_op] empty_batch)"
proof -
  have fees: "check_per_op_fees test_config 0 happy_op TEST_BASE_FEE = Inr ()"
    by (simp add: check_per_op_fees_ok_iff demo_defs sat_add_def)
  have paymaster: "parse_paymaster_and_data (pk_paymasterAndData happy_packed) = Inr None"
    by (simp add: happy_packed_def parse_outcome)
  have deposit: "\<not> TEST_DEPOSIT < prefund_required happy_op 0 0"
    by (simp add: prefund_required_def demo_defs sat_add_def sat_mul_def)
  have prefund: "gives ready (\<lambda>_. True) (check_prefund_task demo_externals strict_bundler 0 happy_op happy_packed)"
    unfolding check_prefund_task_def Let_def paymaster
    by (auto simp: prefund_sponsor_def deposit strict_calls steady_def intro!: gives_tbind [where Q = "\<lambda>y. y = None"]
        gives_call_then [where x = TEST_DEPOSIT])
  obtain rep where rep: "judge 1700000000 mock_validation = Inr rep" using judge_mock by blast
  have sim: "gives ready (\<lambda>_. True) (simulate_task (bd_provider strict_bundler) e c p 1700000000)" for e c p
    unfolding simulate_task_def
    by (auto simp: strict_calls rep intro!: gives_call_then [where x = mock_validation])
  have "gives ready (\<lambda>bt. bt = batch_push empty_batch happy_op happy_packed TEST_USER_OP_HASH)
      (process_op_task demo_externals strict_bundler TEST_BASE_FEE 1700000000 0 happy_op empty_batch)"
    unfolding process_op_task_def strict_calls fees pack_happy map_sum.simps
    by (rule gives_tbind [where Q = "\<lambda>_. True"], simp,
        rule gives_tbind [where Q = "\<lambda>y. y = happy_packed"], simp, hypsubst,
        rule gives_tbind [OF prefund], rule gives_tbind [OF sim],
        rule gives_call_then [where x = TEST_USER_OP_HASH], simp_all add: strict_calls)
  then show ?thesis
    by (simp, rule_tac gives_tbind, assumption) (simp add: batch_of_def batch_push_def empty_batch_def update_min_def)
qed

lemma gives_prepare:
  "gives ready (\<lambda>pr. pr = demo_prepared) (prepare_task demo_externals strict_bundler [happy_op] (demo_opts True))"
proof -
  let ?bt = "batch_of [happy_op] [happy_packed] [TEST_USER_OP_HASH]"
  have req: "check_request test_config [happy_op] (demo_opts True) = Inr ()"
    by (simp add: check_request_def demo_opts_def test_config_def)
  have mins: "bt_min_user_tip ?bt = Some 2000000000" "bt_min_user_fee_cap ?bt = Some 5000000000"
    by (simp_all add: batch_of_mins happy_op_def)
  have fees: "choose_outer_fees test_config TEST_BASE_FEE TEST_TIP 2000000000 5000000000 = Inr (1000000000, 5000000000)"
    by (simp add: choose_outer_fees_def min_u256_def max_u256_def sat_add_def demo_defs)
  have pr: "\<lparr> pr_call_data = handle_ops_call_data demo_externals strict_bundler ?bt,
       pr_gas = gas_with_margin TEST_GAS_ESTIMATE (cfg_gas_margin_pct test_config), pr_outer_tip = 1000000000,
       pr_outer_fee_cap = 5000000000, pr_user_op_hashes = bt_user_op_hashes ?bt \<rparr> = demo_prepared"
    by (simp add: handle_ops_call_data_def batch_of_def demo_prepared_def gas_with_margin_def sat_add_def demo_defs)
  have "gives ready (\<lambda>pr. pr = demo_prepared) (price_batch_task demo_externals strict_bundler TEST_BASE_FEE TEST_TIP ?bt)"
    unfolding price_batch_task_def Let_def strict_calls mins
    by (rule gives_call_then [where x = TEST_GAS_ESTIMATE], simp add: strict_calls,
        simp add: fees pr texpect_def tlift_def tret_def)
  then have price: "gives ready (\<lambda>pr. pr = demo_prepared)
      (tbind (process_ops_task demo_externals strict_bundler TEST_BASE_FEE 1700000000 0 [happy_op] empty_batch)
        (price_batch_task demo_externals strict_bundler TEST_BASE_FEE TEST_TIP))"
    by (intro gives_tbind [OF gives_process]) simp
  have now: "unix_now (ext_system_time demo_externals w) = 1700000000" for w
    by (simp add: unix_now_def demo_externals_def)
  show ?thesis
    unfolding prepare_task_def strict_calls req
    by (rule gives_tbind [where Q = "\<lambda>_. True"], simp,
        rule gives_call_then [where x = TEST_BASE_FEE], simp add: strict_calls,
        rule gives_call_then [where x = TEST_TIP], simp add: strict_calls,
        rule gives_tbind [where Q = "\<lambda>x. x = 1700000000"], simp add: now gives_tread, simp only: price)
qed

lemma gives_build: "gives ready (\<lambda>_. True) (build_task demo_externals strict_bundler [happy_op] (demo_opts True))"
proof -
  have receipt: "gives ready (\<lambda>_. True) (await_receipt_task demo_externals strict_bundler pr hash)" for pr hash
    unfolding await_receipt_task_def
    by (rule gives_call_then [OF strict_receipt]) simp_all
  have send: "gives ready (\<lambda>_. True) (send_task demo_externals strict_bundler pr env)" for pr env
  proof -
    have "gives ready (\<lambda>_. True) (tcall ProviderFailed (pv_send_raw_transaction (bd_provider strict_bundler) raw))" for raw
      by (rule gives_tcall) (auto simp: strict_calls strict_send_def steady_def)
    then show ?thesis
      unfolding send_task_def Let_def by (rule gives_tbind) (simp, rule gives_tbind [OF receipt], simp)
  qed
  have sign: "gives ready (\<lambda>_. True) (sign_task strict_bundler demo_prepared nonce)" for nonce
  proof -
    obtain tx where tx: "build_tx test_config demo_prepared nonce = Inr tx"
      by (simp add: build_tx_outcome demo_prepared_def)
    show ?thesis unfolding sign_task_def strict_calls tx
      by (rule gives_tbind [where Q = "\<lambda>_. True"], simp, rule gives_tcall)
         (auto simp: demo_signer_def local_signer_def demo_keys_def)
  qed
  have "gives ready (\<lambda>_. True) (finish_task demo_externals strict_bundler (demo_opts True) demo_prepared)"
    unfolding finish_task_def Let_def
    by (auto simp: demo_opts_def strict_calls intro!: gives_tbind [OF sign] send gives_tbind [where Q = "\<lambda>_. True"] gives_tcall)
  then show ?thesis unfolding build_task_def by (intro gives_tbind [OF gives_prepare]) simp
qed

section \<open>The runs of the test\<close>

definition CONCURRENCY :: nat where "CONCURRENCY = 8"

text \<open>No request but the spawned ones arrives, and nobody cancels.\<close>

definition spawned :: "MockProvider pool \<Rightarrow> bool" where
  "spawned p \<longleftrightarrow> \<not> pl_cancelled p \<and> length (pl_jobs p) \<le> CONCURRENCY
     \<and> (\<forall>ops opts. Queued ops opts \<in> set (pl_jobs p) \<longrightarrow> ops = [happy_op] \<and> opts = demo_opts True)"

definition test_step :: "MockProvider pool \<Rightarrow> MockProvider pool \<Rightarrow> bool" where
  "test_step p p' \<longleftrightarrow> pool_step demo_externals strict_bundler (\<lambda>_ _. False) p p' \<and> spawned p'"

definition advancing_mock :: MockProvider where
  "advancing_mock = default_mock\<lparr>mk_advance_pending_on_send := True\<rparr>"

lemma test_run_submits: "test_step\<^sup>*\<^sup>* p p' \<Longrightarrow> (submit_step demo_externals strict_bundler (\<lambda>_ _. False) UNIV)\<^sup>*\<^sup>* p p'"
proof (rule rtranclp_mono [THEN predicate2D], rule predicate2I)
  fix p p' assume s: "test_step p p'"
  have "opts_submit opts" if "i < length (pl_jobs p')" "pl_jobs p' ! i = Queued ops opts" for i ops opts
  proof -
    have "Queued ops opts \<in> set (pl_jobs p')" using that by (metis nth_mem)
    with s have "opts = demo_opts True" by (simp add: test_step_def spawned_def)
    then show ?thesis by (simp add: demo_opts_def)
  qed
  with s show "submit_step demo_externals strict_bundler (\<lambda>_ _. False) UNIV p p'"
    by (auto simp: test_step_def submit_step_def)
qed

lemma test_run_spawned: "test_step\<^sup>*\<^sup>* (idle_pool w) p \<Longrightarrow> spawned p"
  by (induction rule: rtranclp_induct) (auto simp: test_step_def spawned_def idle_pool_def)

lemma strict_steady: "calls_obey strict_bundler (keeping steady)"
  unfolding calls_obey_def keeping_effect Let_def
  by (auto simp: strict_bundler_def demo_bundler_def mock_provider_def demo_signer_def local_signer_def strict_send_def
      steady_def split: prod.splits sum.splits if_splits)

text \<open>The pending nonce cannot have moved by more than the number of builds.\<close>

lemma traced_bound:
  assumes "traced sent nonce_of S c p" and "distinct (sent (pl_world p))"
  shows "length (sent (pl_world p)) \<le> length (pl_jobs p)"
proof -
  have "set (sent (pl_world p)) \<subseteq> (\<lambda>i. the (c i)) ` {..<length (pl_jobs p)}"
  proof
    fix n assume "n \<in> set (sent (pl_world p))"
    then obtain i where i: "c i = Some n" using assms(1) by (auto simp: traced_def)
    have "\<forall>i. length (pl_jobs p) \<le> i \<longrightarrow> c i = None" using assms(1) by (simp add: traced_def)
    with i have "i < length (pl_jobs p)" by (metis not_le option.distinct(1))
    with i show "n \<in> (\<lambda>i. the (c i)) ` {..<length (pl_jobs p)}" by force
  qed
  then have "card (set (sent (pl_world p))) \<le> length (pl_jobs p)"
    using card_image_le [of "{..<length (pl_jobs p)}" "\<lambda>i. the (c i)"] by (metis card_lessThan card_mono finite_imageI finite_lessThan le_trans)
  then show ?thesis using assms(2) by (simp add: distinct_card)
qed

lemma test_run_steady:
  assumes "test_step\<^sup>*\<^sup>* (idle_pool advancing_mock) p"
  shows "steady (pl_world p) \<and> strict_pending (pl_world p) \<le> 15"
proof -
  have start: "strict_sent advancing_mock = []" "strict_pending advancing_mock = 7" "steady advancing_mock"
    by (simp_all add: advancing_mock_def strict_sent_def strict_pending_def steady_def TEST_NONCE_def default_mock_def)
  have run: "(pool_step demo_externals strict_bundler (\<lambda>_ _. False))\<^sup>*\<^sup>* (idle_pool advancing_mock) p"
    by (rule submit_run [OF test_run_submits [OF assms]])
  have steady: "steady (pl_world p)" using world_kept [OF strict_steady _ start(3) run] by simp
  obtain c where "traced strict_sent strict_nonce UNIV c p"
    using rising.responses_traced [OF lawful_calls [OF strict_lawful] _ _ start(1) test_run_submits [OF assms]] start(1)
    by (auto simp: tidy_def)
  moreover have eq: "strict_sent (pl_world p) = [7 ..< strict_pending (pl_world p)]"
    using contiguous [OF strict_lawful _ start(1) strict_own_key _ run] start(2) by simp
  ultimately have "length (strict_sent (pl_world p)) \<le> length (pl_jobs p)" by (intro traced_bound) simp_all
  also have "\<dots> \<le> 8" using test_run_spawned [OF assms] by (simp add: spawned_def CONCURRENCY_def)
  finally show ?thesis using eq steady by simp
qed

text \<open>In these worlds the broadcast is the one of the mocked execution layer.\<close>

lemma test_run_ready: "test_step\<^sup>*\<^sup>* (idle_pool advancing_mock) p \<Longrightarrow> ready (pl_world p)"
  using test_run_steady [of p] by (auto simp: strict_pending_def unsigned_minus_1_eq_mask mask_eq_exp_minus_1)

lemma test_run_send:
  "test_step\<^sup>*\<^sup>* (idle_pool advancing_mock) p \<Longrightarrow> strict_send raw (pl_world p) = mock_send demo_decode raw (pl_world p)"
  using test_run_ready [of p] by (auto simp: steady_def intro: strict_send_is_mock)

text \<open>Each job is on its way to a response.\<close>

definition succeeding :: "MockProvider job \<Rightarrow> bool" where
  "succeeding j = (case j of
      Queued ops opts \<Rightarrow> ops = [happy_op] \<and> opts = demo_opts True
    | Running t \<Rightarrow> gives ready (\<lambda>_. True) t
    | Finished r \<Rightarrow> (\<exists>resp. r = Done resp))"

lemma succeeding_simps [simp]:
  "succeeding (Queued ops opts) \<longleftrightarrow> ops = [happy_op] \<and> opts = demo_opts True"
  "succeeding (Running t) \<longleftrightarrow> gives ready (\<lambda>_. True) t" "succeeding (Finished r) \<longleftrightarrow> (\<exists>resp. r = Done resp)"
  by (simp_all add: succeeding_def)

lemma succeeding_step:
  assumes "\<forall>j \<in> set (pl_jobs p). succeeding j" and "ready (pl_world p)" and "\<not> pl_cancelled p" and "test_step p p'"
  shows "\<forall>j \<in> set (pl_jobs p'). succeeding j"
proof -
  from assms(4) have step: "pool_step demo_externals strict_bundler (\<lambda>_ _. False) p p'" and sp: "spawned p'"
    by (simp_all add: test_step_def)
  have at: "succeeding (pl_jobs p ! i)" if "i < length (pl_jobs p)" for i using assms(1) that by simp
  have upd: "\<forall>k \<in> set ((pl_jobs p)[i := j]). succeeding k" if "succeeding j" for i j
    using assms(1) that set_update_subset_insert [of "pl_jobs p" i j] by blast
  from step show ?thesis
  proof cases
    case (arrive ops opts)
    then have "ops = [happy_op] \<and> opts = demo_opts True" using sp by (simp add: spawned_def)
    then show ?thesis using arrive assms(1) by auto
  next
    case (start i ops opts)
    with at [of i] upd [of "Running (build_task demo_externals strict_bundler ops opts)" i] gives_build
    show ?thesis by simp
  next
    case (answer i f t w')
    then have "gives ready (\<lambda>_. True) (Await f)" using at [of i] by simp
    then have "gives ready (\<lambda>_. True) t" unfolding gives_Await_iff using assms(2) answer(5) by blast
    with upd [of "Running t" i] answer(1) show ?thesis by simp
  next
    case (lock i t)
    with at [of i] upd [of "Running t" i] show ?thesis by simp
  next
    case (unlock i t)
    with at [of i] upd [of "Running t" i] show ?thesis by simp
  next
    case (finish i r)
    with at [of i] upd [of "Finished r" i] show ?thesis by simp
  qed (use assms(3) sp in \<open>simp_all add: spawned_def\<close>)
qed

lemma test_run_succeeds: "test_step\<^sup>*\<^sup>* (idle_pool advancing_mock) p \<Longrightarrow> \<forall>j \<in> set (pl_jobs p). succeeding j"
proof (induction rule: rtranclp_induct)
  case base
  show ?case by (simp add: idle_pool_def)
next
  case (step p p')
  show ?case
    using succeeding_step [OF step.IH test_run_ready [OF step(1)] _ step(2)] test_run_spawned [OF step(1)]
    by (simp add: spawned_def)
qed

section \<open>The assertion\<close>

fun unwrapped :: "'w job list \<Rightarrow> SignedTxResp list option" where
  "unwrapped [] = Some []"
| "unwrapped (Finished (Done resp) # js) = map_option (Cons resp) (unwrapped js)"
| "unwrapped (_ # js) = None"

definition submit_mode_serializes_concurrent_nonces :: "MockProvider pool \<Rightarrow> bool" where
  "submit_mode_serializes_concurrent_nonces p =
     (case unwrapped (pl_jobs p) of
        Some resps \<Rightarrow>
          (let nonces = map (\<lambda>resp. decode_eip1559_nonce demo_decode_2718 (resp_raw resp)) resps in
           list_all (\<lambda>n. n \<noteq> None) nonces
           \<and> sort (map the nonces) = map (\<lambda>k. TEST_NONCE + of_nat k) [0 ..< CONCURRENCY])
      | None \<Rightarrow> False)"

lemma unwrapped_done: "unwrapped (map (\<lambda>resp. Finished (Done resp)) resps) = Some resps"
  by (induction resps) simp_all

lemma decoded_nonce: "decode_eip1559_nonce demo_decode_2718 raw = Some (of_nat (strict_nonce raw))"
proof -
  have "(be_word raw :: u64) = ucast (be_word raw :: u256)"
    by (rule bit_word_eqI) (auto simp: bit_be_word_iff bit_simps)
  then show ?thesis by (simp add: decode_eip1559_nonce_def demo_decode_2718_def strict_nonce_def)
qed

text \<open>Once the eight handles are joined, the assertion of the test holds.\<close>

lemma test_concurrent_nonces:
  assumes "test_step\<^sup>*\<^sup>* (idle_pool advancing_mock) p" and "length (pl_jobs p) = CONCURRENCY"
    and "\<forall>j \<in> set (pl_jobs p). \<exists>r. j = Finished r"
  shows "submit_mode_serializes_concurrent_nonces p"
proof -
  have "\<forall>j \<in> set (pl_jobs p). \<exists>resp. j = Finished (Done resp)"
    using test_run_succeeds [OF assms(1)] assms(3) by fastforce
  then obtain resps where jobs: "pl_jobs p = map (\<lambda>resp. Finished (Done resp)) resps" by (metis ex_map_conv)
  have start: "strict_sent advancing_mock = []" "strict_pending advancing_mock = 7"
    by (simp_all add: advancing_mock_def strict_sent_def strict_pending_def TEST_NONCE_def default_mock_def)
  have "sort (map (\<lambda>resp. strict_nonce (resp_raw resp)) resps) = [7 ..< 7 + length resps]"
    using submits_tile [OF strict_lawful _ start(1) strict_own_key _ test_run_submits [OF assms(1)] jobs] start(2) by simp
  moreover have "length resps = 8" using assms(2) jobs by (simp add: CONCURRENCY_def)
  ultimately have "sort (map (\<lambda>resp. strict_nonce (resp_raw resp)) resps) = [7 ..< 15]" by simp
  then have "mset (map (\<lambda>resp. strict_nonce (resp_raw resp)) resps) = mset [7 ..< 15]" by (metis mset_sort)
  then have "image_mset (of_nat :: nat \<Rightarrow> u64) (mset (map (\<lambda>resp. strict_nonce (resp_raw resp)) resps))
      = image_mset of_nat (mset [7 ..< 15])" by (rule arg_cong)
  then have "mset (map (\<lambda>resp. of_nat (strict_nonce (resp_raw resp)) :: u64) resps) = mset (map (\<lambda>k. of_nat k :: u64) [7 ..< 15])"
    by (simp add: image_mset.compositionality comp_def)
  then have "sort (map (\<lambda>resp. of_nat (strict_nonce (resp_raw resp)) :: u64) resps) = sort (map (\<lambda>k. of_nat k :: u64) [7 ..< 15])"
    by (metis properties_for_sort sorted_sort mset_sort)
  also have "\<dots> = map (\<lambda>k. TEST_NONCE + of_nat k) [0 ..< CONCURRENCY]"
    by (simp add: upt_rec TEST_NONCE_def CONCURRENCY_def)
  finally show ?thesis by (simp add: submit_mode_serializes_concurrent_nonces_def jobs unwrapped_done decoded_nonce Let_def comp_def list_all_iff)
qed

section \<open>One run of the test\<close>

text \<open>The builds one after the other: the runs above are not empty.\<close>

lemma closed_test_run:
  assumes "(pool_step demo_externals strict_bundler (\<lambda>_ _. False))\<^sup>*\<^sup>* p p'" and "spawned p"
    and "length (pl_jobs p') = length (pl_jobs p)" and "\<not> pl_cancelled p'"
  shows "test_step\<^sup>*\<^sup>* p p'"
  using assms
proof (induction rule: converse_rtranclp_induct)
  case (step p p1)
  from jobs_never_shrink [OF step(1)] run_never_shrinks [OF step(2)] step.prems(2)
  have len: "length (pl_jobs p1) = length (pl_jobs p)" "length (pl_jobs p') = length (pl_jobs p1)" by simp_all
  have "\<not> pl_cancelled p1"
    using step(2) step.prems(3) by (induction rule: converse_rtranclp_induct) (auto dest: cancelled_stays)
  moreover have "ops = [happy_op] \<and> opts = demo_opts True" if "Queued ops opts \<in> set (pl_jobs p1)" for ops opts
  proof -
    have "Queued ops opts \<in> set (pl_jobs p)"
      using step(1) that len(1) by cases (auto dest: set_update_subset_insert [THEN subsetD])
    with step.prems(1) show ?thesis by (simp add: spawned_def)
  qed
  ultimately have "spawned p1" using step.prems(1) len by (simp add: spawned_def)
  with step(1) step.IH [OF this len(2) step.prems(3)] show ?case
    by (auto simp: test_step_def intro: converse_rtranclp_into_rtranclp)
qed simp

fun serial_world :: "nat \<Rightarrow> MockProvider" where
  "serial_world 0 = advancing_mock"
| "serial_world (Suc k) = strict_after (serial_world k)"

definition serial :: "nat \<Rightarrow> MockProvider pool" where
  "serial k = \<lparr> pl_world = serial_world k, pl_lock = None,
     pl_jobs = map (\<lambda>i. Finished (Done (demo_resp (7 + of_nat i)))) [0 ..< k]
               @ replicate (CONCURRENCY - k) (Queued [happy_op] (demo_opts True)),
     pl_cancelled = False, pl_polled = {} \<rparr>"

lemma serial_world_fields:
  "mk_deposit (serial_world k) = TEST_DEPOSIT" "\<not> mk_timeout_receipt (serial_world k)"
  "\<not> mk_fail_send (serial_world k)" "mk_pending_nonce (serial_world k) = 7 + of_nat k"
  by (induction k) (simp_all add: advancing_mock_def strict_after_def TEST_NONCE_def)

lemma serial_step:
  assumes "k < CONCURRENCY"
  shows "(pool_step demo_externals strict_bundler (\<lambda>_ _. False))\<^sup>*\<^sup>* (serial k) (serial (Suc k))"
proof -
  have "k \<in> {0 ..< 8}" using assms by (simp add: CONCURRENCY_def)
  then have "(7 + of_nat k :: u64) \<noteq> - 1" by (auto simp: atLeastLessThan_nat_numeral)
  then have "build_inner demo_externals strict_bundler [happy_op] (demo_opts True) (pl_world (serial k))
      = Some (Done (demo_resp (7 + of_nat k)), serial_world (Suc k))"
    using build_strict [of "serial_world k"] by (simp add: serial_def serial_world_fields)
  moreover have "replicate (CONCURRENCY - k) j = j # replicate (CONCURRENCY - Suc k) j" for j :: "MockProvider job"
    using assms by (metis Suc_diff_Suc replicate_Suc)
  then have jobs: "pl_jobs (serial k) = map (\<lambda>i. Finished (Done (demo_resp (7 + of_nat i)))) [0 ..< k]
      @ Queued [happy_op] (demo_opts True) # replicate (CONCURRENCY - Suc k) (Queued [happy_op] (demo_opts True))"
    by (simp add: serial_def)
  then have "k < length (pl_jobs (serial k))" "pl_jobs (serial k) ! k = Queued [happy_op] (demo_opts True)"
    by (simp_all add: nth_append)
  ultimately have "(pool_step demo_externals strict_bundler (\<lambda>_ _. False))\<^sup>*\<^sup>* (serial k)
      (serial k\<lparr>pl_world := serial_world (Suc k), pl_jobs := (pl_jobs (serial k))[k := Finished (Done (demo_resp (7 + of_nat k)))]\<rparr>)"
    by (intro queued_job_runs) (simp_all add: serial_def)
  moreover have "serial k\<lparr>pl_world := serial_world (Suc k), pl_jobs := (pl_jobs (serial k))[k := Finished (Done (demo_resp (7 + of_nat k)))]\<rparr>
      = serial (Suc k)"
    unfolding jobs by (simp add: serial_def list_update_append)
  ultimately show ?thesis by simp
qed

lemma test_runs: "\<exists>p. test_step\<^sup>*\<^sup>* (idle_pool advancing_mock) p \<and> pl_jobs p = pl_jobs (serial CONCURRENCY)"
proof -
  let ?step = "pool_step demo_externals strict_bundler (\<lambda>_ _. False)" and ?q = "Queued [happy_op] (demo_opts True)"
  have arrive: "test_step\<^sup>*\<^sup>* (idle_pool advancing_mock) ((idle_pool advancing_mock)\<lparr>pl_jobs := replicate k ?q\<rparr>)"
    if "k \<le> CONCURRENCY" for k
    using that
  proof (induction k)
    case 0
    then show ?case by (simp add: idle_pool_def)
  next
    case (Suc k)
    let ?p = "(idle_pool advancing_mock)\<lparr>pl_jobs := replicate k ?q\<rparr>"
    have "?step ?p (?p\<lparr>pl_jobs := pl_jobs ?p @ [?q]\<rparr>)" by (rule pool_step.arrive)
    then have "test_step ?p ((idle_pool advancing_mock)\<lparr>pl_jobs := replicate (Suc k) ?q\<rparr>)"
      using Suc.prems by (auto simp: test_step_def spawned_def idle_pool_def replicate_append_same [symmetric])
    with Suc show ?case by (auto intro: rtranclp.rtrancl_into_rtrancl)
  qed
  have start: "(idle_pool advancing_mock)\<lparr>pl_jobs := replicate CONCURRENCY ?q\<rparr> = serial 0"
    by (simp add: serial_def idle_pool_def)
  have "k \<le> CONCURRENCY \<Longrightarrow> ?step\<^sup>*\<^sup>* (serial 0) (serial k)" for k
  proof (induction k)
    case (Suc k)
    then show ?case using rtranclp_trans [OF _ serial_step [of k]] by simp
  qed simp
  from closed_test_run [OF this [OF order_refl]]
  have "test_step\<^sup>*\<^sup>* (serial 0) (serial CONCURRENCY)" by (simp add: serial_def spawned_def)
  with arrive [OF order_refl] start show ?thesis by (metis rtranclp_trans)
qed

end
