(* ===== verification/Spec2Isabelle.thy ===== *)
theory Spec2Isabelle
  imports Startup_Log Acceptance Every_Schedule Wire_Service Contracts Unit_Tests Concurrent_Test
begin

text \<open>
  Verification of ethera-bundler, an ERC-4337 v0.7 bundler: a JSON-RPC service that takes a batch of
  user operations, vets and prices it, signs one \<open>handleOps\<close> transaction with the sequencer key and,
  unless asked for a signature only, broadcasts it and waits for its receipt.

  \<^bold>\<open>The program and its model.\<close>  The library crate is \<open>crates/bundler/src\<close>, the binary
  \<open>bin/ethera-bundler/src\<close>.  A request travels from the server (\<open>rpc.rs\<close>) to the bundler
  (\<open>bundler.rs\<close>), which packs each operation (\<open>packing.rs\<close>), asks the node about deposit and
  validation (\<open>provider.rs\<close>, \<open>validator.rs\<close>), signs (\<open>signer.rs\<close>), and reports failures with the codes
  of \<open>errors.rs\<close>.

  \<^item> \<open>Bundler_Prelude\<close>: machine integers as words, big-endian byte strings, saturating arithmetic,
    number formatting, and the effect type \<open>prog\<close>.  A program maps a world to \<open>Some\<close> of a result
    (value, error or panic) and a new world, or to \<open>None\<close> when a call inside it never returns.
    The locale \<open>fixed_codec\<close> is the contract of the fixed-width encodings.
  \<^item> \<open>Wire_Types\<close>: the records of \<open>types.rs\<close>, \<open>contracts.rs\<close> and \<open>config.rs\<close>.  \<open>Contracts\<close>: the
    \<open>sol!\<close> declarations with their member types, calls and errors.  \<open>Wire_Json\<close>: the JSON form
    serde derives for \<open>UserOpV07\<close>, \<open>BuildOpts\<close> and \<open>SignedTxResp\<close>.  \<open>Json_Values\<close>: the JSON values
    themselves.  \<open>Cli_Config\<close>: the flags, variables and defaults of \<open>config.rs\<close> and the
    configuration clap builds from them.
  \<^item> \<open>Packing\<close>: every function of \<open>packing.rs\<close> on bytes.
  \<^item> \<open>Provider\<close>: the trait \<open>EthProvider\<close> as a record of calls.  \<open>Alloy_Provider\<close>: its production
    implementation with the receipt loop; alloy's own provider is the record \<open>RootProvider\<close>.
  \<^item> \<open>Validator\<close>: \<open>parse_window\<close>, the window predicates and \<open>simulate\<close>, whose decision on an
    answered simulation is \<open>judge\<close>.
  \<^item> \<open>Signer\<close>: the trait, the local signer and the EIP-1559 transaction.
  \<^item> \<open>Errors\<close>: the error type with its texts, \<open>classify\<close>, and the decoder of \<open>handleOps\<close> reverts.
    The locale \<open>error_classifier\<close> states what every classifier promises a client.
  \<^item> \<open>Bundler\<close>: \<open>build_inner\<close> and its helpers in direct style, in the order of the source.
  \<^item> \<open>Build_Task\<close>: the same build as a task with its await points, the submit lock and its guard.
    \<open>Submit_Pool\<close>: any number of builds over one bundler, their interleaving, the lock and the
    cancellation race of \<open>build_signed_user_ops_tx\<close>, as the step relation \<open>pool_step\<close>.  The race
    looks at the token once per poll, so the builds in the middle of a poll when the token fires
    (\<open>pl_polled\<close>) may still pass await points that are ready.  A call of the provider or the signer,
    the receipt wait included, is one step.
    The locale \<open>step_invariant\<close> carries all invariants of step relations.  \<open>Task_Calls\<close>: what a
    predicate on the effect of every call of a bundler means for its builds in the pool.
  \<^item> \<open>Service\<close>: the reply of \<open>rpc.rs\<close>, the methods of \<open>discovery.rs\<close>, the probe of \<open>startup.rs\<close> and the
    set-up of \<open>main.rs\<close>.  \<open>Lifecycle\<close>: the method table and the process from start to exit, as the
    step relation \<open>main_step\<close>.  \<open>Startup_Log\<close>: the start from the command line with every event it
    logs, and the CORS layer.  \<open>Wire_Service\<close>: a call from the JSON of its parameters to the JSON of
    its reply.
  \<^item> \<open>Test_Fixture\<close>: the mocked node and the inputs of \<open>tests/bundler_pipeline.rs\<close>, at which the
    hypotheses of the properties are shown to hold.  \<open>Unit_Tests\<close>: the unit tests of the library crate,
    translated with their inputs and assertions.  \<open>Integration_Tests\<close> and \<open>Concurrent_Test\<close>: the ten
    scenarios of \<open>tests/bundler_pipeline.rs\<close>, run on the model, the concurrent one under every
    schedule.

  \<^bold>\<open>What is shown.\<close>

  \<^item> \<open>Pipeline\<close> and \<open>Pipeline_Properties\<close>: what a successful build guarantees to each user (fees
    within the signed limits, vetting, the signed transaction) and what each error says.
    \<open>Fee_Policy\<close>: the prefund against the ERC-4337 formula, the gas margin, the pricing of a vetted
    batch.  \<open>Acceptance\<close>: the conditions under which a build succeeds, necessary and sufficient, and
    the submit mode as signing followed by the broadcast.
  \<^item> \<open>Wire_Json\<close> and \<open>Json_Typing\<close>: what is written is read back, and a document is read exactly when
    it is well typed.  \<open>Wire_Service\<close>: a client that serialises its request gets the outcome of the
    pipeline back.  \<open>Cli_Config\<close>: what the operator gets for what is given and what is left unset.
  \<^item> \<open>Build_Task\<close>: the task run alone is the direct-style pipeline.  \<open>Nonce_Order\<close>: what the nonces
    owe to the submit lock, argued once in the locale \<open>nonce_rules\<close> and interpreted on two kinds of
    node: over a node whose pending nonce never falls (\<open>lawful_node\<close>) the broadcast nonces increase
    strictly; over a node that may release reservations but does not offer an accepted nonce again
    (\<open>fresh_node\<close>) they are distinct.  \<open>Pool_Properties\<close>: the first of these for every interleaving,
    the bound on the section under the lock, and a request in the pool is served as the pipeline
    serves it.  \<open>Nonce_Gaps\<close>: over a node used by no one else the broadcast nonces have no gap.
    \<open>Submit_Responses\<close>: each accepted nonce is traced to its build, so no two submits return the same.
    \<open>Every_Schedule\<close>: a schedule that neglects no job which can move again and again answers every
    request, while others keep arriving; the proof is a well-founded order on what is left of a
    task.  \<open>Task_Outcomes\<close>: the fee limits hold, and no build panics, whatever happens between await points.
  \<^item> \<open>Alloy_Properties\<close>: the receipt wait ends and reports what the node said; a build over a node
    that answers ends.
  \<^item> \<open>Lifecycle\<close>: the process serves only after its set-up, and after an interrupt a clean exit
    can always be reached, wedged calls or not.  \<open>Startup_Log\<close>: the log aside, the start is the set-up
    of \<open>Lifecycle\<close>; log and exit error show nothing of the key but its address or the reason of its refusal.
  \<^item> \<open>Contracts\<close>: the records are the Solidity types, value for value, and the signatures are those of
    the v0.7 EntryPoint.
  \<^item> This theory: the properties that need several components at once, over a concrete service.

  \<^bold>\<open>Bounds.\<close>  No fuel is used.  The receipt loop is a \<open>partial_function\<close> on options; with the
  backoff of 200 ms doubling to 2 s and the timeout of 30 s it polls at most 19 times
  (\<open>max_polls_30s\<close>).  The multiplication in \<open>gas_with_margin\<close> wraps at 64 bits, as release
  arithmetic does, and the debug assertion on the broadcast hash is absent, as it is in a release
  build.  A clock before the epoch reads as zero, as in \<open>unix_now\<close>.

  \<^bold>\<open>Parameters.\<close>  Code outside the repository appears as arguments: alloy's RPC client, ABI coders,
  key type, transaction encoding and value formats; keccak and the simulations bytecode that
  \<open>contracts.rs\<close> embeds; the JSON forms of its values (\<open>value_codecs\<close>,
  with the hypothesis \<open>faithful\<close>); the node's view of nonces (\<open>lawful_node\<close>, \<open>fresh_node\<close>); the scheduling of the runtime
  (\<open>attentive\<close>, which the fairness of tokio's scheduler and mutex promises); jsonrpsee's module and
  listener (\<open>host\<close>, with \<open>lawful_merge\<close>) and its reading of parameters (\<open>rpc_framework\<close>, with
  \<open>positional\<close>); clap's resolution of an argument and the value parsers (\<open>cli_sources\<close>,
  \<open>value_parsers\<close>, with \<open>clap_resolves\<close> and \<open>reads_defaults\<close>); the encoders and decoders the tests call
  (\<open>codec\<close>, with \<open>decoders_invert\<close>); the system clock.  That a stopped server has answered the requests it
  accepted (\<open>drained\<close>) is jsonrpsee's documented behaviour.  The order in which tokio grants the lock is
  left open: \<open>pool_step\<close> lets any waiter take a free lock.

  \<^bold>\<open>Not modelled.\<close>  What is left is not code of the repository: the byte layout of ABI and EIP-2718
  encodings and of signatures (alloy), the text and order of clap's usage errors, the filtering and
  rendering of log events (tracing), request framing and the HTTP headers of CORS (jsonrpsee, tower),
  and the EVM code of the simulation.  \<open>lib.rs\<close> only lists modules.  Memory orderings of the mocked
  execution layer's atomics are taken as sequentially consistent.  JSON numbers with a fraction or an
  exponent are not JSON values of the model.
\<close>

section \<open>A service over the example node\<close>

definition node_externals :: "demo_node externals" where
  "node_externals =
     \<lparr> ext_formats = demo_formats, ext_abi_errors = demo_abi_errors, ext_consensus = demo_consensus,
       ext_handleOps_abi_encode = (\<lambda>c. replicate (length (ho_ops c)) 0),
       ext_system_time = (\<lambda>w. int (dn_clock w)) \<rparr>"

definition node_service :: "demo_node service" where
  "node_service = \<lparr> sv_bundler = \<lparr> bd_cfg = test_config, bd_provider = alloy_provider demo_root,
       bd_signer = local_signer demo_keys \<lparr> ls_inner = cfg_sequencer_key test_config \<rparr>, bd_simulations_code = [0x60] \<rparr>,
     sv_discovery = discovery_new ''0.1.0'' TEST_CHAIN_ID ENTRYPOINT_V07 \<rparr>"

definition mined_world :: demo_node where
  "mined_world = \<lparr> dn_clock = from_secs 1, dn_polls = 0, dn_mined_at = 0 \<rparr>"

lemmas alloy_calls = alloy_provider_def alloy_chain_id_def alloy_base_fee_def alloy_max_priority_fee_def
  alloy_pending_nonce_def alloy_balance_def alloy_get_code_def alloy_balance_of_def alloy_user_op_hash_def
  alloy_estimate_handle_ops_gas_def alloy_send_raw_transaction_def alloy_try_call_for_revert_def
  alloy_simulate_validation_def rpc_then_def transport_def demo_answer_def

lemma node_calls:
  "pv_chain_id (alloy_provider demo_root) w = Some (Inr 31337, w)"
  "pv_get_code (alloy_provider demo_root) a w = Some (Inr [0x60], w)"
  "pv_balance (alloy_provider demo_root) a w = Some (Inr 1000000000000000000, w)"
  "pv_base_fee (alloy_provider demo_root) w = Some (Inr 1000000000, w)"
  "pv_max_priority_fee (alloy_provider demo_root) w = Some (Inr 1000000000, w)"
  "pv_pending_nonce (alloy_provider demo_root) a w = Some (Inr 7, w)"
  "pv_balance_of (alloy_provider demo_root) e a w = Some (Inr 1000000000000000000, w)"
  "pv_user_op_hash (alloy_provider demo_root) e p w = Some (Inr 5, w)"
  "pv_estimate_handle_ops_gas (alloy_provider demo_root) s e d w = Some (Inr 250000, w)"
  "pv_send_raw_transaction (alloy_provider demo_root) raw w = Some (Inr (be_word raw), w)"
  "pv_simulate_validation (alloy_provider demo_root) e c p w = Some (Inr mock_validation, w)"
  by (simp_all add: alloy_calls demo_root_def)

lemma node_main_runs:
  "main_service Inr (\<lambda>_. demo_root) demo_keys (\<lambda>a. hex_string (unat a)) demo_formats [0x60] ''0.1.0'' test_config w
     = Some (Done node_service, w)"
  by (simp add: main_service_def alloy_new_def local_signer_from_key_def demo_keys_def
      probe_def node_calls bundler_with_cancellation_def node_service_def test_config_def TEST_CHAIN_ID_def prog_eval)

lemma node_vets: "vetted (sv_bundler node_service) 1000000000 1 happy_op happy_packed 5 w w"
proof -
  have "check_per_op_fees test_config 0 happy_op 1000000000 = Inr ()"
    by (simp add: check_per_op_fees_ok_iff demo_defs sat_add_def)
  moreover have "prefund_required happy_op 0 0 \<le> 1000000000000000000"
    by (simp add: prefund_required_def demo_defs sat_add_def sat_mul_def)
  moreover have "parse_paymaster_and_data (pk_paymasterAndData happy_packed) = Inr None"
    by (simp add: happy_packed_def parse_outcome)
  ultimately show ?thesis
    by (auto simp: vetted_def pack_happy prefund_sponsor_def simulate_Done_iff demo_admits node_service_def
        node_calls mock_validation_def)
qed

lemma node_bundler:
  "bd_cfg (sv_bundler node_service) = test_config"
  "bd_provider (sv_bundler node_service) = alloy_provider demo_root"
  "sg_sign_eip1559 (bd_signer (sv_bundler node_service)) tx v = Some (Inr (Eip1559 tx (1, 1, False)), v)"
  by (simp_all add: node_service_def local_signer_def demo_keys_def)

lemma node_prepares:
  "\<exists>pr. prepare node_externals (sv_bundler node_service) [happy_op] (demo_opts True) mined_world
          = Some (Done pr, mined_world)
     \<and> pr_outer_fee_cap pr = 5000000000 \<and> pr_outer_tip pr = 1000000000"
proof -
  let ?b = "sv_bundler node_service"
  have ops: "process_ops node_externals ?b 1000000000 1 0 [happy_op] empty_batch mined_world
          = Some (Done (batch_of [happy_op] [happy_packed] [5]), mined_world)"
    unfolding process_all_Done_iff using node_vets
    by (intro exI [of _ "[happy_packed]"] exI [of _ "[5]"]) simp
  obtain pr where price: "price_batch node_externals ?b 1000000000 1000000000
        (batch_of [happy_op] [happy_packed] [5]) mined_world = Some (Done pr, mined_world)"
    and pr: "pr_outer_fee_cap pr = 5000000000" "pr_outer_tip pr = 1000000000"
    by (simp add: price_batch_def batch_of_def update_min_def pexpect_def choose_outer_fees_def min_u256_def
        max_u256_def sat_add_def node_bundler node_calls prog_eval happy_op_def test_config_def)
  have req: "check_request (bd_cfg ?b) [happy_op] (demo_opts True) = Inr ()"
    by (simp add: check_request_def node_bundler demo_opts_def test_config_def)
  have fees: "pcall ProviderFailed (pv_base_fee (bd_provider ?b)) w = Some (Done 1000000000, w)"
    "pcall ProviderFailed (pv_max_priority_fee (bd_provider ?b)) w = Some (Done 1000000000, w)" for w
    by (simp_all add: node_bundler node_calls pcall_def)
  have clock: "unix_now (ext_system_time node_externals mined_world) = 1"
    by (simp add: unix_now_def node_externals_def mined_world_def from_secs_def)
  have "prepare node_externals ?b [happy_op] (demo_opts True) mined_world = Some (Done pr, mined_world)"
    unfolding prepare_def
    by (simp add: req fees clock ops price pbind_at pret_def del: process_ops.simps)
  with pr show ?thesis by blast
qed

lemma node_builds:
  "\<exists>resp w'. build_inner node_externals (sv_bundler node_service) [happy_op] (demo_opts True) mined_world
     = Some (Done resp, w')"
proof -
  obtain pr where prep: "prepare node_externals (sv_bundler node_service) [happy_op] (demo_opts True) mined_world
      = Some (Done pr, mined_world)" and pr: "pr_outer_fee_cap pr = 5000000000" "pr_outer_tip pr = 1000000000"
    using node_prepares by blast
  have "pv_wait_for_receipt (alloy_provider demo_root) h RECEIPT_TIMEOUT mined_world
      = Some (Inr (Some \<lparr> rcpt_tx_hash = h, rcpt_block_number = 9, rcpt_success = True \<rparr>),
              mined_world\<lparr>dn_clock := from_secs 1 + from_millis 1, dn_polls := 1\<rparr>)" for h
    by (simp add: alloy_provider_def alloy_wait_for_receipt_def poll_receipt.simps transport_def demo_root_def
        receipt_info_def mined_world_def)
  moreover obtain tx where "build_tx test_config pr 7 = Inr tx" using pr by (simp add: build_tx_outcome)
  ultimately show ?thesis
    using prep
    by (simp add: build_inner_def sign_at_nonce_def await_receipt_def node_bundler node_calls demo_opts_def prog_eval
        Let_def)
qed

section \<open>Properties that span components\<close>

text \<open>
  C6. A submitted bundle is on chain when the client gets its response: over the production
  provider, a successful build in submit mode means that the node accepted the raw transaction of
  the response and returned, for the hash of the response, a receipt with a success status.
\<close>

theorem submitted_bundle_is_on_chain:
  assumes "build_inner ext b ops opts w = Some (Done resp, w')" and "opts_submit opts"
    and "bd_provider b = alloy_provider rp"
  shows "(\<exists>h w1 w2. rp_send_raw_transaction rp (resp_raw resp) w1 = Some (Inr h, w2))
     \<and> (\<exists>v rc. rp_get_transaction_receipt rp (resp_hash resp) v = Some (Inr (Some rc), w') \<and> rc_status rc)"
  using assms(1)
proof (rule build_inner_Done)
  fix pr nonce tx env w1 w2 w3
  assume resp: "resp = response (bd_cfg b) pr (encoded_2718 (ext_consensus ext) env) (envelope_tx_hash (ext_consensus ext) env)"
    and sub: "if opts_submit opts
     then (\<exists>submitted receipt w4.
             pv_send_raw_transaction (bd_provider b) (encoded_2718 (ext_consensus ext) env) w3 = Some (Inr submitted, w4)
             \<and> pv_wait_for_receipt (bd_provider b) (envelope_tx_hash (ext_consensus ext) env) RECEIPT_TIMEOUT w4
                 = Some (Inr (Some receipt), w')
             \<and> rcpt_success receipt)
     else w' = w3"
  from sub assms(2,3) resp obtain h receipt w4 where
    send: "alloy_send_raw_transaction rp (resp_raw resp) w3 = Some (Inr h, w4)"
    and wait: "alloy_wait_for_receipt rp (resp_hash resp) RECEIPT_TIMEOUT w4 = Some (Inr (Some receipt), w')"
    and ok: "rcpt_success receipt"
    by (auto simp: alloy_provider_def response_def)
  from send have "rp_send_raw_transaction rp (resp_raw resp) w3 = Some (Inr h, w4)"
    by (auto simp: alloy_send_raw_transaction_def transport_def map_sum_iff)
  moreover from ended_by_receipt [OF poll_receipt_result [OF wait [unfolded alloy_wait_for_receipt_def]]] ok
  have "\<exists>v rc. rp_get_transaction_receipt rp (resp_hash resp) v = Some (Inr (Some rc), w') \<and> rc_status rc"
    by (auto simp: receipt_info_def) blast
  ultimately show ?thesis by blast
qed

theorem submitted_bundle_is_on_chain_witness:
  "\<exists>resp w' v rc. build_inner node_externals (sv_bundler node_service) [happy_op] (demo_opts True) mined_world
       = Some (Done resp, w')
     \<and> rp_get_transaction_receipt demo_root (resp_hash resp) v = Some (Inr (Some rc), w') \<and> rc_status rc"
proof -
  obtain resp w' where r: "build_inner node_externals (sv_bundler node_service) [happy_op] (demo_opts True) mined_world
      = Some (Done resp, w')" using node_builds by blast
  have "opts_submit (demo_opts True)" by (simp add: demo_opts_def)
  from submitted_bundle_is_on_chain [OF r this node_bundler(2)] r show ?thesis by blast
qed

lemma main_service_started:
  assumes "main_service parse_url new_http keys display_address fm runtime version cfg w = Some (Done svc, w')"
  shows "\<exists>url ls code v1 v2. parse_url (cfg_exec_rpc_url cfg) = Inr url
     \<and> local_signer_from_key keys (cfg_sequencer_key cfg) = Inr ls
     \<and> rp_get_chain_id (new_http url) w = Some (Inr (cfg_chain_id cfg), v1)
     \<and> rp_get_code_at (new_http url) (cfg_entrypoint_address cfg) v1 = Some (Inr code, v2) \<and> code \<noteq> []
     \<and> bd_cfg (sv_bundler svc) = cfg \<and> bd_provider (sv_bundler svc) = alloy_provider (new_http url)
     \<and> bd_signer (sv_bundler svc) = local_signer keys ls"
proof -
  from assms obtain url ls events where url: "parse_url (cfg_exec_rpc_url cfg) = Inr url"
    and ls: "local_signer_from_key keys (cfg_sequencer_key cfg) = Inr ls"
    and probe: "probe display_address (alloy_provider (new_http url)) (cfg_chain_id cfg) (cfg_entrypoint_address cfg)
                  (sg_address (local_signer keys ls :: 'a Signer)) w = Some (Done events, w')"
    and svc: "bd_cfg (sv_bundler svc) = cfg" "bd_provider (sv_bundler svc) = alloy_provider (new_http url)"
      "bd_signer (sv_bundler svc) = local_signer keys ls"
    by (auto simp: main_service_def prog_simps alloy_new_def bundler_with_cancellation_def map_sum_Inr_iff
        split: sum.splits)
  from probe obtain code v1 v2 where "pv_chain_id (alloy_provider (new_http url)) w = Some (Inr (cfg_chain_id cfg), v1)"
    "pv_get_code (alloy_provider (new_http url)) (cfg_entrypoint_address cfg) v1 = Some (Inr code, v2)" "code \<noteq> []"
    by (auto simp: probe_Done_iff)
  then have "rp_get_chain_id (new_http url) w = Some (Inr (cfg_chain_id cfg), v1)"
    "rp_get_code_at (new_http url) (cfg_entrypoint_address cfg) v1 = Some (Inr code, v2)" "code \<noteq> []"
    by (auto simp: alloy_provider_def alloy_chain_id_def alloy_get_code_def transport_def map_sum_iff)
  with url ls svc show ?thesis by blast
qed

text \<open>
  C23. The process only serves on the chain it signs for: whenever it serves requests or drains
  them, the node has answered with the configured chain id and with code at the configured
  EntryPoint, and the bundler signs with the configured key over the production provider under
  that configuration.
\<close>

theorem service_starts_on_its_chain:
  assumes "(main_step ext env (main_setup h cfg
              (main_service parse_url new_http keys display_address fm runtime version cfg)))\<^sup>*\<^sup>* (Booting w) s"
    and "s = Serving svc p \<or> s = Stopping svc p"
  shows "\<exists>url ls code v v1 v2. parse_url (cfg_exec_rpc_url cfg) = Inr url
     \<and> local_signer_from_key keys (cfg_sequencer_key cfg) = Inr ls
     \<and> rp_get_chain_id (new_http url) v = Some (Inr (cfg_chain_id cfg), v1)
     \<and> rp_get_code_at (new_http url) (cfg_entrypoint_address cfg) v1 = Some (Inr code, v2) \<and> code \<noteq> []
     \<and> bd_cfg (sv_bundler svc) = cfg \<and> bd_provider (sv_bundler svc) = alloy_provider (new_http url)
     \<and> bd_signer (sv_bundler svc) = local_signer keys ls"
proof -
  obtain v v' where "main_service parse_url new_http keys display_address fm runtime version cfg v = Some (Done svc, v')"
    using process.always [OF _ assms(1)] assms(2) by (auto simp: process_inv_def main_setup_def prog_simps)
  from main_service_started [OF this] show ?thesis by blast
qed

lemma node_serves:
  "(main_step node_externals env (main_setup demo_host test_config
      (main_service Inr (\<lambda>_. demo_root) demo_keys (\<lambda>a. hex_string (unat a)) demo_formats [0x60] ''0.1.0'' test_config)))\<^sup>*\<^sup>*
     (Booting mined_world) (Serving node_service (idle_pool mined_world))"
  by (rule r_into_rtranclp, rule main_step.boot)
     (simp add: main_setup_def pbind_at [OF node_main_runs], simp add: register_methods_def demo_host_def api_names test_config_def prog_eval)

theorem service_starts_on_its_chain_witness:
  "\<exists>code v v1 v2. rp_get_chain_id demo_root v = Some (Inr (cfg_chain_id test_config), v1)
     \<and> rp_get_code_at demo_root (cfg_entrypoint_address test_config) v1 = Some (Inr code, v2) \<and> code \<noteq> []"
  using service_starts_on_its_chain [OF node_serves]
  by blast

text \<open>
  C25. Discovery and builds agree: a client that reads \<open>eth_chainId\<close> and
  \<open>eth_supportedEntryPoints\<close> of a running service gets the chain id and the target of every
  transaction the service builds.
\<close>

theorem discovery_agrees_with_builds:
  assumes "main_service parse_url new_http keys display_address fm runtime version cfg w = Some (Done svc, w')"
    and "build_inner ext (sv_bundler svc) ops opts v = Some (Done resp, v')"
  shows "discovery_chain_id (sv_discovery svc) = ''0x'' @ hex_string (unat (resp_chain_id resp))
     \<and> supported_entry_points (sv_discovery svc) = [resp_to resp]"
proof -
  from assms(1) have "bd_cfg (sv_bundler svc) = cfg"
    and ds: "sv_discovery svc = discovery_new version (cfg_chain_id cfg) (cfg_entrypoint_address cfg)"
    by (auto simp: main_service_def prog_simps bundler_with_cancellation_def)
  moreover from assms(2) have "resp_chain_id resp = cfg_chain_id (bd_cfg (sv_bundler svc))"
    "resp_to resp = cfg_entrypoint_address (bd_cfg (sv_bundler svc))"
    by (auto elim!: build_inner_Done simp: response_def)
  ultimately show ?thesis
    by (simp add: discovery_chain_id_def supported_entry_points_def discovery_new_def)
qed

theorem discovery_agrees_with_builds_witness:
  "\<exists>resp w'. build_inner node_externals (sv_bundler node_service) [happy_op] (demo_opts True) mined_world
       = Some (Done resp, w')
     \<and> supported_entry_points (sv_discovery node_service) = [resp_to resp]"
proof -
  obtain resp w' where r: "build_inner node_externals (sv_bundler node_service) [happy_op] (demo_opts True) mined_world
      = Some (Done resp, w')" using node_builds by blast
  from discovery_agrees_with_builds [OF node_main_runs r] r show ?thesis by blast
qed

end
